theory Spec2Isabelle
  imports Complex_Main
begin

section \<open>Two-finger gesture transforms of useSvgPanZoom\<close>

text \<open>
  The composable \<^verbatim>\<open>src/composables/useSvgPanZoom.ts\<close> turns two touch points at the
  start of a gesture and their later positions into a 2D affine matrix and composes it
  with the matrix the group had when the gesture started.

  Numbers.  The source computes with JavaScript numbers, which are IEEE 754 doubles: a
  result is rounded to 53 bits, becomes an infinity when it is too large, and is
  \<^verbatim>\<open>NaN\<close> for \<^verbatim>\<open>0 / 0\<close>, \<^verbatim>\<open>Infinity - Infinity\<close> and
  \<^verbatim>\<open>Infinity * 0\<close>.  The theory reads the transform maths three times.

  The first reading is over \<^typ>\<open>real\<close>, with the exact \<open>+\<close>, \<open>-\<close>, \<open>*\<close>: it
  gives the formulas of the source, and agrees with the code on the inputs at which no
  operation of the source rounds or leaves the range.  HOL's \<open>u / 0\<close> is \<open>0\<close>, so
  the division of \<^verbatim>\<open>getZoomMatrix\<close> and \<^verbatim>\<open>getMatrix\<close> is a function into
  \<^typ>\<open>real option\<close>, and \<open>None\<close> stands for the quotient by zero, which is not
  a finite number; what is computed from it is \<open>None\<close> as well.  The hook, which
  only passes matrices on and multiplies them, is stated over this reading.

  The second reading is over numbers that have \<^verbatim>\<open>NaN\<close>, the two infinities and a
  largest finite magnitude, so that an operation can overflow; within the range its
  operations are exact.  The statements about which entries are finite, and about the
  entries being exactly those of the identity, are made there.

  The third reading is the second one with the rounding: every operation on finite
  numbers gives the result as the host rounds it, and the host is a parameter.  What
  the code computes is then compared with what the formulas of the first reading give.
\<close>

subsection \<open>Types\<close>

text \<open>
  \<^verbatim>\<open>interface Point { x: number; y: number }\<close>.  The fields are called \<open>p_x\<close> and
  \<open>p_y\<close> here, so that \<open>x\<close> and \<open>y\<close> stay variables.
\<close>

record Point =
  p_x :: real
  p_y :: real

text \<open>\<^verbatim>\<open>interface MatrixProps { one: Point; two: Point; newOne: Point; newTwo: Point }\<close>\<close>

record MatrixProps =
  one :: Point
  two :: Point
  newOne :: Point
  newTwo :: Point

text \<open>
  The browser's \<^verbatim>\<open>DOMMatrix\<close>, restricted to its six 2D entries: the constructor
  \<open>DOMMatrix a b c d e f\<close> is \<^verbatim>\<open>new DOMMatrix([a, b, c, d, e, f])\<close>, and the
  selectors \<open>m_a\<close>, ..., \<open>m_f\<close> are its attributes \<^verbatim>\<open>a\<close>, ..., \<^verbatim>\<open>f\<close>.
\<close>

datatype DOMMatrix =
  DOMMatrix (m_a: real) (m_b: real) (m_c: real) (m_d: real) (m_e: real) (m_f: real)

text \<open>
  \<^verbatim>\<open>DOMMatrix.multiply\<close>: \<open>multiply m n\<close> is \<^verbatim>\<open>m.multiply(n)\<close>, the product
  \<open>m \<times> n\<close> of the matrices
  \<open>(a c e; b d f; 0 0 1)\<close>.
\<close>

definition multiply :: "DOMMatrix \<Rightarrow> DOMMatrix \<Rightarrow> DOMMatrix" where
  "multiply m n =
     DOMMatrix (m_a m * m_a n + m_c m * m_b n)
               (m_b m * m_a n + m_d m * m_b n)
               (m_a m * m_c n + m_c m * m_d n)
               (m_b m * m_c n + m_d m * m_d n)
               (m_a m * m_e n + m_c m * m_f n + m_e m)
               (m_b m * m_e n + m_d m * m_f n + m_f m)"

text \<open>
  Applying a matrix to a point (\<^verbatim>\<open>DOMMatrix.transformPoint\<close>):
  \<open>(x, y) \<mapsto> (a x + c y + e, b x + d y + f)\<close>.
\<close>

definition transformPoint :: "DOMMatrix \<Rightarrow> Point \<Rightarrow> Point" where
  "transformPoint m p =
     \<lparr>p_x = m_a m * p_x p + m_c m * p_y p + m_e m,
      p_y = m_b m * p_x p + m_d m * p_y p + m_f m\<rparr>"

definition identity :: DOMMatrix where
  "identity = DOMMatrix 1 0 0 1 0 0"

definition midpoint_of :: "Point \<Rightarrow> Point \<Rightarrow> Point" where
  "midpoint_of p q = \<lparr>p_x = (p_x p + p_x q) / 2, p_y = (p_y p + p_y q) / 2\<rparr>"

subsection \<open>The functions of \<^verbatim>\<open>Math\<close>\<close>

text \<open>\<^verbatim>\<open>Math.hypot(u, v)\<close> is the square root of the sum of the squares.\<close>

definition hypot :: "real \<Rightarrow> real \<Rightarrow> real" where
  "hypot u v = sqrt (u * u + v * v)"

text \<open>
  \<^verbatim>\<open>Math.atan2(v, u)\<close>: the angle in \<open>(-\<pi>, \<pi>]\<close> of the point \<open>(u, v)\<close>, and \<open>0\<close>
  at the origin.  A real number has no sign when it is zero, so this is
  \<^verbatim>\<open>Math.atan2\<close> on arguments other than \<^verbatim>\<open>-0\<close>.
\<close>

definition atan2 :: "real \<Rightarrow> real \<Rightarrow> real" where
  "atan2 v u =
     (if 0 < u then arctan (v / u)
      else if u < 0 then (if 0 \<le> v then arctan (v / u) + pi else arctan (v / u) - pi)
      else if 0 < v then pi / 2
      else if v < 0 then - (pi / 2)
      else 0)"

text \<open>
  The operator \<^verbatim>\<open>/\<close>.  \<open>None\<close>: the divisor is zero and the quotient is
  \<^verbatim>\<open>NaN\<close>, \<^verbatim>\<open>Infinity\<close> or \<^verbatim>\<open>-Infinity\<close>.
\<close>

definition js_div :: "real \<Rightarrow> real \<Rightarrow> real option" where
  "js_div u v = (if v = 0 then None else Some (u / v))"

subsection \<open>Transform maths\<close>

definition getDistance :: "Point \<Rightarrow> Point \<Rightarrow> real" where
  "getDistance pointOne pointTwo =
     hypot (p_x pointOne - p_x pointTwo) (p_y pointOne - p_y pointTwo)"

definition getZoomMatrix :: "MatrixProps \<Rightarrow> DOMMatrix option" where
  "getZoomMatrix p =
     (case js_div (getDistance (newOne p) (newTwo p)) (getDistance (one p) (two p)) of
        None \<Rightarrow> None
      | Some d \<Rightarrow>
          let cx = (p_x (newOne p) + p_x (newTwo p)) / 2;
              cy = (p_y (newOne p) + p_y (newTwo p)) / 2;
              tx = cx - d * ((p_x (one p) + p_x (two p)) / 2);
              ty = cy - d * ((p_y (one p) + p_y (two p)) / 2)
          in Some (DOMMatrix d 0 0 d tx ty))"

definition getMatrix :: "MatrixProps \<Rightarrow> DOMMatrix option" where
  "getMatrix p =
     (case js_div (getDistance (newOne p) (newTwo p)) (getDistance (one p) (two p)) of
        None \<Rightarrow> None
      | Some d \<Rightarrow>
          let cx = (p_x (newOne p) + p_x (newTwo p)) / 2;
              cy = (p_y (newOne p) + p_y (newTwo p)) / 2;
              atan = atan2 (p_y (two p) - p_y (one p)) (p_x (two p) - p_x (one p));
              newAtan = atan2 (p_y (newTwo p) - p_y (newOne p))
                              (p_x (newTwo p) - p_x (newOne p));
              c = cos (newAtan - atan);
              s = sin (newAtan - atan);
              tx = cx - d * ((p_x (one p) + p_x (two p)) / 2) * c
                      + d * ((p_y (one p) + p_y (two p)) / 2) * s;
              ty = cy - d * ((p_y (one p) + p_y (two p)) / 2) * c
                      - d * ((p_x (one p) + p_x (two p)) / 2) * s
          in Some (DOMMatrix (d * c) (d * s) (- d * s) (d * c) tx ty))"

subsection \<open>Touches\<close>

text \<open>
  A \<^verbatim>\<open>Touch\<close> of the browser, with the two attributes the source reads.  Both are
  of the IDL type \<^verbatim>\<open>double\<close>, which has no \<^verbatim>\<open>NaN\<close> and no infinity.
\<close>

record Touch =
  pageX :: real
  pageY :: real

text \<open>
  \<^verbatim>\<open>event.touches[i]\<close>: the \<open>i\<close>-th entry of the touch list, and
  \<^verbatim>\<open>undefined\<close> (here \<open>None\<close>) beyond its end.
\<close>

definition item :: "Touch list \<Rightarrow> nat \<Rightarrow> Touch option" where
  "item touches i = (if i < length touches then Some (touches ! i) else None)"

text \<open>
  \<^verbatim>\<open>v || 0\<close> on a number: \<open>0\<close> when \<open>v\<close> is falsy, which for a real number means
  \<open>v = 0\<close>, and \<open>v\<close> otherwise.  \<^verbatim>\<open>touch?.pageX || 0\<close> is \<open>0\<close> as well when
  \<^verbatim>\<open>touch\<close> is \<^verbatim>\<open>undefined\<close>.
\<close>

definition or_zero :: "real option \<Rightarrow> real" where
  "or_zero v = (case v of None \<Rightarrow> 0 | Some w \<Rightarrow> if w = 0 then 0 else w)"

definition getTouchCoords :: "Touch option \<Rightarrow> Point" where
  "getTouchCoords touch =
     \<lparr>p_x = or_zero (map_option pageX touch), p_y = or_zero (map_option pageY touch)\<rparr>"

subsection \<open>The hook\<close>

text \<open>
  \<^verbatim>\<open>initialState\<close> of \<^verbatim>\<open>onDoubleTouch\<close>: the two touch points and the matrix of
  the group when the gesture starts.
\<close>

datatype InitialState =
  InitialState (touchOne: Point) (touchTwo: Point) (matrix: DOMMatrix)

text \<open>
  The closures \<^verbatim>\<open>onTouchMove\<close> that \<^verbatim>\<open>setTouchMove\<close> registers on the document:
  the one of \<^verbatim>\<open>onSingleTouch\<close>, which only prevents the default action, and the one
  of \<^verbatim>\<open>onDoubleTouch\<close>, which carries its \<^verbatim>\<open>initialState\<close>.
\<close>

datatype Listener = SingleTouchMove | DoubleTouchMove InitialState

text \<open>
  The state of one use of the hook: the property \<^verbatim>\<open>isRotatable\<close> (optional, so
  \<open>None\<close> is \<^verbatim>\<open>undefined\<close>), the ref \<^verbatim>\<open>matrix\<close>, and the \<^verbatim>\<open>touchmove\<close>
  listeners of the document in the order of their registration.  Every one of them was
  registered together with a \<^verbatim>\<open>touchend\<close> listener that removes the pair.

  \<^verbatim>\<open>matrix.value\<close> is \<open>None\<close> until a move sets it.  Then it is \<open>Some v\<close>, where
  \<open>v\<close> is what \<^verbatim>\<open>getZoomMatrix\<close> and \<^verbatim>\<open>getMatrix\<close> return: \<open>Some m\<close> for
  a matrix \<open>m\<close>, or \<open>None\<close> for one that was computed with a zero divisor.
\<close>

record State =
  isRotatable :: "bool option"
  matrix_value :: "DOMMatrix option option"
  listeners :: "Listener list"

definition setTouchMove :: "Listener \<Rightarrow> State \<Rightarrow> State" where
  "setTouchMove onTouchMove s = s\<lparr>listeners := listeners s @ [onTouchMove]\<rparr>"

definition onSingleTouch :: "State \<Rightarrow> State" where
  "onSingleTouch s = setTouchMove SingleTouchMove s"

text \<open>
  \<^verbatim>\<open>getCurrentMatrix(groupRef.value!)\<close> reads the matrix of the group from the
  document, where the source asserts with \<^verbatim>\<open>!\<close> that there is one; \<open>current\<close> is
  the matrix it returns when the gesture starts, and comes with the event.
\<close>

definition onDoubleTouch :: "Touch list \<Rightarrow> DOMMatrix \<Rightarrow> State \<Rightarrow> State" where
  "onDoubleTouch touches current s =
     (let initialState = InitialState (getTouchCoords (item touches 0))
                                      (getTouchCoords (item touches 1)) current
      in setTouchMove (DoubleTouchMove initialState) s)"

definition onTouchStart :: "Touch list \<Rightarrow> DOMMatrix \<Rightarrow> State \<Rightarrow> State" where
  "onTouchStart touches current s =
     (let s1 = (if length touches = 1 then onSingleTouch s else s)
      in if length touches = 2 then onDoubleTouch touches current s1 else s1)"

text \<open>The constant \<^verbatim>\<open>matrixParams\<close> of the move listener of \<^verbatim>\<open>onDoubleTouch\<close>.\<close>

definition matrixParams :: "InitialState \<Rightarrow> Touch list \<Rightarrow> MatrixProps" where
  "matrixParams initialState touches =
     \<lparr>one = touchOne initialState, two = touchTwo initialState,
      newOne = getTouchCoords (item touches 0), newTwo = getTouchCoords (item touches 1)\<rparr>"

text \<open>
  The constant \<^verbatim>\<open>newMatrix\<close> of that listener; \<^verbatim>\<open>isRotatable\<close> is truthy only
  when it is \<^verbatim>\<open>true\<close>.
\<close>

definition newMatrix :: "bool option \<Rightarrow> MatrixProps \<Rightarrow> DOMMatrix option" where
  "newMatrix rotatable params =
     (if rotatable = Some True then getMatrix params else getZoomMatrix params)"

text \<open>
  \<^verbatim>\<open>newMatrix.multiply(m)\<close> for a \<^verbatim>\<open>newMatrix\<close> that one of the two functions
  returned: a product with a matrix that is not finite is not finite either.
\<close>

definition multiply_computed :: "DOMMatrix option \<Rightarrow> DOMMatrix \<Rightarrow> DOMMatrix option" where
  "multiply_computed v m = (case v of None \<Rightarrow> None | Some n \<Rightarrow> Some (multiply n m))"

text \<open>The move listener of \<^verbatim>\<open>onDoubleTouch\<close>.\<close>

definition onTouchMove :: "InitialState \<Rightarrow> Touch list \<Rightarrow> State \<Rightarrow> State" where
  "onTouchMove initialState touches s =
     s\<lparr>matrix_value :=
         Some (multiply_computed (newMatrix (isRotatable s) (matrixParams initialState touches))
                 (matrix initialState))\<rparr>"

fun call_listener :: "Listener \<Rightarrow> Touch list \<Rightarrow> State \<Rightarrow> State" where
  "call_listener SingleTouchMove touches s = s"
| "call_listener (DoubleTouchMove initialState) touches s = onTouchMove initialState touches s"

text \<open>A \<^verbatim>\<open>touchmove\<close> event calls the registered listeners in their order.\<close>

fun dispatch :: "Listener list \<Rightarrow> Touch list \<Rightarrow> State \<Rightarrow> State" where
  "dispatch [] touches s = s"
| "dispatch (l # ls) touches s = dispatch ls touches (call_listener l touches s)"

text \<open>
  A \<^verbatim>\<open>touchend\<close> event calls every \<^verbatim>\<open>onTouchEnd\<close>, and each removes its move
  listener and itself: no listener is left.
\<close>

definition onTouchEnd :: "State \<Rightarrow> State" where
  "onTouchEnd s = s\<lparr>listeners := []\<rparr>"

datatype Event =
  TouchStart "Touch list" DOMMatrix
| TouchMove "Touch list"
| TouchEnd

fun handle :: "Event \<Rightarrow> State \<Rightarrow> State" where
  "handle (TouchStart touches current) s = onTouchStart touches current s"
| "handle (TouchMove touches) s = dispatch (listeners s) touches s"
| "handle TouchEnd s = onTouchEnd s"

fun run :: "Event list \<Rightarrow> State \<Rightarrow> State" where
  "run [] s = s"
| "run (e # es) s = run es (handle e s)"

text \<open>
  The computed values \<^verbatim>\<open>angle\<close> and \<^verbatim>\<open>scale\<close>, as functions of \<^verbatim>\<open>matrix.value\<close>.
  On a matrix that is not finite their value is not a number of this model: \<open>None\<close>.
\<close>

definition angle :: "DOMMatrix option option \<Rightarrow> real option" where
  "angle v =
     (case v of
        Some (Some m) \<Rightarrow> Some (atan2 (m_b m) (m_a m) * (180 / pi))
      | Some None \<Rightarrow> None
      | None \<Rightarrow> Some 0)"


subsection \<open>Numbers with \<^verbatim>\<open>NaN\<close> and infinities\<close>

text \<open>
  The claim about \<^verbatim>\<open>NaN\<close> and \<^verbatim>\<open>Infinity\<close> needs numbers that have them.
  \<open>number\<close> is a JavaScript number as far as its range goes: \<^verbatim>\<open>NaN\<close>, the two
  infinities, and the finite values.  An operation on finite values has its exact result
  when that is in range, and an infinity when the exact result is so large that rounding
  to nearest gives one, which is from \<^verbatim>\<open>2^1024 - 2^970\<close> on.  On the special values
  the operations are those of IEEE 754 and of the \<^verbatim>\<open>Math\<close> functions.  Rounding
  within the range is left out, and so is the sign of zero: the coordinates come through
  \<^verbatim>\<open>|| 0\<close> and the divisors are results of \<^verbatim>\<open>Math.hypot\<close> or the constant 2,
  none of which is \<^verbatim>\<open>-0\<close>.
\<close>

datatype number = NaN | PosInf | NegInf | Fin real

definition overflow_threshold :: real where
  "overflow_threshold = 2 ^ 1024 - 2 ^ 970"

definition fl :: "real \<Rightarrow> number" where
  "fl r = (if overflow_threshold \<le> r then PosInf
           else if r \<le> - overflow_threshold then NegInf
           else Fin r)"

text \<open>\<^verbatim>\<open>Number.isFinite\<close>.\<close>

fun is_finite :: "number \<Rightarrow> bool" where
  "is_finite (Fin r) = True"
| "is_finite _ = False"

text \<open>Unary minus, \<open>+\<close>, \<open>-\<close>, \<open>*\<close> and \<open>/\<close>.\<close>

fun n_neg :: "number \<Rightarrow> number" where
  "n_neg NaN = NaN"
| "n_neg PosInf = NegInf"
| "n_neg NegInf = PosInf"
| "n_neg (Fin a) = Fin (- a)"

fun n_add :: "number \<Rightarrow> number \<Rightarrow> number" where
  "n_add NaN _ = NaN"
| "n_add _ NaN = NaN"
| "n_add PosInf NegInf = NaN"
| "n_add NegInf PosInf = NaN"
| "n_add PosInf _ = PosInf"
| "n_add _ PosInf = PosInf"
| "n_add NegInf _ = NegInf"
| "n_add _ NegInf = NegInf"
| "n_add (Fin a) (Fin b) = fl (a + b)"

definition n_sub :: "number \<Rightarrow> number \<Rightarrow> number" where
  "n_sub u v = n_add u (n_neg v)"

definition inf_of_sign :: "bool \<Rightarrow> number" where
  "inf_of_sign negative = (if negative then NegInf else PosInf)"

fun n_mul :: "number \<Rightarrow> number \<Rightarrow> number" where
  "n_mul NaN _ = NaN"
| "n_mul _ NaN = NaN"
| "n_mul (Fin a) (Fin b) = fl (a * b)"
| "n_mul (Fin a) PosInf = (if a = 0 then NaN else inf_of_sign (a < 0))"
| "n_mul (Fin a) NegInf = (if a = 0 then NaN else inf_of_sign (0 < a))"
| "n_mul PosInf (Fin b) = (if b = 0 then NaN else inf_of_sign (b < 0))"
| "n_mul NegInf (Fin b) = (if b = 0 then NaN else inf_of_sign (0 < b))"
| "n_mul PosInf PosInf = PosInf"
| "n_mul PosInf NegInf = NegInf"
| "n_mul NegInf PosInf = NegInf"
| "n_mul NegInf NegInf = PosInf"

fun n_div :: "number \<Rightarrow> number \<Rightarrow> number" where
  "n_div NaN _ = NaN"
| "n_div _ NaN = NaN"
| "n_div (Fin a) (Fin b) =
     (if b = 0 then (if a = 0 then NaN else inf_of_sign (a < 0)) else fl (a / b))"
| "n_div (Fin a) _ = Fin 0"
| "n_div PosInf (Fin b) = inf_of_sign (b < 0)"
| "n_div NegInf (Fin b) = inf_of_sign (0 \<le> b)"
| "n_div _ _ = NaN"

text \<open>
  \<^verbatim>\<open>Math.hypot\<close>, \<^verbatim>\<open>Math.atan2\<close>, \<^verbatim>\<open>Math.cos\<close> and \<^verbatim>\<open>Math.sin\<close> on the
  special values: an infinite argument makes \<^verbatim>\<open>hypot\<close> infinite, even beside
  \<^verbatim>\<open>NaN\<close>; \<^verbatim>\<open>atan2\<close> of infinite arguments is a multiple of \<open>\<pi>/4\<close>; the cosine
  and the sine of an infinity are \<^verbatim>\<open>NaN\<close>.
\<close>

fun n_hypot :: "number \<Rightarrow> number \<Rightarrow> number" where
  "n_hypot (Fin a) (Fin b) = fl (hypot a b)"
| "n_hypot PosInf _ = PosInf"
| "n_hypot NegInf _ = PosInf"
| "n_hypot _ PosInf = PosInf"
| "n_hypot _ NegInf = PosInf"
| "n_hypot _ _ = NaN"

fun n_atan2 :: "number \<Rightarrow> number \<Rightarrow> number" where
  "n_atan2 NaN _ = NaN"
| "n_atan2 _ NaN = NaN"
| "n_atan2 (Fin b) (Fin a) = Fin (atan2 b a)"
| "n_atan2 (Fin b) PosInf = Fin 0"
| "n_atan2 (Fin b) NegInf = Fin (if 0 \<le> b then pi else - pi)"
| "n_atan2 PosInf PosInf = Fin (pi / 4)"
| "n_atan2 PosInf NegInf = Fin (3 * pi / 4)"
| "n_atan2 PosInf (Fin a) = Fin (pi / 2)"
| "n_atan2 NegInf PosInf = Fin (- (pi / 4))"
| "n_atan2 NegInf NegInf = Fin (- (3 * pi / 4))"
| "n_atan2 NegInf (Fin a) = Fin (- (pi / 2))"

fun n_cos :: "number \<Rightarrow> number" where
  "n_cos (Fin a) = Fin (cos a)"
| "n_cos _ = NaN"

fun n_sin :: "number \<Rightarrow> number" where
  "n_sin (Fin a) = Fin (sin a)"
| "n_sin _ = NaN"

text \<open>
  \<^verbatim>\<open>getDistance\<close>, \<^verbatim>\<open>getZoomMatrix\<close> and \<^verbatim>\<open>getMatrix\<close> once more, over these
  numbers and on points with finite coordinates.  The result of the last two is the array
  of six numbers that the source gives to \<^verbatim>\<open>new DOMMatrix\<close>.
\<close>

definition getDistance_fp :: "Point \<Rightarrow> Point \<Rightarrow> number" where
  "getDistance_fp pointOne pointTwo =
     n_hypot (n_sub (Fin (p_x pointOne)) (Fin (p_x pointTwo)))
             (n_sub (Fin (p_y pointOne)) (Fin (p_y pointTwo)))"

definition getZoomMatrix_fp :: "MatrixProps \<Rightarrow> number list" where
  "getZoomMatrix_fp p =
     (let d = n_div (getDistance_fp (newOne p) (newTwo p)) (getDistance_fp (one p) (two p));
          cx = n_div (n_add (Fin (p_x (newOne p))) (Fin (p_x (newTwo p)))) (Fin 2);
          cy = n_div (n_add (Fin (p_y (newOne p))) (Fin (p_y (newTwo p)))) (Fin 2);
          tx = n_sub cx (n_mul d (n_div (n_add (Fin (p_x (one p))) (Fin (p_x (two p)))) (Fin 2)));
          ty = n_sub cy (n_mul d (n_div (n_add (Fin (p_y (one p))) (Fin (p_y (two p)))) (Fin 2)))
      in [d, Fin 0, Fin 0, d, tx, ty])"

definition getMatrix_fp :: "MatrixProps \<Rightarrow> number list" where
  "getMatrix_fp p =
     (let d = n_div (getDistance_fp (newOne p) (newTwo p)) (getDistance_fp (one p) (two p));
          cx = n_div (n_add (Fin (p_x (newOne p))) (Fin (p_x (newTwo p)))) (Fin 2);
          cy = n_div (n_add (Fin (p_y (newOne p))) (Fin (p_y (newTwo p)))) (Fin 2);
          atan = n_atan2 (n_sub (Fin (p_y (two p))) (Fin (p_y (one p))))
                         (n_sub (Fin (p_x (two p))) (Fin (p_x (one p))));
          newAtan = n_atan2 (n_sub (Fin (p_y (newTwo p))) (Fin (p_y (newOne p))))
                            (n_sub (Fin (p_x (newTwo p))) (Fin (p_x (newOne p))));
          c = n_cos (n_sub newAtan atan);
          s = n_sin (n_sub newAtan atan);
          tx = n_add
                 (n_sub cx
                    (n_mul (n_mul d (n_div (n_add (Fin (p_x (one p))) (Fin (p_x (two p)))) (Fin 2)))
                           c))
                 (n_mul (n_mul d (n_div (n_add (Fin (p_y (one p))) (Fin (p_y (two p)))) (Fin 2))) s);
          ty = n_sub
                 (n_sub cy
                    (n_mul (n_mul d (n_div (n_add (Fin (p_y (one p))) (Fin (p_y (two p)))) (Fin 2)))
                           c))
                 (n_mul (n_mul d (n_div (n_add (Fin (p_x (one p))) (Fin (p_x (two p)))) (Fin 2))) s)
      in [n_mul d c, n_mul d s, n_mul (n_neg d) s, n_mul d c, tx, ty])"

definition all_finite :: "number list \<Rightarrow> bool" where
  "all_finite entries = list_all is_finite entries"

text \<open>The six entries of a matrix of the exact model, in the order of the array.\<close>

definition entries :: "DOMMatrix \<Rightarrow> real list" where
  "entries m = [m_a m, m_b m, m_c m, m_d m, m_e m, m_f m]"

text \<open>
  Inputs well inside the range: every coordinate is at most \<^verbatim>\<open>2^100\<close> in absolute
  value, and the two start points are at least \<^verbatim>\<open>2^-100\<close> apart.
\<close>

definition in_range :: "MatrixProps \<Rightarrow> bool" where
  "in_range p \<longleftrightarrow>
     list_all (\<lambda>q. \<bar>p_x q\<bar> \<le> 2 ^ 100 \<and> \<bar>p_y q\<bar> \<le> 2 ^ 100) [one p, two p, newOne p, newTwo p]
     \<and> 1 / 2 ^ 100 \<le> getDistance (one p) (two p)"

text \<open>
  The difference of the two angles, \<^verbatim>\<open>newAtan - atan\<close>, as \<^verbatim>\<open>getMatrix\<close>
  computes it over these numbers.
\<close>

definition angle_difference_fp :: "MatrixProps \<Rightarrow> number" where
  "angle_difference_fp p =
     n_sub (n_atan2 (n_sub (Fin (p_y (newTwo p))) (Fin (p_y (newOne p))))
                    (n_sub (Fin (p_x (newTwo p))) (Fin (p_x (newOne p)))))
           (n_atan2 (n_sub (Fin (p_y (two p))) (Fin (p_y (one p))))
                    (n_sub (Fin (p_x (two p))) (Fin (p_x (one p)))))"

subsection \<open>Numbers as the host rounds them\<close>

text \<open>
  The third reading has the rounding.  The result of \<open>+\<close>, \<open>-\<close>, \<open>*\<close> and
  \<open>/\<close> on two finite numbers is the exact result rounded by the host, \<open>rnd\<close>, and
  an infinity when the rounded result is out of range; \<^verbatim>\<open>Math.hypot\<close>,
  \<^verbatim>\<open>Math.atan2\<close>, \<^verbatim>\<open>Math.cos\<close> and \<^verbatim>\<open>Math.sin\<close> on finite numbers are
  those of the host, which ECMAScript leaves to the implementation.  The host is a
  parameter: \<open>rnd\<close> is the rounding to a double without a bound on the exponent, and
  the four functions give the value the host returns on finite arguments.  On
  \<^verbatim>\<open>NaN\<close> and the infinities the operations are those of the second reading.
  Unary minus is exact.
\<close>

record Host =
  rnd :: "real \<Rightarrow> real"
  math_hypot :: "real \<Rightarrow> real \<Rightarrow> real"
  math_atan2 :: "real \<Rightarrow> real \<Rightarrow> real"
  math_cos :: "real \<Rightarrow> real"
  math_sin :: "real \<Rightarrow> real"

definition add_on :: "Host \<Rightarrow> number \<Rightarrow> number \<Rightarrow> number" where
  "add_on H u v = (case (u, v) of (Fin a, Fin b) \<Rightarrow> fl (rnd H (a + b)) | _ \<Rightarrow> n_add u v)"

definition sub_on :: "Host \<Rightarrow> number \<Rightarrow> number \<Rightarrow> number" where
  "sub_on H u v = add_on H u (n_neg v)"

definition mul_on :: "Host \<Rightarrow> number \<Rightarrow> number \<Rightarrow> number" where
  "mul_on H u v = (case (u, v) of (Fin a, Fin b) \<Rightarrow> fl (rnd H (a * b)) | _ \<Rightarrow> n_mul u v)"

definition div_on :: "Host \<Rightarrow> number \<Rightarrow> number \<Rightarrow> number" where
  "div_on H u v =
     (case (u, v) of
        (Fin a, Fin b) \<Rightarrow> if b = 0 then n_div u v else fl (rnd H (a / b))
      | _ \<Rightarrow> n_div u v)"

definition hypot_on :: "Host \<Rightarrow> number \<Rightarrow> number \<Rightarrow> number" where
  "hypot_on H u v = (case (u, v) of (Fin a, Fin b) \<Rightarrow> fl (math_hypot H a b) | _ \<Rightarrow> n_hypot u v)"

definition atan2_on :: "Host \<Rightarrow> number \<Rightarrow> number \<Rightarrow> number" where
  "atan2_on H u v = (case (u, v) of (Fin b, Fin a) \<Rightarrow> Fin (math_atan2 H b a) | _ \<Rightarrow> n_atan2 u v)"

definition cos_on :: "Host \<Rightarrow> number \<Rightarrow> number" where
  "cos_on H u = (case u of Fin a \<Rightarrow> Fin (math_cos H a) | _ \<Rightarrow> NaN)"

definition sin_on :: "Host \<Rightarrow> number \<Rightarrow> number" where
  "sin_on H u = (case u of Fin a \<Rightarrow> Fin (math_sin H a) | _ \<Rightarrow> NaN)"

text \<open>
  \<^verbatim>\<open>getDistance\<close>, \<^verbatim>\<open>getZoomMatrix\<close> and \<^verbatim>\<open>getMatrix\<close> on a host.
\<close>

definition getDistance_on :: "Host \<Rightarrow> Point \<Rightarrow> Point \<Rightarrow> number" where
  "getDistance_on H pointOne pointTwo =
     hypot_on H (sub_on H (Fin (p_x pointOne)) (Fin (p_x pointTwo)))
                (sub_on H (Fin (p_y pointOne)) (Fin (p_y pointTwo)))"

definition getZoomMatrix_on :: "Host \<Rightarrow> MatrixProps \<Rightarrow> number list" where
  "getZoomMatrix_on H p =
     (let d = div_on H (getDistance_on H (newOne p) (newTwo p)) (getDistance_on H (one p) (two p));
          cx = div_on H (add_on H (Fin (p_x (newOne p))) (Fin (p_x (newTwo p)))) (Fin 2);
          cy = div_on H (add_on H (Fin (p_y (newOne p))) (Fin (p_y (newTwo p)))) (Fin 2);
          tx = sub_on H cx
                 (mul_on H d (div_on H (add_on H (Fin (p_x (one p))) (Fin (p_x (two p)))) (Fin 2)));
          ty = sub_on H cy
                 (mul_on H d (div_on H (add_on H (Fin (p_y (one p))) (Fin (p_y (two p)))) (Fin 2)))
      in [d, Fin 0, Fin 0, d, tx, ty])"

definition getMatrix_on :: "Host \<Rightarrow> MatrixProps \<Rightarrow> number list" where
  "getMatrix_on H p =
     (let d = div_on H (getDistance_on H (newOne p) (newTwo p)) (getDistance_on H (one p) (two p));
          cx = div_on H (add_on H (Fin (p_x (newOne p))) (Fin (p_x (newTwo p)))) (Fin 2);
          cy = div_on H (add_on H (Fin (p_y (newOne p))) (Fin (p_y (newTwo p)))) (Fin 2);
          atan = atan2_on H (sub_on H (Fin (p_y (two p))) (Fin (p_y (one p))))
                            (sub_on H (Fin (p_x (two p))) (Fin (p_x (one p))));
          newAtan = atan2_on H (sub_on H (Fin (p_y (newTwo p))) (Fin (p_y (newOne p))))
                               (sub_on H (Fin (p_x (newTwo p))) (Fin (p_x (newOne p))));
          c = cos_on H (sub_on H newAtan atan);
          s = sin_on H (sub_on H newAtan atan);
          tx = add_on H
                 (sub_on H cx
                    (mul_on H
                       (mul_on H d
                          (div_on H (add_on H (Fin (p_x (one p))) (Fin (p_x (two p)))) (Fin 2)))
                       c))
                 (mul_on H
                    (mul_on H d
                       (div_on H (add_on H (Fin (p_y (one p))) (Fin (p_y (two p)))) (Fin 2)))
                    s);
          ty = sub_on H
                 (sub_on H cy
                    (mul_on H
                       (mul_on H d
                          (div_on H (add_on H (Fin (p_y (one p))) (Fin (p_y (two p)))) (Fin 2)))
                       c))
                 (mul_on H
                    (mul_on H d
                       (div_on H (add_on H (Fin (p_x (one p))) (Fin (p_x (two p)))) (Fin 2)))
                    s)
      in [mul_on H d c, mul_on H d s, mul_on H (n_neg d) s, mul_on H d c, tx, ty])"

text \<open>
  The constant \<^verbatim>\<open>d\<close> of both functions and the argument \<^verbatim>\<open>newAtan - atan\<close>
  of the cosine and the sine of \<^verbatim>\<open>getMatrix\<close>.
\<close>

definition quotient_on :: "Host \<Rightarrow> MatrixProps \<Rightarrow> number" where
  "quotient_on H p =
     div_on H (getDistance_on H (newOne p) (newTwo p)) (getDistance_on H (one p) (two p))"

definition angle_difference_on :: "Host \<Rightarrow> MatrixProps \<Rightarrow> number" where
  "angle_difference_on H p =
     sub_on H (atan2_on H (sub_on H (Fin (p_y (newTwo p))) (Fin (p_y (newOne p))))
                          (sub_on H (Fin (p_x (newTwo p))) (Fin (p_x (newOne p)))))
              (atan2_on H (sub_on H (Fin (p_y (two p))) (Fin (p_y (one p))))
                          (sub_on H (Fin (p_x (two p))) (Fin (p_x (one p)))))"

text \<open>
  The host that does not round.  On it the third reading is the second one.
\<close>

definition exact_host :: Host where
  "exact_host = \<lparr>rnd = (\<lambda>r. r), math_hypot = hypot, math_atan2 = atan2, math_cos = cos, math_sin = sin\<rparr>"

text \<open>
  A host keeps its results when rounding a number that is already rounded changes
  nothing, \<open>0\<close> is a number, and the cosine and the sine of \<open>0\<close> are \<open>1\<close> and
  \<open>0\<close>, as ECMAScript requires of \<^verbatim>\<open>Math.cos\<close> and \<^verbatim>\<open>Math.sin\<close>.
\<close>

definition keeps_results :: "Host \<Rightarrow> bool" where
  "keeps_results H \<longleftrightarrow>
     rnd H 0 = 0 \<and> (\<forall>r. rnd H (rnd H r) = rnd H r) \<and> math_cos H 0 = 1 \<and> math_sin H 0 = 0"

text \<open>
  A host is accurate to the unit \<open>e\<close> when each rounding and each of the four
  functions of \<^verbatim>\<open>Math\<close> is off by at most \<open>e\<close> times the magnitude of the exact
  result plus one.  Rounding to nearest in IEEE 754 doubles is off by at most
  \<^verbatim>\<open>2^-53\<close> times the magnitude for a result in the normal range and by at most
  \<^verbatim>\<open>2^-1075\<close> below it, and a function of \<^verbatim>\<open>Math\<close> that is good to one unit in
  the last place is off by at most \<^verbatim>\<open>2^-52\<close> times the magnitude.  The arguments of
  \<^verbatim>\<open>Math.atan2\<close> in the source are differences of coordinates, which are not
  \<^verbatim>\<open>-0\<close>.
\<close>

definition accurate :: "real \<Rightarrow> Host \<Rightarrow> bool" where
  "accurate e H \<longleftrightarrow>
     (\<forall>r. \<bar>rnd H r - r\<bar> \<le> e * (\<bar>r\<bar> + 1))
   \<and> (\<forall>u v. \<bar>math_hypot H u v - hypot u v\<bar> \<le> e * (hypot u v + 1))
   \<and> (\<forall>v u. \<bar>math_atan2 H v u - atan2 v u\<bar> \<le> e * (\<bar>atan2 v u\<bar> + 1))
   \<and> (\<forall>t. \<bar>math_cos H t - cos t\<bar> \<le> e * (\<bar>cos t\<bar> + 1))
   \<and> (\<forall>t. \<bar>math_sin H t - sin t\<bar> \<le> e * (\<bar>sin t\<bar> + 1))"

text \<open>
  The points of a page: coordinates of at most \<^verbatim>\<open>2^16\<close> in absolute value, and start
  points at least \<open>1\<close> apart.
\<close>

definition on_page :: "MatrixProps \<Rightarrow> bool" where
  "on_page p \<longleftrightarrow>
     list_all (\<lambda>q. \<bar>p_x q\<bar> \<le> 2 ^ 16 \<and> \<bar>p_y q\<bar> \<le> 2 ^ 16) [one p, two p, newOne p, newTwo p]
     \<and> 1 \<le> getDistance (one p) (two p)"

text \<open>Two points whose coordinates differ by at most \<open>t\<close>.\<close>

definition near :: "real \<Rightarrow> Point \<Rightarrow> Point \<Rightarrow> bool" where
  "near t u v \<longleftrightarrow> \<bar>p_x u - p_x v\<bar> \<le> t \<and> \<bar>p_y u - p_y v\<bar> \<le> t"

text \<open>
  The numbers that \<^verbatim>\<open>getDistance\<close> and \<^verbatim>\<open>(x + y) / 2\<close> are on a host when no
  operation overflows.
\<close>

definition distance_value :: "Host \<Rightarrow> Point \<Rightarrow> Point \<Rightarrow> real" where
  "distance_value H pointOne pointTwo =
     math_hypot H (rnd H (p_x pointOne - p_x pointTwo)) (rnd H (p_y pointOne - p_y pointTwo))"

definition half_sum_value :: "Host \<Rightarrow> real \<Rightarrow> real \<Rightarrow> real" where
  "half_sum_value H x y = rnd H (rnd H (x + y) / 2)"

text \<open>
  A host that rounds: \<open>round_to_53\<close> takes a number to a nearest one with 53
  significant bits, whatever its exponent, and the four functions of \<^verbatim>\<open>Math\<close> are the
  exact ones, rounded.
\<close>

definition round_to_53 :: "real \<Rightarrow> real" where
  "round_to_53 r =
     (if r = 0 then 0
      else of_int (round (r / 2 powr (of_int \<lfloor>log 2 \<bar>r\<bar>\<rfloor> - 52)))
             * 2 powr (of_int \<lfloor>log 2 \<bar>r\<bar>\<rfloor> - 52))"

definition rounding_host :: Host where
  "rounding_host =
     \<lparr>rnd = round_to_53,
      math_hypot = (\<lambda>u v. round_to_53 (hypot u v)),
      math_atan2 = (\<lambda>v u. round_to_53 (atan2 v u)),
      math_cos = (\<lambda>t. round_to_53 (cos t)),
      math_sin = (\<lambda>t. round_to_53 (sin t))\<rparr>"

section \<open>Properties\<close>

subsection \<open>Distances and angles\<close>

lemma hypot_axis [simp]: "hypot u 0 = \<bar>u\<bar>"
  by (simp add: hypot_def)

lemma hypot_nonneg: "0 \<le> hypot u v"
  by (simp add: hypot_def)

lemma hypot_eq_0_iff: "hypot u v = 0 \<longleftrightarrow> u = 0 \<and> v = 0"
  by (simp add: hypot_def add_nonneg_eq_0_iff)

lemma hypot_square: "hypot u v * hypot u v = u * u + v * v"
  by (simp add: hypot_def)

lemma cos_atan2:
  assumes "u \<noteq> 0 \<or> v \<noteq> 0"
  shows "cos (atan2 v u) = u / hypot u v"
proof -
  have pos: "0 < u \<Longrightarrow> cos (arctan (v / u)) = u / hypot u v"
  proof -
    assume u: "0 < u"
    have "1 + (v / u)\<^sup>2 = (u * u + v * v) / (u * u)"
      using u by (simp add: field_simps power2_eq_square)
    then have "sqrt (1 + (v / u)\<^sup>2) = hypot u v / u"
      using u by (simp add: hypot_def real_sqrt_divide)
    then show ?thesis by (simp add: cos_arctan)
  qed
  have neg: "u < 0 \<Longrightarrow> cos (arctan (v / u)) = - u / hypot u v"
  proof -
    assume u: "u < 0"
    have "1 + (v / u)\<^sup>2 = (u * u + v * v) / (u * u)"
      using u by (simp add: field_simps power2_eq_square)
    then have "sqrt (1 + (v / u)\<^sup>2) = hypot u v / (- u)"
      using u by (simp add: hypot_def real_sqrt_divide)
    then show ?thesis by (simp add: cos_arctan)
  qed
  show ?thesis
    using assms pos neg by (auto simp: atan2_def hypot_def)
qed

lemma sin_atan2:
  assumes "u \<noteq> 0 \<or> v \<noteq> 0"
  shows "sin (atan2 v u) = v / hypot u v"
proof -
  have pos: "0 < u \<Longrightarrow> sin (arctan (v / u)) = v / hypot u v"
  proof -
    assume u: "0 < u"
    have "1 + (v / u)\<^sup>2 = (u * u + v * v) / (u * u)"
      using u by (simp add: field_simps power2_eq_square)
    then have "sqrt (1 + (v / u)\<^sup>2) = hypot u v / u"
      using u by (simp add: hypot_def real_sqrt_divide)
    then show ?thesis using u by (simp add: sin_arctan)
  qed
  have neg: "u < 0 \<Longrightarrow> sin (arctan (v / u)) = - v / hypot u v"
  proof -
    assume u: "u < 0"
    have "1 + (v / u)\<^sup>2 = (u * u + v * v) / (u * u)"
      using u by (simp add: field_simps power2_eq_square)
    then have "sqrt (1 + (v / u)\<^sup>2) = hypot u v / (- u)"
      using u by (simp add: hypot_def real_sqrt_divide)
    then show ?thesis using u by (simp add: sin_arctan)
  qed
  show ?thesis
    using assms pos neg by (auto simp: atan2_def hypot_def)
qed

text \<open>
  The products \<open>d * c\<close> and \<open>d * s\<close> of \<^verbatim>\<open>getMatrix\<close>, free of trigonometry: here
  \<open>(u, v)\<close> is \<open>two - one\<close> and \<open>(u', v')\<close> is \<open>newTwo - newOne\<close>.
\<close>

lemma rot_scale_cos:
  assumes r: "u \<noteq> 0 \<or> v \<noteq> 0"
  shows "hypot u' v' / hypot u v * cos (atan2 v' u' - atan2 v u)
           = (u' * u + v' * v) / (u * u + v * v)"
proof (cases "u' = 0 \<and> v' = 0")
  case True
  then show ?thesis by (simp add: hypot_def)
next
  case False
  then have r': "u' \<noteq> 0 \<or> v' \<noteq> 0" by simp
  have h: "hypot u v \<noteq> 0" "hypot u' v' \<noteq> 0"
    using r r' by (simp_all add: hypot_eq_0_iff)
  have "hypot u' v' / hypot u v * cos (atan2 v' u' - atan2 v u)
      = (u' * u + v' * v) / (hypot u v * hypot u v)"
    using h by (simp add: cos_diff cos_atan2[OF r] cos_atan2[OF r'] sin_atan2[OF r] sin_atan2[OF r']
         field_simps)
  then show ?thesis by (simp add: hypot_square)
qed

lemma rot_scale_sin:
  assumes r: "u \<noteq> 0 \<or> v \<noteq> 0"
  shows "hypot u' v' / hypot u v * sin (atan2 v' u' - atan2 v u)
           = (v' * u - u' * v) / (u * u + v * v)"
proof (cases "u' = 0 \<and> v' = 0")
  case True
  then show ?thesis by (simp add: hypot_def)
next
  case False
  then have r': "u' \<noteq> 0 \<or> v' \<noteq> 0" by simp
  have h: "hypot u v \<noteq> 0" "hypot u' v' \<noteq> 0"
    using r r' by (simp_all add: hypot_eq_0_iff)
  have "hypot u' v' / hypot u v * sin (atan2 v' u' - atan2 v u)
      = (v' * u - u' * v) / (hypot u v * hypot u v)"
    using h by (simp add: sin_diff cos_atan2[OF r] cos_atan2[OF r'] sin_atan2[OF r] sin_atan2[OF r']
         field_simps)
  then show ?thesis by (simp add: hypot_square)
qed

subsection \<open>The scale transform\<close>

lemma getDistance_nonneg: "0 \<le> getDistance a b"
  by (simp add: getDistance_def hypot_nonneg)

lemma getDistance_eq_0_iff: "getDistance a b = 0 \<longleftrightarrow> a = b"
  by (auto simp: getDistance_def hypot_eq_0_iff intro: Point.equality)

lemma getDistance_scaled:
  "getDistance (transformPoint (DOMMatrix k 0 0 k tx ty) a) (transformPoint (DOMMatrix k 0 0 k tx ty) b)
     = \<bar>k\<bar> * getDistance a b"
proof -
  have "(k * p_x a - k * p_x b) * (k * p_x a - k * p_x b) + (k * p_y a - k * p_y b) * (k * p_y a - k * p_y b)
      = (k * k) * ((p_x a - p_x b) * (p_x a - p_x b) + (p_y a - p_y b) * (p_y a - p_y b))"
    by (simp add: algebra_simps)
  then show ?thesis
    by (simp add: getDistance_def transformPoint_def hypot_def real_sqrt_mult)
qed

lemma transformPoint_midpoint:
  "midpoint_of (transformPoint m a) (transformPoint m b) = transformPoint m (midpoint_of a b)"
  by (simp add: midpoint_of_def transformPoint_def algebra_simps add_divide_distrib)

text \<open>
  The formulas of \<^verbatim>\<open>getZoomMatrix\<close>, read over the reals: the matrix
  \<open>[d, 0, 0, d, tx, ty]\<close> with \<open>d\<close> the quotient of the two distances and
  \<open>(tx, ty)\<close> the new midpoint minus \<open>d\<close> times the old one sends \<open>one\<close>
  and \<open>two\<close> to two points that have the midpoint of \<open>newOne\<close> and
  \<open>newTwo\<close> and are as far apart as these.
\<close>

lemma getZoomMatrix_formulas:
  assumes "0 < getDistance (one p) (two p)"
  shows "let d = getDistance (newOne p) (newTwo p) / getDistance (one p) (two p);
             tx = p_x (midpoint_of (newOne p) (newTwo p)) - d * p_x (midpoint_of (one p) (two p));
             ty = p_y (midpoint_of (newOne p) (newTwo p)) - d * p_y (midpoint_of (one p) (two p));
             m = DOMMatrix d 0 0 d tx ty
         in getZoomMatrix p = Some m
          \<and> midpoint_of (transformPoint m (one p)) (transformPoint m (two p))
              = midpoint_of (newOne p) (newTwo p)
          \<and> getDistance (transformPoint m (one p)) (transformPoint m (two p))
              = getDistance (newOne p) (newTwo p)"
proof -
  let ?d = "getDistance (newOne p) (newTwo p) / getDistance (one p) (two p)"
  let ?m = "DOMMatrix ?d 0 0 ?d
              (p_x (midpoint_of (newOne p) (newTwo p)) - ?d * p_x (midpoint_of (one p) (two p)))
              (p_y (midpoint_of (newOne p) (newTwo p)) - ?d * p_y (midpoint_of (one p) (two p)))"
  have 1: "getZoomMatrix p = Some ?m"
    using assms by (simp add: getZoomMatrix_def js_div_def midpoint_of_def Let_def)
  have "transformPoint ?m (midpoint_of (one p) (two p)) = midpoint_of (newOne p) (newTwo p)"
    by (simp add: transformPoint_def)
  then have 2: "midpoint_of (transformPoint ?m (one p)) (transformPoint ?m (two p))
                  = midpoint_of (newOne p) (newTwo p)"
    by (simp only: transformPoint_midpoint)
  have "\<bar>?d\<bar> * getDistance (one p) (two p) = getDistance (newOne p) (newTwo p)"
    using assms by (simp add: getDistance_nonneg)
  then have 3: "getDistance (transformPoint ?m (one p)) (transformPoint ?m (two p))
                  = getDistance (newOne p) (newTwo p)"
    by (simp only: getDistance_scaled)
  from 1 2 3 show ?thesis
    unfolding Let_def by blast
qed

subsection \<open>The transform with rotation\<close>

text \<open>The linear part of a rotation with scaling, determined by where it sends one vector.\<close>

lemma rot_scale_vector:
  fixes u v u' v' K L :: real
  assumes nz: "u \<noteq> 0 \<or> v \<noteq> 0"
    and K: "K = (u' * u + v' * v) / (u * u + v * v)"
    and L: "L = (v' * u - u' * v) / (u * u + v * v)"
  shows "K * u - L * v = u'" and "L * u + K * v = v'"
proof -
  have R: "u * u + v * v \<noteq> 0"
    using nz by (auto simp: add_nonneg_eq_0_iff)
  have KR: "K * (u * u + v * v) = u' * u + v' * v"
    and LR: "L * (u * u + v * v) = v' * u - u' * v"
    unfolding K L using R by simp_all
  have "(K * u - L * v) * (u * u + v * v)
          = (K * (u * u + v * v)) * u - (L * (u * u + v * v)) * v"
    by (simp add: algebra_simps)
  also have "\<dots> = u' * (u * u + v * v)"
    unfolding KR LR by (simp add: algebra_simps)
  finally show "K * u - L * v = u'" using mult_right_cancel[OF R] by blast
  have "(L * u + K * v) * (u * u + v * v)
          = (L * (u * u + v * v)) * u + (K * (u * u + v * v)) * v"
    by (simp add: algebra_simps)
  also have "\<dots> = v' * (u * u + v * v)"
    unfolding KR LR by (simp add: algebra_simps)
  finally show "L * u + K * v = v'" using mult_right_cancel[OF R] by blast
qed

lemma transformPoint_about_centre:
  "transformPoint (DOMMatrix K L (- L) K (cx - K * mx + L * my) (cy - K * my - L * mx)) q
     = \<lparr>p_x = cx + (K * (p_x q - mx) - L * (p_y q - my)),
        p_y = cy + (L * (p_x q - mx) + K * (p_y q - my))\<rparr>"
  by (simp add: transformPoint_def algebra_simps)

lemma getMatrix_Some:
  assumes "0 < getDistance (one p) (two p)"
  shows "getMatrix p =
     (let d = getDistance (newOne p) (newTwo p) / getDistance (one p) (two p);
          t = atan2 (p_y (newTwo p) - p_y (newOne p)) (p_x (newTwo p) - p_x (newOne p))
              - atan2 (p_y (two p) - p_y (one p)) (p_x (two p) - p_x (one p));
          K = d * cos t; L = d * sin t
      in Some (DOMMatrix K L (- L) K
           (p_x (midpoint_of (newOne p) (newTwo p)) - K * p_x (midpoint_of (one p) (two p))
              + L * p_y (midpoint_of (one p) (two p)))
           (p_y (midpoint_of (newOne p) (newTwo p)) - K * p_y (midpoint_of (one p) (two p))
              - L * p_x (midpoint_of (one p) (two p)))))"
  using assms by (simp add: getMatrix_def js_div_def Let_def midpoint_of_def mult_ac)

lemma getDistance_hypot:
  "getDistance a b = hypot (p_x b - p_x a) (p_y b - p_y a)"
  by (simp add: getDistance_def hypot_def algebra_simps)

text \<open>
  The formulas of \<^verbatim>\<open>getMatrix\<close>, read over the reals, give a matrix that takes
  \<open>one\<close> to \<open>newOne\<close> and \<open>two\<close> to \<open>newTwo\<close>.
\<close>

lemma getMatrix_formulas_map_points:
  assumes pos: "0 < getDistance (one p) (two p)"
  shows "\<exists>m. getMatrix p = Some m
           \<and> transformPoint m (one p) = newOne p \<and> transformPoint m (two p) = newTwo p"
proof -
  define u v u' v' where "u = p_x (two p) - p_x (one p)" and "v = p_y (two p) - p_y (one p)"
    and "u' = p_x (newTwo p) - p_x (newOne p)" and "v' = p_y (newTwo p) - p_y (newOne p)"
  define K L where "K = hypot u' v' / hypot u v * cos (atan2 v' u' - atan2 v u)"
    and "L = hypot u' v' / hypot u v * sin (atan2 v' u' - atan2 v u)"
  define cx cy mx my where "cx = p_x (midpoint_of (newOne p) (newTwo p))"
    and "cy = p_y (midpoint_of (newOne p) (newTwo p))"
    and "mx = p_x (midpoint_of (one p) (two p))" and "my = p_y (midpoint_of (one p) (two p))"
  define m where "m = DOMMatrix K L (- L) K (cx - K * mx + L * my) (cy - K * my - L * mx)"
  have nz: "u \<noteq> 0 \<or> v \<noteq> 0"
    using pos by (auto simp: getDistance_hypot u_def v_def u'_def v'_def hypot_def)
  have m: "getMatrix p = Some m"
    unfolding getMatrix_Some[OF pos] Let_def m_def K_def L_def cx_def cy_def mx_def my_def u_def v_def u'_def v'_def
      getDistance_hypot ..
  have KL: "K * u - L * v = u'" "L * u + K * v = v'"
    using rot_scale_vector[OF nz, of K u' v' L] rot_scale_cos[OF nz, of u' v']
      rot_scale_sin[OF nz, of u' v'] by (simp_all add: K_def L_def)
  have one: "p_x (one p) - mx = - u / 2" "p_y (one p) - my = - v / 2"
    and two: "p_x (two p) - mx = u / 2" "p_y (two p) - my = v / 2"
    by (simp_all add: cx_def cy_def mx_def my_def u_def v_def u'_def v'_def midpoint_of_def field_simps)
  have "K * (- u / 2) - L * (- v / 2) = - (K * u - L * v) / 2"
       "L * (- u / 2) + K * (- v / 2) = - (L * u + K * v) / 2"
       "K * (u / 2) - L * (v / 2) = (K * u - L * v) / 2"
       "L * (u / 2) + K * (v / 2) = (L * u + K * v) / 2"
    by (simp_all add: field_simps)
  then have lin: "K * (- u / 2) - L * (- v / 2) = - u' / 2"
       "L * (- u / 2) + K * (- v / 2) = - v' / 2"
       "K * (u / 2) - L * (v / 2) = u' / 2"
       "L * (u / 2) + K * (v / 2) = v' / 2"
    by (simp_all only: KL)
  have "transformPoint m (one p) = \<lparr>p_x = cx + - u' / 2, p_y = cy + - v' / 2\<rparr>"
    unfolding m_def transformPoint_about_centre one lin ..
  moreover have "\<lparr>p_x = cx + - u' / 2, p_y = cy + - v' / 2\<rparr> = newOne p"
    by (simp add: cx_def cy_def mx_def my_def u_def v_def u'_def v'_def midpoint_of_def field_simps)
  moreover have "transformPoint m (two p) = \<lparr>p_x = cx + u' / 2, p_y = cy + v' / 2\<rparr>"
    unfolding m_def transformPoint_about_centre two lin ..
  moreover have "\<lparr>p_x = cx + u' / 2, p_y = cy + v' / 2\<rparr> = newTwo p"
    by (simp add: cx_def cy_def mx_def my_def u_def v_def u'_def v'_def midpoint_of_def field_simps)
  ultimately show ?thesis using m by simp
qed

text \<open>
  Read over the reals, the linear part is \<open>[d cos t, d sin t, - d sin t, d cos t]\<close>, with
  \<open>d\<close> the quotient of the distances and \<open>t\<close> the difference of the two
  \<^verbatim>\<open>atan2\<close> angles, and the matrix takes the midpoint of \<open>one\<close> and \<open>two\<close>
  to the midpoint of \<open>newOne\<close> and \<open>newTwo\<close>.
\<close>

lemma getMatrix_formulas:
  assumes pos: "0 < getDistance (one p) (two p)"
  shows "let d = getDistance (newOne p) (newTwo p) / getDistance (one p) (two p);
             t = atan2 (p_y (newTwo p) - p_y (newOne p)) (p_x (newTwo p) - p_x (newOne p))
                 - atan2 (p_y (two p) - p_y (one p)) (p_x (two p) - p_x (one p))
         in \<exists>tx ty.
              getMatrix p = Some (DOMMatrix (d * cos t) (d * sin t) (- d * sin t) (d * cos t) tx ty)
            \<and> transformPoint (DOMMatrix (d * cos t) (d * sin t) (- d * sin t) (d * cos t) tx ty)
                 (midpoint_of (one p) (two p))
               = midpoint_of (newOne p) (newTwo p)"
proof -
  have "transformPoint
          (DOMMatrix K L (- L) K
             (p_x (midpoint_of (newOne p) (newTwo p)) - K * p_x (midpoint_of (one p) (two p))
                + L * p_y (midpoint_of (one p) (two p)))
             (p_y (midpoint_of (newOne p) (newTwo p)) - K * p_y (midpoint_of (one p) (two p))
                - L * p_x (midpoint_of (one p) (two p))))
          (midpoint_of (one p) (two p))
        = midpoint_of (newOne p) (newTwo p)" for K L
    unfolding transformPoint_about_centre by simp
  then show ?thesis
    unfolding getMatrix_Some[OF pos] Let_def by (simp del: times_divide_eq_left times_divide_eq_right)
qed

subsection \<open>Matrices and accessors\<close>

lemma atan2_bounds: "- pi < atan2 v u \<and> atan2 v u \<le> pi"
proof -
  have b: "- (pi / 2) < arctan (v / u)" "arctan (v / u) < pi / 2"
    using arctan[of "v / u"] by simp_all
  have n: "u < 0 \<Longrightarrow> 0 \<le> v \<Longrightarrow> arctan (v / u) \<le> 0"
    by (simp add: arctan_le_zero_iff divide_nonneg_neg)
  have q: "u < 0 \<Longrightarrow> v < 0 \<Longrightarrow> 0 < arctan (v / u)"
    by (simp add: zero_less_arctan_iff divide_neg_neg)
  show ?thesis
    using b n q pi_gt_zero by (auto simp: atan2_def)
qed

lemma multiply_transformPoint:
  "transformPoint (multiply m n) q = transformPoint m (transformPoint n q)"
  by (simp add: multiply_def transformPoint_def algebra_simps)

lemma multiply_identity: "multiply m identity = m" "multiply identity m = m"
  by (cases m; simp add: multiply_def identity_def)+

lemma multiply_assoc: "multiply (multiply k m) n = multiply k (multiply m n)"
  by (simp add: multiply_def algebra_simps)


subsection \<open>The gesture\<close>

lemma getZoomMatrix_None_iff: "getZoomMatrix p = None \<longleftrightarrow> one p = two p"
  by (simp add: getZoomMatrix_def js_div_def Let_def getDistance_eq_0_iff)

lemma getMatrix_None_iff: "getMatrix p = None \<longleftrightarrow> one p = two p"
  by (simp add: getMatrix_def js_div_def Let_def getDistance_eq_0_iff)

lemma newMatrix_None_iff: "newMatrix r p = None \<longleftrightarrow> one p = two p"
  by (simp add: newMatrix_def getMatrix_None_iff getZoomMatrix_None_iff)

lemma call_listener_keeps:
  "isRotatable (call_listener l touches s) = isRotatable s"
  "listeners (call_listener l touches s) = listeners s"
  by (cases l; simp add: onTouchMove_def)+

lemma dispatch_keeps:
  "isRotatable (dispatch ls touches s) = isRotatable s"
  "listeners (dispatch ls touches s) = listeners s"
  by (induction ls arbitrary: s) (simp_all add: call_listener_keeps)

lemma dispatch_append:
  "dispatch (ls @ [l]) touches s = call_listener l touches (dispatch ls touches s)"
  by (induction ls arbitrary: s) simp_all

text \<open>The listener registered last is called last, and its matrix is the one that stays.\<close>

lemma gesture_move:
  assumes "listeners s = ls @ [DoubleTouchMove i]"
  shows "matrix_value (handle (TouchMove touches) s)
           = Some (multiply_computed (newMatrix (isRotatable s) (matrixParams i touches))
                     (matrix i))"
    and "isRotatable (handle (TouchMove touches) s) = isRotatable s"
    and "listeners (handle (TouchMove touches) s) = listeners s"
  using assms by (simp_all add: dispatch_append dispatch_keeps onTouchMove_def)

lemma gesture_moves:
  assumes "listeners s = ls @ [DoubleTouchMove i]" and "moves \<noteq> []"
  shows "matrix_value (run (map TouchMove moves) s)
           = Some (multiply_computed (newMatrix (isRotatable s) (matrixParams i (last moves)))
                     (matrix i))"
  using assms
proof (induction moves arbitrary: s)
  case Nil
  then show ?case by simp
next
  case (Cons touches moves)
  note step = gesture_move[OF Cons.prems(1), of touches]
  show ?case
  proof (cases "moves = []")
    case True
    with step(1) show ?thesis by simp
  next
    case False
    from Cons.IH[of "handle (TouchMove touches) s"] step(2,3) Cons.prems(1) False
    show ?thesis by simp
  qed
qed

text \<open>
  C3.  A two-finger gesture starts with a \<^verbatim>\<open>touchstart\<close> of two touches, while
  \<open>base\<close> is the matrix of the group, and goes on with one or more \<^verbatim>\<open>touchmove\<close>
  events.  After the last of them \<^verbatim>\<open>matrix.value\<close> is
  \<^verbatim>\<open>incremental.multiply(base)\<close>, where \<open>incremental\<close> comes from the touch points
  of the start and those of that last move alone, by \<^verbatim>\<open>getMatrix\<close> when
  \<^verbatim>\<open>isRotatable\<close> is \<^verbatim>\<open>true\<close> and by \<^verbatim>\<open>getZoomMatrix\<close> otherwise: the moves
  in between leave no trace, and neither do listeners that are still registered from
  before.
\<close>

theorem moves_compose_onto_start_matrix:
  assumes two: "length touches = 2" and moves: "moves \<noteq> []"
  shows "matrix_value (run (TouchStart touches base # map TouchMove moves) s)
           = Some (multiply_computed
                     (let matrixParams =
                            \<lparr>one = getTouchCoords (item touches 0),
                             two = getTouchCoords (item touches 1),
                             newOne = getTouchCoords (item (last moves) 0),
                             newTwo = getTouchCoords (item (last moves) 1)\<rparr>
                      in if isRotatable s = Some True then getMatrix matrixParams
                         else getZoomMatrix matrixParams)
                     base)"
proof -
  define i where "i = InitialState (getTouchCoords (item touches 0))
                                   (getTouchCoords (item touches 1)) base"
  define s1 where "s1 = onTouchStart touches base s"
  have s1: "listeners s1 = listeners s @ [DoubleTouchMove i]" "isRotatable s1 = isRotatable s"
    using two by (simp_all add: s1_def onTouchStart_def onDoubleTouch_def setTouchMove_def i_def)
  have "matrix_value (run (TouchStart touches base # map TouchMove moves) s)
          = matrix_value (run (map TouchMove moves) s1)"
    by (simp add: s1_def)
  also have "\<dots> = Some (multiply_computed (newMatrix (isRotatable s1) (matrixParams i (last moves)))
                          (matrix i))"
    by (rule gesture_moves[OF s1(1) moves])
  finally show ?thesis
    by (simp add: s1(2) newMatrix_def matrixParams_def i_def Let_def)
qed

subsection \<open>Missing touches\<close>

text \<open>
  C10.  \<^verbatim>\<open>getTouchCoords\<close> returns the origin for a touch that is missing, as
  \<^verbatim>\<open>event.touches[k]\<close> is beyond the end of the touch list, and \<open>0\<close> for a
  coordinate that is falsy; it has a value on every argument.  A move event with at
  most one touch therefore makes the move listener of a two-finger gesture compute its
  matrix with \<open>(0, 0)\<close> as the position of the second finger.
\<close>

theorem getTouchCoords_missing_touch:
  "getTouchCoords None = \<lparr>p_x = 0, p_y = 0\<rparr>
   \<and> (length touches \<le> k \<longrightarrow> getTouchCoords (item touches k) = \<lparr>p_x = 0, p_y = 0\<rparr>)
   \<and> (pageX t = 0 \<longrightarrow> p_x (getTouchCoords (Some t)) = 0)
   \<and> (pageY t = 0 \<longrightarrow> p_y (getTouchCoords (Some t)) = 0)
   \<and> (length touches \<le> 1 \<longrightarrow>
        onTouchMove i touches s =
          s\<lparr>matrix_value :=
              Some (multiply_computed
                      (newMatrix (isRotatable s)
                         \<lparr>one = touchOne i, two = touchTwo i,
                          newOne = getTouchCoords (item touches 0),
                          newTwo = \<lparr>p_x = 0, p_y = 0\<rparr>\<rparr>)
                      (matrix i))\<rparr>)"
  by (simp add: getTouchCoords_def or_zero_def item_def onTouchMove_def matrixParams_def)

theorem getTouchCoords_missing_touch_witness:
  "length [\<lparr>pageX = 3, pageY = 0\<rparr>] \<le> 1
   \<and> getTouchCoords (item [\<lparr>pageX = 3, pageY = 0\<rparr>] 1) = \<lparr>p_x = 0, p_y = 0\<rparr>
   \<and> pageY \<lparr>pageX = 3, pageY = 0\<rparr> = 0
   \<and> getTouchCoords (Some \<lparr>pageX = 3, pageY = 0\<rparr>) = \<lparr>p_x = 3, p_y = 0\<rparr>
   \<and> onTouchMove (InitialState \<lparr>p_x = 0, p_y = 0\<rparr> \<lparr>p_x = 6, p_y = 0\<rparr> identity)
        [\<lparr>pageX = 3, pageY = 0\<rparr>]
        \<lparr>isRotatable = None, matrix_value = None, listeners = []\<rparr>
     = \<lparr>isRotatable = None, matrix_value = Some (Some (DOMMatrix (1/2) 0 0 (1/2) 0 0)),
        listeners = []\<rparr>"
  using getTouchCoords_missing_touch
    [of "[\<lparr>pageX = 3, pageY = 0\<rparr>]" 1 "\<lparr>pageX = 3, pageY = 0\<rparr>"
        "InitialState \<lparr>p_x = 0, p_y = 0\<rparr> \<lparr>p_x = 6, p_y = 0\<rparr> identity"
        "\<lparr>isRotatable = None, matrix_value = None, listeners = []\<rparr>"]
  by (simp add: getTouchCoords_def or_zero_def item_def newMatrix_def getZoomMatrix_def
        getDistance_def js_div_def multiply_def multiply_computed_def identity_def)

subsection \<open>Instances\<close>

theorem moves_compose_onto_start_matrix_witness:
  "length [\<lparr>pageX = 0, pageY = 0\<rparr>, \<lparr>pageX = 1, pageY = 0\<rparr>] = 2
   \<and> [[\<lparr>pageX = 0, pageY = 0\<rparr>, \<lparr>pageX = 3, pageY = 0\<rparr>],
       [\<lparr>pageX = 0, pageY = 0\<rparr>, \<lparr>pageX = 0, pageY = 1\<rparr>]] \<noteq> []
   \<and> matrix_value
       (run (TouchStart [\<lparr>pageX = 0, pageY = 0\<rparr>, \<lparr>pageX = 1, pageY = 0\<rparr>]
                        (DOMMatrix 1 0 0 1 5 7)
             # map TouchMove [[\<lparr>pageX = 0, pageY = 0\<rparr>, \<lparr>pageX = 3, pageY = 0\<rparr>],
                              [\<lparr>pageX = 0, pageY = 0\<rparr>, \<lparr>pageX = 0, pageY = 1\<rparr>]])
            \<lparr>isRotatable = Some True, matrix_value = None, listeners = [SingleTouchMove]\<rparr>)
       = Some (Some (multiply (DOMMatrix 0 1 (- 1) 0 0 0) (DOMMatrix 1 0 0 1 5 7)))"
proof -
  let ?s = "\<lparr>isRotatable = Some True, matrix_value = None, listeners = [SingleTouchMove]\<rparr>"
  let ?touches = "[\<lparr>pageX = 0, pageY = 0\<rparr>, \<lparr>pageX = 1, pageY = 0\<rparr>]"
  let ?moves = "[[\<lparr>pageX = 0, pageY = 0\<rparr>, \<lparr>pageX = 3, pageY = 0\<rparr>],
                 [\<lparr>pageX = 0, pageY = 0\<rparr>, \<lparr>pageX = 0, pageY = 1\<rparr>]]"
  have two: "length ?touches = 2"
    by simp
  have moves: "?moves \<noteq> []"
    by simp
  have inc: "getMatrix \<lparr>one = \<lparr>p_x = 0, p_y = 0\<rparr>, two = \<lparr>p_x = 1, p_y = 0\<rparr>,
                 newOne = \<lparr>p_x = 0, p_y = 0\<rparr>, newTwo = \<lparr>p_x = 0, p_y = 1\<rparr>\<rparr>
       = Some (DOMMatrix 0 1 (- 1) 0 0 0)"
    by (simp add: getMatrix_def js_div_def getDistance_def hypot_def atan2_def)
  have "matrix_value (run (TouchStart ?touches (DOMMatrix 1 0 0 1 5 7) # map TouchMove ?moves) ?s)
          = Some (Some (multiply (DOMMatrix 0 1 (- 1) 0 0 0) (DOMMatrix 1 0 0 1 5 7)))"
    unfolding moves_compose_onto_start_matrix[OF two moves]
    by (simp add: getTouchCoords_def item_def or_zero_def inc multiply_computed_def)
  with two moves show ?thesis
    by blast
qed

subsection \<open>The worked scenario\<close>

text \<open>
  C7, as the code has it: for \<open>one = (0,0)\<close>, \<open>two = (10,0)\<close>, \<open>newOne = (0,0)\<close>,
  \<open>newTwo = (20,0)\<close> the scale factor is 2, and the centre of the new pair is
  \<open>cx = 10\<close>, so \<open>tx = 10 - 2 * 5 = 0\<close>: \<^verbatim>\<open>getZoomMatrix\<close> returns
  \<open>[2, 0, 0, 2, 0, 0]\<close>.  That matrix doubles the distance of the two start points and
  takes their midpoint \<open>(5,0)\<close> to \<open>(10,0)\<close>.
\<close>

theorem getZoomMatrix_scenario:
  "getZoomMatrix \<lparr>one = \<lparr>p_x = 0, p_y = 0\<rparr>, two = \<lparr>p_x = 10, p_y = 0\<rparr>,
                  newOne = \<lparr>p_x = 0, p_y = 0\<rparr>, newTwo = \<lparr>p_x = 20, p_y = 0\<rparr>\<rparr>
     = Some (DOMMatrix 2 0 0 2 0 0)
   \<and> getDistance (transformPoint (DOMMatrix 2 0 0 2 0 0) \<lparr>p_x = 0, p_y = 0\<rparr>)
                 (transformPoint (DOMMatrix 2 0 0 2 0 0) \<lparr>p_x = 10, p_y = 0\<rparr>)
     = 2 * getDistance \<lparr>p_x = 0, p_y = 0\<rparr> \<lparr>p_x = 10, p_y = 0\<rparr>
   \<and> transformPoint (DOMMatrix 2 0 0 2 0 0) \<lparr>p_x = 5, p_y = 0\<rparr> = \<lparr>p_x = 10, p_y = 0\<rparr>"
  by (simp add: getZoomMatrix_def getDistance_def js_div_def transformPoint_def)

text \<open>
  C7, as the specification words it: the result is not \<open>[2, 0, 0, 2, -5, 0]\<close>.
\<close>

theorem getZoomMatrix_scenario_counterexample:
  "getZoomMatrix \<lparr>one = \<lparr>p_x = 0, p_y = 0\<rparr>, two = \<lparr>p_x = 10, p_y = 0\<rparr>,
                  newOne = \<lparr>p_x = 0, p_y = 0\<rparr>, newTwo = \<lparr>p_x = 20, p_y = 0\<rparr>\<rparr>
     \<noteq> Some (DOMMatrix 2 0 0 2 (- 5) 0)"
  by (simp add: getZoomMatrix_def getDistance_def js_div_def)

subsection \<open>Finite and non-finite entries\<close>

lemma fl_Fin: "\<bar>r\<bar> < overflow_threshold \<Longrightarrow> fl r = Fin r"
  by (auto simp: fl_def)

lemma overflow_threshold_pos: "0 < overflow_threshold"
  by (simp add: overflow_threshold_def)

lemma fl_cases: "fl r = PosInf \<or> fl r = NegInf \<or> fl r = Fin r"
  by (simp add: fl_def)

lemma overflow_threshold_gt: "2 ^ 400 < overflow_threshold"
  by (simp add: overflow_threshold_def)

lemma small_fl: "\<bar>r\<bar> \<le> 2 ^ 400 \<Longrightarrow> fl r = Fin r"
  using overflow_threshold_gt by (intro fl_Fin) linarith

lemma fl_le: "\<bar>r\<bar> \<le> c \<Longrightarrow> c < overflow_threshold \<Longrightarrow> fl r = Fin r"
  by (rule fl_Fin) linarith

lemma abs_mult_le:
  fixes a b :: real
  shows "\<bar>a\<bar> \<le> A \<Longrightarrow> \<bar>b\<bar> \<le> C \<Longrightarrow> \<bar>a * b\<bar> \<le> A * C"
  by (simp add: abs_mult mult_mono)

lemma getDistance_le:
  assumes "\<bar>p_x a\<bar> \<le> B" "\<bar>p_y a\<bar> \<le> B" "\<bar>p_x b\<bar> \<le> B" "\<bar>p_y b\<bar> \<le> B"
  shows "getDistance a b \<le> 4 * B"
proof -
  have "getDistance a b \<le> \<bar>p_x a - p_x b\<bar> + \<bar>p_y a - p_y b\<bar>"
    unfolding getDistance_def hypot_def
    using sqrt_sum_squares_le_sum_abs[of "p_x a - p_x b" "p_y a - p_y b"]
    by (simp add: power2_eq_square)
  with assms show ?thesis by linarith
qed

lemma getDistance_fp_Fin:
  assumes "\<bar>p_x a\<bar> \<le> 2 ^ 100" "\<bar>p_y a\<bar> \<le> 2 ^ 100" "\<bar>p_x b\<bar> \<le> 2 ^ 100" "\<bar>p_y b\<bar> \<le> 2 ^ 100"
  shows "getDistance_fp a b = Fin (getDistance a b)"
proof -
  have "\<bar>p_x a - p_x b\<bar> \<le> 2 ^ 400" "\<bar>p_y a - p_y b\<bar> \<le> 2 ^ 400"
    using assms by simp_all
  then have 1: "fl (p_x a - p_x b) = Fin (p_x a - p_x b)" "fl (p_y a - p_y b) = Fin (p_y a - p_y b)"
    by (simp_all add: small_fl)
  have "\<bar>getDistance a b\<bar> \<le> 2 ^ 400"
    using getDistance_le[OF assms] getDistance_nonneg[of a b] by simp
  then have 2: "fl (getDistance a b) = Fin (getDistance a b)"
    by (rule small_fl)
  show ?thesis
    using 1 2 by (simp add: getDistance_fp_def n_sub_def getDistance_def)
qed

lemma half_sum_Fin:
  assumes "\<bar>a\<bar> \<le> 2 ^ 100" "\<bar>b\<bar> \<le> 2 ^ 100"
  shows "n_div (n_add (Fin a) (Fin b)) (Fin 2) = Fin ((a + b) / 2)"
    and "\<bar>(a + b) / 2\<bar> \<le> 2 ^ 100"
proof -
  show h: "\<bar>(a + b) / 2\<bar> \<le> 2 ^ 100" using assms by simp
  have "\<bar>a + b\<bar> \<le> 2 ^ 400" using assms by simp
  then have "fl (a + b) = Fin (a + b)" by (rule small_fl)
  moreover have "fl ((a + b) / 2) = Fin ((a + b) / 2)"
    using h by (intro small_fl) simp
  ultimately show "n_div (n_add (Fin a) (Fin b)) (Fin 2) = Fin ((a + b) / 2)"
    by simp
qed

lemma quotient_in_range:
  assumes r: "in_range p"
  shows "n_div (getDistance_fp (newOne p) (newTwo p)) (getDistance_fp (one p) (two p))
           = Fin (getDistance (newOne p) (newTwo p) / getDistance (one p) (two p))"
    and "\<bar>getDistance (newOne p) (newTwo p) / getDistance (one p) (two p)\<bar> \<le> 2 ^ 202"
    and "getDistance (one p) (two p) \<noteq> 0"
proof -
  let ?n = "getDistance (newOne p) (newTwo p)" and ?o = "getDistance (one p) (two p)"
  have o: "1 / 2 ^ 100 \<le> ?o" using r by (simp add: in_range_def)
  then have pos: "0 < ?o"
    by (smt (verit) zero_less_divide_1_iff zero_less_power)
  then show "?o \<noteq> 0" by simp
  have n: "0 \<le> ?n" "?n \<le> 4 * 2 ^ 100"
    using r getDistance_le[of "newOne p" "2 ^ 100" "newTwo p"]
    by (simp_all add: in_range_def getDistance_nonneg)
  have "?n / ?o \<le> (4 * 2 ^ 100) / (1 / 2 ^ 100)"
    using n o pos by (intro frac_le) simp_all
  then have "?n / ?o \<le> 2 ^ 202" by simp
  moreover have "0 \<le> ?n / ?o" using n pos by simp
  ultimately show q: "\<bar>?n / ?o\<bar> \<le> 2 ^ 202" by simp
  then have "fl (?n / ?o) = Fin (?n / ?o)"
    by (intro small_fl) simp
  then show "n_div (getDistance_fp (newOne p) (newTwo p)) (getDistance_fp (one p) (two p))
           = Fin (?n / ?o)"
    using r pos by (simp add: in_range_def getDistance_fp_Fin)
qed

lemma coords_in_range:
  assumes "in_range p"
  shows "\<bar>p_x (one p)\<bar> \<le> 2 ^ 100" "\<bar>p_y (one p)\<bar> \<le> 2 ^ 100"
        "\<bar>p_x (two p)\<bar> \<le> 2 ^ 100" "\<bar>p_y (two p)\<bar> \<le> 2 ^ 100"
        "\<bar>p_x (newOne p)\<bar> \<le> 2 ^ 100" "\<bar>p_y (newOne p)\<bar> \<le> 2 ^ 100"
        "\<bar>p_x (newTwo p)\<bar> \<le> 2 ^ 100" "\<bar>p_y (newTwo p)\<bar> \<le> 2 ^ 100"
  using assms by (simp_all add: in_range_def)

lemma n_mul_Fin: "\<bar>a\<bar> \<le> 2 ^ 302 \<Longrightarrow> \<bar>b\<bar> \<le> 2 ^ 98 \<Longrightarrow> n_mul (Fin a) (Fin b) = Fin (a * b)"
proof -
  assume "\<bar>a\<bar> \<le> 2 ^ 302" "\<bar>b\<bar> \<le> 2 ^ 98"
  then have "\<bar>a * b\<bar> \<le> 2 ^ 302 * 2 ^ 98"
    by (rule abs_mult_le)
  then have "\<bar>a * b\<bar> \<le> 2 ^ 400" by simp
  then show ?thesis by (simp add: small_fl)
qed

lemma n_add_Fin: "\<bar>a\<bar> \<le> 2 ^ 399 \<Longrightarrow> \<bar>b\<bar> \<le> 2 ^ 399 \<Longrightarrow> n_add (Fin a) (Fin b) = Fin (a + b)"
  by (simp add: small_fl)

lemma n_sub_Fin: "\<bar>a\<bar> \<le> 2 ^ 399 \<Longrightarrow> \<bar>b\<bar> \<le> 2 ^ 399 \<Longrightarrow> n_sub (Fin a) (Fin b) = Fin (a - b)"
  by (simp add: n_sub_def small_fl)

text \<open>
  Inside the range the arrays hold the entries of the matrices of the exact model.
\<close>

lemma getZoomMatrix_fp_in_range:
  assumes r: "in_range p"
  shows "\<exists>m. getZoomMatrix p = Some m \<and> getZoomMatrix_fp p = map Fin (entries m)"
proof -
  define d where "d = getDistance (newOne p) (newTwo p) / getDistance (one p) (two p)"
  define cx cy mx my where "cx = (p_x (newOne p) + p_x (newTwo p)) / 2"
    and "cy = (p_y (newOne p) + p_y (newTwo p)) / 2"
    and "mx = (p_x (one p) + p_x (two p)) / 2" and "my = (p_y (one p) + p_y (two p)) / 2"
  note q = quotient_in_range[OF r, folded d_def]
  note b = coords_in_range[OF r]
  note c = half_sum_Fin[OF b(5) b(7), folded cx_def] half_sum_Fin[OF b(6) b(8), folded cy_def]
  note m = half_sum_Fin[OF b(1) b(3), folded mx_def] half_sum_Fin[OF b(2) b(4), folded my_def]
  have px: "\<bar>d * mx\<bar> \<le> 2 ^ 202 * 2 ^ 100" and py: "\<bar>d * my\<bar> \<le> 2 ^ 202 * 2 ^ 100"
    by (rule abs_mult_le[OF q(2) m(2)], rule abs_mult_le[OF q(2) m(4)])
  have 1: "n_mul (Fin d) (Fin mx) = Fin (d * mx)" "n_mul (Fin d) (Fin my) = Fin (d * my)"
    by (simp_all add: fl_le[OF px] fl_le[OF py] overflow_threshold_def)
  have "\<bar>cx - d * mx\<bar> \<le> 2 ^ 100 + 2 ^ 202 * 2 ^ 100" "\<bar>cy - d * my\<bar> \<le> 2 ^ 100 + 2 ^ 202 * 2 ^ 100"
    using px py c(2,4) by linarith+
  then have 2: "n_sub (Fin cx) (Fin (d * mx)) = Fin (cx - d * mx)"
          "n_sub (Fin cy) (Fin (d * my)) = Fin (cy - d * my)"
    by (simp_all add: n_sub_def fl_le overflow_threshold_def)
  have "getZoomMatrix_fp p = [Fin d, Fin 0, Fin 0, Fin d, Fin (cx - d * mx), Fin (cy - d * my)]"
    unfolding getZoomMatrix_fp_def Let_def q(1) c(1,3) m(1,3) 1 2 ..
  moreover have "getZoomMatrix p = Some (DOMMatrix d 0 0 d (cx - d * mx) (cy - d * my))"
    using q(3) by (simp add: getZoomMatrix_def js_div_def Let_def d_def cx_def cy_def mx_def my_def)
  ultimately show ?thesis by (simp add: entries_def)
qed

lemma n_atan2_diff_Fin:
  assumes "\<bar>a\<bar> \<le> 2 ^ 100" "\<bar>b\<bar> \<le> 2 ^ 100" "\<bar>a'\<bar> \<le> 2 ^ 100" "\<bar>b'\<bar> \<le> 2 ^ 100"
  shows "n_atan2 (n_sub (Fin b') (Fin b)) (n_sub (Fin a') (Fin a)) = Fin (atan2 (b' - b) (a' - a))"
proof -
  have "\<bar>b' - b\<bar> \<le> 2 ^ 400" "\<bar>a' - a\<bar> \<le> 2 ^ 400"
    using assms by simp_all
  then show ?thesis
    by (simp add: n_sub_def small_fl)
qed

lemma angle_diff_Fin: "n_sub (Fin (atan2 v' u')) (Fin (atan2 v u)) = Fin (atan2 v' u' - atan2 v u)"
proof -
  have "\<bar>atan2 v' u' - atan2 v u\<bar> \<le> 8"
    using atan2_bounds[of v' u'] atan2_bounds[of v u] pi_less_4 by linarith
  then show ?thesis
    by (simp add: n_sub_def fl_le overflow_threshold_def)
qed

lemma getMatrix_fp_in_range:
  assumes r: "in_range p"
  shows "\<exists>m. getMatrix p = Some m \<and> getMatrix_fp p = map Fin (entries m)"
proof -
  define d where "d = getDistance (newOne p) (newTwo p) / getDistance (one p) (two p)"
  define cx cy mx my where "cx = (p_x (newOne p) + p_x (newTwo p)) / 2"
    and "cy = (p_y (newOne p) + p_y (newTwo p)) / 2"
    and "mx = (p_x (one p) + p_x (two p)) / 2" and "my = (p_y (one p) + p_y (two p)) / 2"
  define t where "t = atan2 (p_y (newTwo p) - p_y (newOne p)) (p_x (newTwo p) - p_x (newOne p))
                      - atan2 (p_y (two p) - p_y (one p)) (p_x (two p) - p_x (one p))"
  define c s where "c = cos t" and "s = sin t"
  note q = quotient_in_range[OF r, folded d_def]
  note b = coords_in_range[OF r]
  note h = half_sum_Fin[OF b(5) b(7), folded cx_def] half_sum_Fin[OF b(6) b(8), folded cy_def]
  note m = half_sum_Fin[OF b(1) b(3), folded mx_def] half_sum_Fin[OF b(2) b(4), folded my_def]
  note a = n_atan2_diff_Fin[OF b(1) b(2) b(3) b(4)] n_atan2_diff_Fin[OF b(5) b(6) b(7) b(8)]
  have cs: "\<bar>c\<bar> \<le> 1" "\<bar>s\<bar> \<le> 1"
    by (simp_all add: c_def s_def)
  have trig: "n_cos (Fin t) = Fin c" "n_sin (Fin t) = Fin s"
    by (simp_all add: c_def s_def)
  have dc: "\<bar>d * c\<bar> \<le> 2 ^ 202 * 1" and ds: "\<bar>d * s\<bar> \<le> 2 ^ 202 * 1"
    and nds: "\<bar>- (d * s)\<bar> \<le> 2 ^ 202 * 1"
    using abs_mult_le[OF q(2) cs(1)] abs_mult_le[OF q(2) cs(2)] by simp_all
  have px: "\<bar>d * mx\<bar> \<le> 2 ^ 202 * 2 ^ 100" and py: "\<bar>d * my\<bar> \<le> 2 ^ 202 * 2 ^ 100"
    by (rule abs_mult_le[OF q(2) m(2)], rule abs_mult_le[OF q(2) m(4)])
  have pxc: "\<bar>d * mx * c\<bar> \<le> 2 ^ 202 * 2 ^ 100 * 1" and pxs: "\<bar>d * mx * s\<bar> \<le> 2 ^ 202 * 2 ^ 100 * 1"
    and pyc: "\<bar>d * my * c\<bar> \<le> 2 ^ 202 * 2 ^ 100 * 1" and pys: "\<bar>d * my * s\<bar> \<le> 2 ^ 202 * 2 ^ 100 * 1"
    by (rule abs_mult_le[OF px cs(1)], rule abs_mult_le[OF px cs(2)],
        rule abs_mult_le[OF py cs(1)], rule abs_mult_le[OF py cs(2)])
  have 1: "n_mul (Fin d) (Fin c) = Fin (d * c)" "n_mul (Fin d) (Fin s) = Fin (d * s)"
          "n_mul (n_neg (Fin d)) (Fin s) = Fin (- d * s)"
          "n_mul (Fin d) (Fin mx) = Fin (d * mx)" "n_mul (Fin d) (Fin my) = Fin (d * my)"
    by (simp_all add: fl_le[OF dc] fl_le[OF ds] fl_le[OF nds] fl_le[OF px] fl_le[OF py]
          overflow_threshold_def)
  have 2: "n_mul (Fin (d * mx)) (Fin c) = Fin (d * mx * c)"
          "n_mul (Fin (d * mx)) (Fin s) = Fin (d * mx * s)"
          "n_mul (Fin (d * my)) (Fin c) = Fin (d * my * c)"
          "n_mul (Fin (d * my)) (Fin s) = Fin (d * my * s)"
    by (simp_all add: fl_le[OF pxc] fl_le[OF pxs] fl_le[OF pyc] fl_le[OF pys] overflow_threshold_def)
  have "\<bar>cx - d * mx * c\<bar> \<le> 2 ^ 100 + 2 ^ 202 * 2 ^ 100 * 1"
       "\<bar>cy - d * my * c\<bar> \<le> 2 ^ 100 + 2 ^ 202 * 2 ^ 100 * 1"
    using pxc pyc h(2,4) by linarith+
  then have 3: "n_sub (Fin cx) (Fin (d * mx * c)) = Fin (cx - d * mx * c)"
               "n_sub (Fin cy) (Fin (d * my * c)) = Fin (cy - d * my * c)"
    by (simp_all add: n_sub_def fl_le overflow_threshold_def)
  have "\<bar>cx - d * mx * c + d * my * s\<bar> \<le> 2 ^ 100 + 2 ^ 202 * 2 ^ 100 * 1 + 2 ^ 202 * 2 ^ 100 * 1"
       "\<bar>cy - d * my * c - d * mx * s\<bar> \<le> 2 ^ 100 + 2 ^ 202 * 2 ^ 100 * 1 + 2 ^ 202 * 2 ^ 100 * 1"
    using pxc pyc pxs pys h(2,4) by linarith+
  then have 4: "n_add (Fin (cx - d * mx * c)) (Fin (d * my * s)) = Fin (cx - d * mx * c + d * my * s)"
               "n_sub (Fin (cy - d * my * c)) (Fin (d * mx * s)) = Fin (cy - d * my * c - d * mx * s)"
    by (simp_all add: n_sub_def fl_le overflow_threshold_def)
  have "getMatrix_fp p = [Fin (d * c), Fin (d * s), Fin (- d * s), Fin (d * c),
                          Fin (cx - d * mx * c + d * my * s), Fin (cy - d * my * c - d * mx * s)]"
    unfolding getMatrix_fp_def Let_def q(1) h(1,3) m(1,3) a angle_diff_Fin
      t_def[symmetric] trig 1 2 3 4 ..
  moreover have "getMatrix p = Some (DOMMatrix (d * c) (d * s) (- d * s) (d * c)
                          (cx - d * mx * c + d * my * s) (cy - d * my * c - d * mx * s))"
    using q(3) unfolding getMatrix_def js_div_def Let_def d_def cx_def cy_def mx_def my_def
      c_def s_def t_def by simp
  ultimately show ?thesis by (simp add: entries_def)
qed

lemma n_hypot_cases: "n_hypot u v = NaN \<or> n_hypot u v = PosInf \<or> (\<exists>r\<ge>0. n_hypot u v = Fin r)"
proof (cases u; cases v)
  fix a b
  assume "u = Fin a" "v = Fin b"
  then show ?thesis
    using hypot_nonneg[of a b] overflow_threshold_pos by (auto simp: fl_def)
qed simp_all

lemma getDistance_fp_cases:
  "getDistance_fp a b = PosInf \<or> (\<exists>r\<ge>0. getDistance_fp a b = Fin r)"
proof -
  have "n_hypot u v \<noteq> NaN" if "u \<noteq> NaN" "v \<noteq> NaN" for u v
    using that by (cases u; cases v) (simp_all add: fl_def)
  moreover have "n_sub (Fin c) (Fin e) \<noteq> NaN" for c e
    by (simp add: n_sub_def fl_def)
  ultimately have "getDistance_fp a b \<noteq> NaN"
    unfolding getDistance_fp_def by blast
  then show ?thesis
    using n_hypot_cases unfolding getDistance_fp_def by blast
qed

text \<open>The distance is \<open>0\<close> only between a point and itself.\<close>

lemma getDistance_fp_zero_iff: "getDistance_fp a b = Fin 0 \<longleftrightarrow> a = b"
proof
  assume z: "getDistance_fp a b = Fin 0"
  have f: "fl r = Fin t \<Longrightarrow> t = r" for r t
    by (simp add: fl_def split: if_splits)
  from z obtain u v where uv: "fl (p_x a - p_x b) = Fin u" "fl (p_y a - p_y b) = Fin v"
    and h: "fl (hypot u v) = Fin 0"
    unfolding getDistance_fp_def n_sub_def
    by (cases "fl (p_x a - p_x b)"; cases "fl (p_y a - p_y b)") simp_all
  from f[OF h] have "u = 0 \<and> v = 0"
    by (simp add: hypot_eq_0_iff)
  with f[OF uv(1)] f[OF uv(2)] show "a = b"
    by (simp add: Point.equality)
next
  assume "a = b"
  then show "getDistance_fp a b = Fin 0"
    by (simp add: getDistance_fp_def n_sub_def fl_def overflow_threshold_def)
qed

lemma quotient_by_zero:
  assumes "getDistance_fp (one p) (two p) = Fin 0"
  shows "n_div (getDistance_fp (newOne p) (newTwo p)) (getDistance_fp (one p) (two p)) = NaN
       \<or> n_div (getDistance_fp (newOne p) (newTwo p)) (getDistance_fp (one p) (two p)) = PosInf"
  using getDistance_fp_cases[of "newOne p" "newTwo p"] unfolding assms
  by (auto simp: inf_of_sign_def split: if_splits)

lemma n_mul_not_finite: "\<not> is_finite u \<Longrightarrow> \<not> is_finite (n_mul u v)"
  by (cases u; cases v) (simp_all add: inf_of_sign_def)

text \<open>
  C4, as the code has it.  When the distance of the two start points is \<open>0\<close>, the
  quotient \<open>d\<close> is \<^verbatim>\<open>NaN\<close> or \<^verbatim>\<open>Infinity\<close>, and the arrays of both
  \<^verbatim>\<open>getZoomMatrix\<close> and \<^verbatim>\<open>getMatrix\<close> have an entry that is not finite.  When
  every coordinate is at most \<^verbatim>\<open>2^100\<close> in absolute value and the start points are at
  least \<^verbatim>\<open>2^-100\<close> apart, no operation overflows and all entries of both are finite.
\<close>

theorem finite_entries:
  "(getDistance_fp (one p) (two p) = Fin 0 \<longrightarrow>
      \<not> all_finite (getZoomMatrix_fp p) \<and> \<not> all_finite (getMatrix_fp p))
   \<and> (in_range p \<longrightarrow> all_finite (getZoomMatrix_fp p) \<and> all_finite (getMatrix_fp p))"
proof (intro conjI impI)
  assume z: "getDistance_fp (one p) (two p) = Fin 0"
  from quotient_by_zero[OF z]
  have d: "\<not> is_finite (n_div (getDistance_fp (newOne p) (newTwo p)) (getDistance_fp (one p) (two p)))"
    by auto
  then show "\<not> all_finite (getZoomMatrix_fp p)"
    by (simp add: all_finite_def getZoomMatrix_fp_def Let_def)
  from n_mul_not_finite[OF d] show "\<not> all_finite (getMatrix_fp p)"
    by (simp add: all_finite_def getMatrix_fp_def Let_def)
next
  assume r: "in_range p"
  from getZoomMatrix_fp_in_range[OF r] show "all_finite (getZoomMatrix_fp p)"
    by (auto simp: all_finite_def entries_def)
  from getMatrix_fp_in_range[OF r] show "all_finite (getMatrix_fp p)"
    by (auto simp: all_finite_def entries_def)
qed

text \<open>
  C4, as the specification words it, for all finite points with a positive distance:
  with \<^verbatim>\<open>two = (2^-600, 0)\<close> and \<^verbatim>\<open>newTwo = (2^600, 0)\<close> the distance of the start
  points is positive and the quotient \<^verbatim>\<open>2^1200\<close> overflows, so that \<open>d\<close> is
  \<^verbatim>\<open>Infinity\<close>.
\<close>

theorem finite_entries_counterexample:
  "getDistance_fp \<lparr>p_x = 0, p_y = 0\<rparr> \<lparr>p_x = 1 / 2 ^ 600, p_y = 0\<rparr> = Fin (1 / 2 ^ 600)
   \<and> getZoomMatrix_fp \<lparr>one = \<lparr>p_x = 0, p_y = 0\<rparr>, two = \<lparr>p_x = 1 / 2 ^ 600, p_y = 0\<rparr>,
                        newOne = \<lparr>p_x = 0, p_y = 0\<rparr>, newTwo = \<lparr>p_x = 2 ^ 600, p_y = 0\<rparr>\<rparr>
       = [PosInf, Fin 0, Fin 0, PosInf, NegInf, NaN]
   \<and> getMatrix_fp \<lparr>one = \<lparr>p_x = 0, p_y = 0\<rparr>, two = \<lparr>p_x = 1 / 2 ^ 600, p_y = 0\<rparr>,
                    newOne = \<lparr>p_x = 0, p_y = 0\<rparr>, newTwo = \<lparr>p_x = 2 ^ 600, p_y = 0\<rparr>\<rparr>
       = [PosInf, NaN, NaN, PosInf, NaN, NaN]"
  by (simp add: getDistance_fp_def getZoomMatrix_fp_def getMatrix_fp_def n_sub_def fl_def
        overflow_threshold_def inf_of_sign_def atan2_def)

theorem finite_entries_witness:
  "getDistance_fp \<lparr>p_x = 3, p_y = 4\<rparr> \<lparr>p_x = 3, p_y = 4\<rparr> = Fin 0
   \<and> \<not> all_finite (getZoomMatrix_fp \<lparr>one = \<lparr>p_x = 3, p_y = 4\<rparr>, two = \<lparr>p_x = 3, p_y = 4\<rparr>,
                        newOne = \<lparr>p_x = 0, p_y = 0\<rparr>, newTwo = \<lparr>p_x = 20, p_y = 0\<rparr>\<rparr>)
   \<and> \<not> all_finite (getMatrix_fp \<lparr>one = \<lparr>p_x = 3, p_y = 4\<rparr>, two = \<lparr>p_x = 3, p_y = 4\<rparr>,
                        newOne = \<lparr>p_x = 0, p_y = 0\<rparr>, newTwo = \<lparr>p_x = 20, p_y = 0\<rparr>\<rparr>)
   \<and> in_range \<lparr>one = \<lparr>p_x = 0, p_y = 0\<rparr>, two = \<lparr>p_x = 10, p_y = 0\<rparr>,
                newOne = \<lparr>p_x = 0, p_y = 0\<rparr>, newTwo = \<lparr>p_x = 20, p_y = 0\<rparr>\<rparr>
   \<and> all_finite (getZoomMatrix_fp \<lparr>one = \<lparr>p_x = 0, p_y = 0\<rparr>, two = \<lparr>p_x = 10, p_y = 0\<rparr>,
                newOne = \<lparr>p_x = 0, p_y = 0\<rparr>, newTwo = \<lparr>p_x = 20, p_y = 0\<rparr>\<rparr>)
   \<and> all_finite (getMatrix_fp \<lparr>one = \<lparr>p_x = 0, p_y = 0\<rparr>, two = \<lparr>p_x = 10, p_y = 0\<rparr>,
                newOne = \<lparr>p_x = 0, p_y = 0\<rparr>, newTwo = \<lparr>p_x = 20, p_y = 0\<rparr>\<rparr>)"
proof -
  have z: "getDistance_fp (one \<lparr>one = \<lparr>p_x = 3, p_y = 4\<rparr>, two = \<lparr>p_x = 3, p_y = 4\<rparr>,
                        newOne = \<lparr>p_x = 0, p_y = 0\<rparr>, newTwo = \<lparr>p_x = 20, p_y = 0\<rparr>\<rparr>)
             (two \<lparr>one = \<lparr>p_x = 3, p_y = 4\<rparr>, two = \<lparr>p_x = 3, p_y = 4\<rparr>,
                        newOne = \<lparr>p_x = 0, p_y = 0\<rparr>, newTwo = \<lparr>p_x = 20, p_y = 0\<rparr>\<rparr>) = Fin 0"
    by (simp add: getDistance_fp_def n_sub_def fl_def overflow_threshold_def)
  have r: "in_range \<lparr>one = \<lparr>p_x = 0, p_y = 0\<rparr>, two = \<lparr>p_x = 10, p_y = 0\<rparr>,
                newOne = \<lparr>p_x = 0, p_y = 0\<rparr>, newTwo = \<lparr>p_x = 20, p_y = 0\<rparr>\<rparr>"
    by (simp add: in_range_def getDistance_def)
  show ?thesis
    using z r
      finite_entries[of "\<lparr>one = \<lparr>p_x = 3, p_y = 4\<rparr>, two = \<lparr>p_x = 3, p_y = 4\<rparr>,
                        newOne = \<lparr>p_x = 0, p_y = 0\<rparr>, newTwo = \<lparr>p_x = 20, p_y = 0\<rparr>\<rparr>"]
      finite_entries[of "\<lparr>one = \<lparr>p_x = 0, p_y = 0\<rparr>, two = \<lparr>p_x = 10, p_y = 0\<rparr>,
                newOne = \<lparr>p_x = 0, p_y = 0\<rparr>, newTwo = \<lparr>p_x = 20, p_y = 0\<rparr>\<rparr>"]
    by simp
qed

subsection \<open>The two transforms on the same input\<close>

lemma ops_exact_host:
  "add_on exact_host u v = n_add u v" "sub_on exact_host u v = n_sub u v"
  "mul_on exact_host u v = n_mul u v" "div_on exact_host u v = n_div u v"
  "hypot_on exact_host u v = n_hypot u v" "atan2_on exact_host u v = n_atan2 u v"
  "cos_on exact_host u = n_cos u" "sin_on exact_host u = n_sin u"
  by (cases u; cases v; simp add: add_on_def sub_on_def mul_on_def div_on_def hypot_on_def
        atan2_on_def cos_on_def sin_on_def exact_host_def n_sub_def)+

lemma getDistance_on_exact_host: "getDistance_on exact_host a b = getDistance_fp a b"
  by (simp add: getDistance_on_def getDistance_fp_def ops_exact_host)

lemma getZoomMatrix_on_exact_host: "getZoomMatrix_on exact_host p = getZoomMatrix_fp p"
  unfolding getZoomMatrix_on_def getZoomMatrix_fp_def getDistance_on_exact_host ops_exact_host ..

lemma getMatrix_on_exact_host: "getMatrix_on exact_host p = getMatrix_fp p"
  unfolding getMatrix_on_def getMatrix_fp_def getDistance_on_exact_host ops_exact_host ..

lemma take4_getZoomMatrix_on:
  "take 4 (getZoomMatrix_on H p) = [quotient_on H p, Fin 0, Fin 0, quotient_on H p]"
  by (simp add: getZoomMatrix_on_def quotient_on_def Let_def)

lemma take4_getMatrix_on:
  "take 4 (getMatrix_on H p) =
     [mul_on H (quotient_on H p) (cos_on H (angle_difference_on H p)),
      mul_on H (quotient_on H p) (sin_on H (angle_difference_on H p)),
      mul_on H (n_neg (quotient_on H p)) (sin_on H (angle_difference_on H p)),
      mul_on H (quotient_on H p) (cos_on H (angle_difference_on H p))]"
  by (simp add: getMatrix_on_def quotient_on_def angle_difference_on_def Let_def)

lemma fl_Fin_iff: "fl r = Fin t \<longleftrightarrow> t = r \<and> \<bar>r\<bar> < overflow_threshold"
  by (auto simp: fl_def)

lemma div_on_Fin:
  assumes "keeps_results H" and "div_on H u v = Fin r"
  shows "fl (rnd H r) = Fin r"
proof (cases u; cases v)
  fix a b assume uv: "u = Fin a" "v = Fin b"
  show ?thesis
  proof (cases "b = 0")
    case True
    with assms uv show ?thesis
      by (simp add: div_on_def inf_of_sign_def split: if_splits)
  next
    case False
    with assms(2) uv have "fl (rnd H (a / b)) = Fin r"
      by (simp add: div_on_def)
    then have "r = rnd H (a / b)" "\<bar>rnd H (a / b)\<bar> < overflow_threshold"
      by (simp_all add: fl_Fin_iff)
    with assms(1) show ?thesis
      by (simp add: keeps_results_def fl_Fin_iff)
  qed
next
  fix a assume "u = Fin a" "v = PosInf"
  with assms show ?thesis
    by (simp add: div_on_def keeps_results_def fl_Fin_iff overflow_threshold_pos)
next
  fix a assume "u = Fin a" "v = NegInf"
  with assms show ?thesis
    by (simp add: div_on_def keeps_results_def fl_Fin_iff overflow_threshold_pos)
qed (use assms in \<open>simp_all add: div_on_def inf_of_sign_def split: if_splits\<close>)

text \<open>
  C5, as the code has it.  On a host that keeps its results, when the difference
  \<^verbatim>\<open>newAtan - atan\<close> that \<^verbatim>\<open>getMatrix\<close> computes is \<open>0\<close>, the first four
  entries of the arrays of \<^verbatim>\<open>getMatrix\<close> and \<^verbatim>\<open>getZoomMatrix\<close> are the same
  numbers if and only if the quotient \<open>d\<close> is finite.  (The third entry,
  \<^verbatim>\<open>-d * s\<close>, is then the zero with the minus sign, which is the number \<open>0\<close>.)
\<close>

theorem linear_parts_agree:
  assumes k: "keeps_results H"
    and z: "angle_difference_on H p = Fin 0"
  shows "take 4 (getMatrix_on H p) = take 4 (getZoomMatrix_on H p) \<longleftrightarrow> is_finite (quotient_on H p)"
proof (cases "quotient_on H p")
  case (Fin r)
  from div_on_Fin[OF k] Fin have "fl (rnd H r) = Fin r"
    unfolding quotient_on_def by blast
  moreover have "fl 0 = Fin 0"
    by (simp add: fl_def overflow_threshold_def)
  ultimately show ?thesis
    using k by (simp add: take4_getMatrix_on take4_getZoomMatrix_on z Fin mul_on_def cos_on_def
        sin_on_def keeps_results_def)
qed (use k in \<open>simp_all add: take4_getMatrix_on take4_getZoomMatrix_on z mul_on_def cos_on_def
        sin_on_def keeps_results_def\<close>)

text \<open>
  C5, as the specification words it, for every input with a positive distance of the
  start points: with \<^verbatim>\<open>two = (2^-600, 0)\<close> and \<^verbatim>\<open>newTwo = (2^600, 0)\<close> both
  angles are \<open>0\<close>, every operation before the division is exact, and the quotient
  overflows.  \<^verbatim>\<open>Infinity * 0\<close> is \<^verbatim>\<open>NaN\<close>, so the linear part of
  \<^verbatim>\<open>getMatrix\<close> is not that of \<^verbatim>\<open>getZoomMatrix\<close>.
\<close>

theorem linear_parts_agree_counterexample:
  "getDistance_fp \<lparr>p_x = 0, p_y = 0\<rparr> \<lparr>p_x = 1 / 2 ^ 600, p_y = 0\<rparr> = Fin (1 / 2 ^ 600)
   \<and> angle_difference_fp \<lparr>one = \<lparr>p_x = 0, p_y = 0\<rparr>, two = \<lparr>p_x = 1 / 2 ^ 600, p_y = 0\<rparr>,
                           newOne = \<lparr>p_x = 0, p_y = 0\<rparr>, newTwo = \<lparr>p_x = 2 ^ 600, p_y = 0\<rparr>\<rparr>
       = Fin 0
   \<and> take 4 (getMatrix_fp \<lparr>one = \<lparr>p_x = 0, p_y = 0\<rparr>, two = \<lparr>p_x = 1 / 2 ^ 600, p_y = 0\<rparr>,
                             newOne = \<lparr>p_x = 0, p_y = 0\<rparr>, newTwo = \<lparr>p_x = 2 ^ 600, p_y = 0\<rparr>\<rparr>)
       = [PosInf, NaN, NaN, PosInf]
   \<and> take 4 (getZoomMatrix_fp \<lparr>one = \<lparr>p_x = 0, p_y = 0\<rparr>, two = \<lparr>p_x = 1 / 2 ^ 600, p_y = 0\<rparr>,
                             newOne = \<lparr>p_x = 0, p_y = 0\<rparr>, newTwo = \<lparr>p_x = 2 ^ 600, p_y = 0\<rparr>\<rparr>)
       = [PosInf, Fin 0, Fin 0, PosInf]"
  by (simp add: getDistance_fp_def getZoomMatrix_fp_def getMatrix_fp_def angle_difference_fp_def
        n_sub_def fl_def overflow_threshold_def inf_of_sign_def atan2_def)

theorem linear_parts_agree_witness:
  "keeps_results exact_host
   \<and> angle_difference_on exact_host
         \<lparr>one = \<lparr>p_x = 0, p_y = 0\<rparr>, two = \<lparr>p_x = 1, p_y = 0\<rparr>,
          newOne = \<lparr>p_x = 2, p_y = 3\<rparr>, newTwo = \<lparr>p_x = 5, p_y = 3\<rparr>\<rparr> = Fin 0
   \<and> is_finite (quotient_on exact_host
         \<lparr>one = \<lparr>p_x = 0, p_y = 0\<rparr>, two = \<lparr>p_x = 1, p_y = 0\<rparr>,
          newOne = \<lparr>p_x = 2, p_y = 3\<rparr>, newTwo = \<lparr>p_x = 5, p_y = 3\<rparr>\<rparr>)
   \<and> take 4 (getMatrix_on exact_host
         \<lparr>one = \<lparr>p_x = 0, p_y = 0\<rparr>, two = \<lparr>p_x = 1, p_y = 0\<rparr>,
          newOne = \<lparr>p_x = 2, p_y = 3\<rparr>, newTwo = \<lparr>p_x = 5, p_y = 3\<rparr>\<rparr>)
       = take 4 (getZoomMatrix_on exact_host
         \<lparr>one = \<lparr>p_x = 0, p_y = 0\<rparr>, two = \<lparr>p_x = 1, p_y = 0\<rparr>,
          newOne = \<lparr>p_x = 2, p_y = 3\<rparr>, newTwo = \<lparr>p_x = 5, p_y = 3\<rparr>\<rparr>)"
proof -
  let ?p = "\<lparr>one = \<lparr>p_x = 0, p_y = 0\<rparr>, two = \<lparr>p_x = 1, p_y = 0\<rparr>,
             newOne = \<lparr>p_x = 2, p_y = 3\<rparr>, newTwo = \<lparr>p_x = 5, p_y = 3\<rparr>\<rparr>"
  have k: "keeps_results exact_host"
    by (simp add: keeps_results_def exact_host_def)
  have z: "angle_difference_on exact_host ?p = Fin 0"
    by (simp add: angle_difference_on_def ops_exact_host n_sub_def fl_def overflow_threshold_def
          atan2_def)
  have f: "is_finite (quotient_on exact_host ?p)"
    by (simp add: quotient_on_def getDistance_on_exact_host ops_exact_host getDistance_fp_def
          n_sub_def fl_def overflow_threshold_def)
  from k z f linear_parts_agree[OF k z] show ?thesis
    by blast
qed

subsection \<open>Points that have not moved\<close>





text \<open>
  The same on a host that rounds.  Whenever the distance that the host computes is a
  finite number other than \<open>0\<close> and the two coordinates of the midpoint are finite,
  both arrays are \<open>[1, 0, 0, 1, 0, 0]\<close>: the quotient of a number by itself and the
  products by \<open>1\<close> and by \<open>0\<close> are exact.
\<close>

lemma sub_on_Fin_cases:
  "sub_on H (Fin x) (Fin y) = PosInf \<or> sub_on H (Fin x) (Fin y) = NegInf
   \<or> (\<exists>r. sub_on H (Fin x) (Fin y) = Fin r)"
  using fl_cases[of "rnd H (x - y)"] by (auto simp: sub_on_def add_on_def)

lemma atan2_on_finite:
  assumes "u \<noteq> NaN" "v \<noteq> NaN"
  shows "is_finite (atan2_on H u v)"
  using assms by (cases u; cases v) (simp_all add: atan2_on_def)

lemma unchanged_points_on_host:
  assumes k: "keeps_results H" and one: "rnd H 1 = 1"
    and dist: "getDistance_on H a b = Fin h" "h \<noteq> 0"
    and mid: "is_finite (div_on H (add_on H (Fin (p_x a)) (Fin (p_x b))) (Fin 2))"
      "is_finite (div_on H (add_on H (Fin (p_y a)) (Fin (p_y b))) (Fin 2))"
  shows "getZoomMatrix_on H \<lparr>one = a, two = b, newOne = a, newTwo = b\<rparr>
           = [Fin 1, Fin 0, Fin 0, Fin 1, Fin 0, Fin 0]
       \<and> getMatrix_on H \<lparr>one = a, two = b, newOne = a, newTwo = b\<rparr>
           = [Fin 1, Fin 0, Fin 0, Fin 1, Fin 0, Fin 0]"
proof -
  have z: "rnd H 0 = 0" "math_cos H 0 = 1" "math_sin H 0 = 0"
    using k by (simp_all add: keeps_results_def)
  have f: "fl 0 = Fin 0" "fl 1 = Fin 1"
    by (simp_all add: fl_def overflow_threshold_def)
  from mid obtain mx my where
    mx: "div_on H (add_on H (Fin (p_x a)) (Fin (p_x b))) (Fin 2) = Fin mx"
    and my: "div_on H (add_on H (Fin (p_y a)) (Fin (p_y b))) (Fin 2) = Fin my"
    by (metis is_finite.elims(2))
  note rx = div_on_Fin[OF k mx] and ry = div_on_Fin[OF k my]
  have q: "div_on H (Fin h) (Fin h) = Fin 1"
    using dist(2) by (simp add: div_on_def one f)
  have p: "mul_on H (Fin 1) (Fin mx) = Fin mx" "mul_on H (Fin 1) (Fin my) = Fin my"
    "mul_on H (Fin mx) (Fin 1) = Fin mx" "mul_on H (Fin my) (Fin 1) = Fin my"
    "mul_on H (Fin mx) (Fin 0) = Fin 0" "mul_on H (Fin my) (Fin 0) = Fin 0"
    "mul_on H (Fin 1) (Fin 1) = Fin 1" "mul_on H (Fin 1) (Fin 0) = Fin 0"
    "mul_on H (n_neg (Fin 1)) (Fin 0) = Fin 0"
    by (simp_all add: mul_on_def rx ry one z f)
  have s: "sub_on H (Fin t) (Fin t) = Fin 0" "add_on H (Fin 0) (Fin 0) = Fin 0" for t
    by (simp_all add: sub_on_def add_on_def z f)
  from sub_on_Fin_cases[of H "p_y b" "p_y a"] sub_on_Fin_cases[of H "p_x b" "p_x a"]
  have "sub_on H (Fin (p_y b)) (Fin (p_y a)) \<noteq> NaN" "sub_on H (Fin (p_x b)) (Fin (p_x a)) \<noteq> NaN"
    by auto
  from atan2_on_finite[OF this] obtain t where
    t: "atan2_on H (sub_on H (Fin (p_y b)) (Fin (p_y a))) (sub_on H (Fin (p_x b)) (Fin (p_x a))) = Fin t"
    by (metis is_finite.elims(2))
  have c: "cos_on H (Fin 0) = Fin 1" "sin_on H (Fin 0) = Fin 0"
    by (simp_all add: cos_on_def sin_on_def z)
  have "getZoomMatrix_on H \<lparr>one = a, two = b, newOne = a, newTwo = b\<rparr>
           = [Fin 1, Fin 0, Fin 0, Fin 1, Fin 0, Fin 0]"
    unfolding getZoomMatrix_on_def Let_def MatrixProps.select_convs dist(1) q mx my p s ..
  moreover have "getMatrix_on H \<lparr>one = a, two = b, newOne = a, newTwo = b\<rparr>
           = [Fin 1, Fin 0, Fin 0, Fin 1, Fin 0, Fin 0]"
    unfolding getMatrix_on_def Let_def MatrixProps.select_convs dist(1) q mx my t s c p s ..
  ultimately show ?thesis
    by blast
qed

subsection \<open>Rounding errors\<close>

text \<open>
  What follows bounds the distance between what the host computes and what the formulas
  give, operation by operation, for a host that is accurate to the unit \<open>e\<close>.
\<close>

lemma rnd_error: "accurate e H \<Longrightarrow> \<bar>rnd H r - r\<bar> \<le> e * (\<bar>r\<bar> + 1)"
  by (simp add: accurate_def)

lemma hypot_error: "accurate e H \<Longrightarrow> \<bar>math_hypot H u v - hypot u v\<bar> \<le> e * (hypot u v + 1)"
  by (simp add: accurate_def)

lemma atan2_error: "accurate e H \<Longrightarrow> \<bar>math_atan2 H v u - atan2 v u\<bar> \<le> e * (\<bar>atan2 v u\<bar> + 1)"
  by (simp add: accurate_def)

lemma cos_error: "accurate e H \<Longrightarrow> \<bar>math_cos H t - cos t\<bar> \<le> e * (\<bar>cos t\<bar> + 1)"
  by (simp add: accurate_def)

lemma sin_error: "accurate e H \<Longrightarrow> \<bar>math_sin H t - sin t\<bar> \<le> e * (\<bar>sin t\<bar> + 1)"
  by (simp add: accurate_def)

lemma accurate_nonneg: "accurate e H \<Longrightarrow> 0 \<le> e"
  using rnd_error[of e H 0] by simp

lemma rnd_step:
  assumes acc: "accurate e H" and x: "\<bar>x' - x\<bar> \<le> a * e" "\<bar>x'\<bar> \<le> A"
  shows "\<bar>rnd H x' - x\<bar> \<le> (a + A + 1) * e"
proof -
  have "e * (\<bar>x'\<bar> + 1) \<le> e * (A + 1)"
    using accurate_nonneg[OF acc] x(2) by (intro mult_left_mono) simp_all
  with rnd_error[OF acc, of x'] have "\<bar>rnd H x' - x'\<bar> \<le> (A + 1) * e"
    by (simp add: mult.commute)
  with x(1) show ?thesis
    by (simp add: algebra_simps)
qed

lemma rnd_size:
  assumes acc: "accurate e H" and x: "\<bar>x'\<bar> \<le> A" and e: "(A + 1) * e \<le> 1"
  shows "\<bar>rnd H x'\<bar> \<le> A + 1"
  using rnd_step[OF acc, of x' x' 0 A] x e by simp

lemma mult_step:
  fixes x y x' y' :: real
  assumes x: "\<bar>x' - x\<bar> \<le> a * e" "\<bar>x'\<bar> \<le> X" and y: "\<bar>y' - y\<bar> \<le> b * e" "\<bar>y\<bar> \<le> Y"
  shows "\<bar>x' * y' - x * y\<bar> \<le> (X * b + Y * a) * e"
proof -
  have "x' * y' - x * y = x' * (y' - y) + y * (x' - x)"
    by (simp add: algebra_simps)
  moreover have "\<bar>x' * (y' - y)\<bar> \<le> X * (b * e)"
    unfolding abs_mult using x(2) y(1) by (intro mult_mono) simp_all
  moreover have "\<bar>y * (x' - x)\<bar> \<le> Y * (a * e)"
    unfolding abs_mult using x(1) y(2) by (intro mult_mono) simp_all
  ultimately show ?thesis
    by (simp add: algebra_simps)
qed

lemma mult_size:
  fixes x y :: real
  assumes "\<bar>x\<bar> \<le> X" "\<bar>y\<bar> \<le> Y"
  shows "\<bar>x * y\<bar> \<le> X * Y"
  unfolding abs_mult using assms by (intro mult_mono) simp_all

lemma hypot_cmod: "hypot u v = cmod (Complex u v)"
  by (simp add: hypot_def cmod_def power2_eq_square)

lemma hypot_lipschitz: "\<bar>hypot u' v' - hypot u v\<bar> \<le> \<bar>u' - u\<bar> + \<bar>v' - v\<bar>"
proof -
  have "\<bar>hypot u' v' - hypot u v\<bar> \<le> cmod (Complex u' v' - Complex u v)"
    unfolding hypot_cmod by (rule norm_triangle_ineq3)
  also have "\<dots> \<le> \<bar>u' - u\<bar> + \<bar>v' - v\<bar>"
    using cmod_le[of "Complex u' v' - Complex u v"] by simp
  finally show ?thesis .
qed

lemma hypot_ge_fst: "\<bar>u\<bar> \<le> hypot u v"
  using abs_Re_le_cmod[of "Complex u v"] by (simp add: hypot_cmod)

lemma hypot_ge_snd: "\<bar>v\<bar> \<le> hypot u v"
  using abs_Im_le_cmod[of "Complex u v"] by (simp add: hypot_cmod)

text \<open>The distance as computed, against the distance.\<close>

lemma distance_error:
  assumes acc: "accurate e H" and e: "e \<le> 1 / 2"
  shows "\<bar>math_hypot H (rnd H (p_x a - p_x b)) (rnd H (p_y a - p_y b)) - getDistance a b\<bar>
           \<le> e * (4 * getDistance a b + 4)"
proof -
  define u v where "u = p_x a - p_x b" and "v = p_y a - p_y b"
  define h where "h = hypot u v"
  define g where "g = hypot (rnd H u) (rnd H v)"
  note e0 = accurate_nonneg[OF acc]
  have h0: "0 \<le> h"
    by (simp add: h_def hypot_nonneg)
  have "e * (\<bar>u\<bar> + 1) \<le> e * (h + 1)" "e * (\<bar>v\<bar> + 1) \<le> e * (h + 1)"
    using e0 hypot_ge_fst[of u v] hypot_ge_snd[of v u] by (auto intro!: mult_left_mono simp: h_def)
  with rnd_error[OF acc, of u] rnd_error[OF acc, of v]
  have uv: "\<bar>rnd H u - u\<bar> \<le> e * (h + 1)" "\<bar>rnd H v - v\<bar> \<le> e * (h + 1)"
    by linarith+
  with hypot_lipschitz[of "rnd H u" "rnd H v" u v]
  have g: "\<bar>g - h\<bar> \<le> 2 * (e * (h + 1))"
    by (simp add: g_def h_def)
  have "2 * (e * (h + 1)) \<le> h + 1"
    using mult_right_mono[of "2 * e" 1 "h + 1"] e h0 by simp
  with g have "g + 1 \<le> 2 * h + 2"
    by linarith
  then have "e * (g + 1) \<le> e * (2 * h + 2)"
    using e0 by (intro mult_left_mono)
  with hypot_error[OF acc, of "rnd H u" "rnd H v"]
  have "\<bar>math_hypot H (rnd H u) (rnd H v) - g\<bar> \<le> e * (2 * h + 2)"
    by (simp add: g_def)
  with g have "\<bar>math_hypot H (rnd H u) (rnd H v) - h\<bar> \<le> e * (4 * h + 4)"
    by (simp add: algebra_simps)
  then show ?thesis
    by (simp add: u_def v_def h_def getDistance_def)
qed

text \<open>The quotient of two distances as computed, against the quotient.\<close>

lemma quotient_error:
  fixes e h h' D D' dq :: real
  assumes e: "0 \<le> e" "e \<le> 1 / 64"
    and h: "1 \<le> h" "0 \<le> h'"
    and D: "\<bar>D - h\<bar> \<le> e * (4 * h + 4)" "\<bar>D' - h'\<bar> \<le> e * (4 * h' + 4)"
    and q: "\<bar>dq - D' / D\<bar> \<le> e * (\<bar>D' / D\<bar> + 1)"
  shows "\<bar>dq - h' / h\<bar> \<le> e * (16 * (h' / h) + 7)" and "7 / 8 \<le> D"
proof -
  define d where "d = h' / h"
  have d0: "0 \<le> d"
    using h by (simp add: d_def)
  have dh: "d * h = h'"
    using h by (simp add: d_def)
  have dle: "d \<le> h'"
    using mult_left_mono[OF h(1) d0] dh by simp
  have "e * (4 * h + 4) \<le> e * (8 * h)"
    using e h by (intro mult_left_mono) simp_all
  also have "\<dots> \<le> 1 / 64 * (8 * h)"
    using e h by (intro mult_right_mono) simp_all
  finally have "e * (4 * h + 4) \<le> h / 8"
    by simp
  with D(1) have Dh: "7 / 8 * h \<le> D"
    by linarith
  with h show D1: "7 / 8 \<le> D"
    by linarith
  then have Dpos: "0 < D"
    by linarith
  have "D' / D - d = ((D' - h') - d * (D - h)) / D"
    using Dpos by (simp add: field_simps dh[symmetric])
  then have "\<bar>D' / D - d\<bar> = \<bar>(D' - h') - d * (D - h)\<bar> / D"
    using Dpos by simp
  moreover have "\<bar>(D' - h') - d * (D - h)\<bar> \<le> e * (4 * h' + 4) + d * (e * (4 * h + 4))"
  proof -
    have "\<bar>d * (D - h)\<bar> \<le> d * (e * (4 * h + 4))"
      unfolding abs_mult using d0 D(1) by (intro mult_mono) simp_all
    with D(2) show ?thesis
      by linarith
  qed
  moreover have "e * (4 * h' + 4) + d * (e * (4 * h + 4)) = e * (8 * h' + 4 * d + 4)"
    by (simp add: algebra_simps dh[symmetric])
  moreover have "e * (8 * h' + 4 * d + 4) \<le> e * (14 * d + 5) * D"
  proof -
    have "(14 * d + 5) * (7 / 8 * h) = 49 / 4 * (d * h) + 35 / 8 * h"
      by (simp add: algebra_simps)
    then have "8 * h' + 4 * d + 4 \<le> (14 * d + 5) * (7 / 8 * h)"
      unfolding dh using dle h by linarith
    also have "\<dots> \<le> (14 * d + 5) * D"
      using d0 Dh by (intro mult_left_mono) simp_all
    finally show ?thesis
      using e(1) by (simp add: mult_left_mono mult.assoc)
  qed
  ultimately have "\<bar>D' / D - d\<bar> = \<bar>(D' - h') - d * (D - h)\<bar> / D"
    and "\<bar>(D' - h') - d * (D - h)\<bar> \<le> e * (14 * d + 5) * D"
    by linarith+
  then have qd: "\<bar>D' / D - d\<bar> \<le> e * (14 * d + 5)"
    using Dpos by (simp add: pos_divide_le_eq)
  have "e * (14 * d + 5) \<le> 1 / 64 * (14 * d + 5)"
    using e d0 by (intro mult_right_mono) simp_all
  also have "\<dots> \<le> d + 1"
    using d0 by simp
  finally have "\<bar>D' / D - d\<bar> \<le> d + 1"
    using qd by linarith
  then have "\<bar>D' / D\<bar> + 1 \<le> 2 * d + 2"
    using d0 by linarith
  then have "e * (\<bar>D' / D\<bar> + 1) \<le> e * (2 * d + 2)"
    using e(1) by (intro mult_left_mono)
  with q qd have "\<bar>dq - d\<bar> \<le> e * (14 * d + 5) + e * (2 * d + 2)"
    by linarith
  then show "\<bar>dq - h' / h\<bar> \<le> e * (16 * (h' / h) + 7)"
    by (simp add: d_def algebra_simps)
qed


text \<open>The operations of the host on finite numbers, when the result is in range.\<close>

lemma fl_small: "\<bar>r\<bar> \<le> 2 ^ 64 \<Longrightarrow> fl r = Fin r"
  by (rule small_fl) simp

lemma add_on_Fin: "\<bar>rnd H (a + b)\<bar> \<le> 2 ^ 64 \<Longrightarrow> add_on H (Fin a) (Fin b) = Fin (rnd H (a + b))"
  by (simp add: add_on_def fl_small)

lemma sub_on_Fin: "\<bar>rnd H (a - b)\<bar> \<le> 2 ^ 64 \<Longrightarrow> sub_on H (Fin a) (Fin b) = Fin (rnd H (a - b))"
  by (simp add: sub_on_def add_on_def fl_small)

lemma mul_on_Fin: "\<bar>rnd H (a * b)\<bar> \<le> 2 ^ 64 \<Longrightarrow> mul_on H (Fin a) (Fin b) = Fin (rnd H (a * b))"
  by (simp add: mul_on_def fl_small)

lemma div_on_Fin_Fin:
  "b \<noteq> 0 \<Longrightarrow> \<bar>rnd H (a / b)\<bar> \<le> 2 ^ 64 \<Longrightarrow> div_on H (Fin a) (Fin b) = Fin (rnd H (a / b))"
  by (simp add: div_on_def fl_small)

lemma hypot_on_Fin:
  "\<bar>math_hypot H a b\<bar> \<le> 2 ^ 64 \<Longrightarrow> hypot_on H (Fin a) (Fin b) = Fin (math_hypot H a b)"
  by (simp add: hypot_on_def fl_small)

lemma half_step:
  fixes x x' :: real
  assumes "\<bar>x' - x\<bar> \<le> a"
  shows "\<bar>x' / 2 - x / 2\<bar> \<le> a / 2"
proof -
  have "\<bar>x' / 2 - x / 2\<bar> = \<bar>x' - x\<bar> / 2"
    by (simp add: diff_divide_distrib[symmetric])
  with assms show ?thesis
    by linarith
qed

text \<open>Half the sum of two coordinates, \<^verbatim>\<open>(x + y) / 2\<close>.\<close>

lemma half_sum_error:
  assumes acc: "accurate e H" and e: "e \<le> 1 / 2 ^ 44"
    and x: "\<bar>x\<bar> \<le> 2 ^ 16" and y: "\<bar>y\<bar> \<le> 2 ^ 16"
  shows "\<bar>rnd H (rnd H (x + y) / 2) - (x + y) / 2\<bar> \<le> 131075 * e"
    and "\<bar>rnd H (rnd H (x + y) / 2)\<bar> \<le> 65538"
    and "\<bar>rnd H (x + y)\<bar> \<le> 131073"
proof -
  note e0 = accurate_nonneg[OF acc]
  have s: "\<bar>(x + y) - (x + y)\<bar> \<le> 0 * e" "\<bar>x + y\<bar> \<le> 131072"
    using x y by simp_all
  from rnd_step[OF acc s] have 1: "\<bar>rnd H (x + y) - (x + y)\<bar> \<le> 131073 * e"
    by simp
  from rnd_size[OF acc s(2)] e e0 show 2: "\<bar>rnd H (x + y)\<bar> \<le> 131073"
    by simp
  from half_step[OF 1] e0 have 3: "\<bar>rnd H (x + y) / 2 - (x + y) / 2\<bar> \<le> 65537 * e"
    by linarith
  from 2 have 4: "\<bar>rnd H (x + y) / 2\<bar> \<le> 65537"
    by simp
  from rnd_step[OF acc 3 4] show "\<bar>rnd H (rnd H (x + y) / 2) - (x + y) / 2\<bar> \<le> 131075 * e"
    by simp
  from rnd_size[OF acc 4] e e0 show "\<bar>rnd H (rnd H (x + y) / 2)\<bar> \<le> 65538"
    by simp
qed

text \<open>A translation of \<^verbatim>\<open>getZoomMatrix\<close>, \<^verbatim>\<open>cx - d * mx\<close>.\<close>

lemma zoom_translation_error:
  assumes acc: "accurate e H" and e: "e \<le> 1 / 2 ^ 44"
    and d: "\<bar>dq - d\<bar> \<le> 4194311 * e" "\<bar>dq\<bar> \<le> 262145"
    and m: "\<bar>mh - m\<bar> \<le> 131075 * e" "\<bar>m\<bar> \<le> 65536" "\<bar>mh\<bar> \<le> 65538"
    and c: "\<bar>ch - c\<bar> \<le> 131075 * e" "\<bar>ch\<bar> \<le> 65538"
  shows "\<bar>rnd H (ch - rnd H (dq * mh)) - (c - d * m)\<bar> \<le> 343600136207 * e"
    and "\<bar>rnd H (dq * mh)\<bar> \<le> 17180459011"
    and "\<bar>rnd H (ch - rnd H (dq * mh))\<bar> \<le> 17180524550"
proof -
  note e0 = accurate_nonneg[OF acc]
  from mult_step[OF d m(1,2)] have 1: "\<bar>dq * mh - d * m\<bar> \<le> 309239021571 * e"
    by simp
  from mult_size[OF d(2) m(3)] have 2: "\<bar>dq * mh\<bar> \<le> 17180459010"
    by simp
  from rnd_step[OF acc 1 2] have 3: "\<bar>rnd H (dq * mh) - d * m\<bar> \<le> 326419480582 * e"
    by simp
  from rnd_size[OF acc 2] e e0 show 4: "\<bar>rnd H (dq * mh)\<bar> \<le> 17180459011"
    by simp
  from 3 c(1) have 5: "\<bar>(ch - rnd H (dq * mh)) - (c - d * m)\<bar> \<le> 326419611657 * e"
    by linarith
  from 4 c(2) have 6: "\<bar>ch - rnd H (dq * mh)\<bar> \<le> 17180524549"
    by linarith
  from rnd_step[OF acc 5 6] show "\<bar>rnd H (ch - rnd H (dq * mh)) - (c - d * m)\<bar> \<le> 343600136207 * e"
    by simp
  from rnd_size[OF acc 6] e e0 show "\<bar>rnd H (ch - rnd H (dq * mh))\<bar> \<le> 17180524550"
    by simp
qed


lemma small_product:
  fixes e t :: real
  assumes "0 \<le> e" "e \<le> 1 / 2 ^ 44" "\<bar>t\<bar> \<le> 2 ^ 44"
  shows "e * \<bar>t\<bar> \<le> 1"
proof -
  have "e * \<bar>t\<bar> \<le> 1 / 2 ^ 44 * 2 ^ 44"
    using assms by (intro mult_mono) simp_all
  then show ?thesis
    by simp
qed

text \<open>The distance of two points of the page, on the host.\<close>

lemma getDistance_on_page:
  assumes acc: "accurate e H" and e: "e \<le> 1 / 2 ^ 44"
    and a: "\<bar>p_x a\<bar> \<le> 2 ^ 16" "\<bar>p_y a\<bar> \<le> 2 ^ 16"
    and b: "\<bar>p_x b\<bar> \<le> 2 ^ 16" "\<bar>p_y b\<bar> \<le> 2 ^ 16"
  shows "getDistance_on H a b = Fin (distance_value H a b)"
    and "\<bar>distance_value H a b - getDistance a b\<bar> \<le> e * (4 * getDistance a b + 4)"
    and "getDistance a b \<le> 262144"
proof -
  note e0 = accurate_nonneg[OF acc]
  have e2: "e \<le> 1 / 2"
    using e by simp
  show err: "\<bar>distance_value H a b - getDistance a b\<bar> \<le> e * (4 * getDistance a b + 4)"
    unfolding distance_value_def by (rule distance_error[OF acc e2])
  from getDistance_le[OF a b] show h: "getDistance a b \<le> 262144"
    by simp
  have "e * \<bar>4 * getDistance a b + 4\<bar> \<le> 1"
    using h getDistance_nonneg[of a b] by (intro small_product[OF e0 e]) simp
  with err h getDistance_nonneg[of a b] have D: "\<bar>distance_value H a b\<bar> \<le> 2 ^ 64"
    by simp
  have "\<bar>p_x a - p_x b\<bar> \<le> 131072" "\<bar>p_y a - p_y b\<bar> \<le> 131072"
    using a b by simp_all
  from rnd_size[OF acc this(1)] rnd_size[OF acc this(2)] e e0
  have "\<bar>rnd H (p_x a - p_x b)\<bar> \<le> 2 ^ 64" "\<bar>rnd H (p_y a - p_y b)\<bar> \<le> 2 ^ 64"
    by simp_all
  then show "getDistance_on H a b = Fin (distance_value H a b)"
    using D by (simp add: getDistance_on_def sub_on_Fin hypot_on_Fin distance_value_def)
qed

text \<open>The quotient \<^verbatim>\<open>d\<close> on the host.\<close>

lemma quotient_on_page:
  assumes acc: "accurate e H" and e: "e \<le> 1 / 2 ^ 44" and pg: "on_page p"
  shows "\<exists>dq. quotient_on H p = Fin dq
           \<and> \<bar>dq - getDistance (newOne p) (newTwo p) / getDistance (one p) (two p)\<bar> \<le> 4194311 * e
           \<and> \<bar>dq - getDistance (newOne p) (newTwo p) / getDistance (one p) (two p)\<bar>
               \<le> e * (16 * (getDistance (newOne p) (newTwo p) / getDistance (one p) (two p)) + 7)
           \<and> \<bar>dq\<bar> \<le> 262145"
proof -
  define h h' where "h = getDistance (one p) (two p)" and "h' = getDistance (newOne p) (newTwo p)"
  define D D' where "D = distance_value H (one p) (two p)"
    and "D' = distance_value H (newOne p) (newTwo p)"
  define dq where "dq = rnd H (D' / D)"
  note e0 = accurate_nonneg[OF acc]
  have e64: "e \<le> 1 / 64"
    using e by simp
  from pg have c: "\<bar>p_x (one p)\<bar> \<le> 2 ^ 16" "\<bar>p_y (one p)\<bar> \<le> 2 ^ 16"
      "\<bar>p_x (two p)\<bar> \<le> 2 ^ 16" "\<bar>p_y (two p)\<bar> \<le> 2 ^ 16"
      "\<bar>p_x (newOne p)\<bar> \<le> 2 ^ 16" "\<bar>p_y (newOne p)\<bar> \<le> 2 ^ 16"
      "\<bar>p_x (newTwo p)\<bar> \<le> 2 ^ 16" "\<bar>p_y (newTwo p)\<bar> \<le> 2 ^ 16"
    and h1: "1 \<le> h"
    by (simp_all add: on_page_def h_def)
  note old = getDistance_on_page[OF acc e c(1,2,3,4), folded h_def D_def]
  note new = getDistance_on_page[OF acc e c(5,6,7,8), folded h'_def D'_def]
  have h'0: "0 \<le> h'"
    by (simp add: h'_def getDistance_nonneg)
  have q: "\<bar>dq - D' / D\<bar> \<le> e * (\<bar>D' / D\<bar> + 1)"
    unfolding dq_def by (rule rnd_error[OF acc])
  note qe = quotient_error[OF e0 e64 h1 h'0 old(2) new(2) q]
  have d: "0 \<le> h' / h" "h' / h \<le> 262144"
  proof -
    show "0 \<le> h' / h"
      using h1 h'0 by simp
    have "h' * 1 \<le> h' * h"
      using h1 h'0 by (intro mult_left_mono)
    then have "h' / h \<le> h'"
      using h1 by (simp add: divide_le_eq)
    with new(3) show "h' / h \<le> 262144"
      by linarith
  qed
  have "e * (16 * (h' / h) + 7) \<le> e * 4194311"
    using e0 d by (intro mult_left_mono) simp_all
  with qe(1) have err: "\<bar>dq - h' / h\<bar> \<le> 4194311 * e"
    by (simp add: mult.commute)
  moreover have "e * 17592186044416 \<le> 1"
    using e by simp
  ultimately have size: "\<bar>dq\<bar> \<le> 262145"
    using d e0 by linarith
  have "D \<noteq> 0"
    using qe(2) by simp
  then have "quotient_on H p = Fin dq"
    using size by (simp add: quotient_on_def old(1) new(1) div_on_Fin_Fin dq_def)
  with err size qe(1) show ?thesis
    unfolding h_def h'_def by blast
qed

text \<open>A midpoint coordinate on the host.\<close>

lemma half_sum_on_page:
  assumes acc: "accurate e H" and e: "e \<le> 1 / 2 ^ 44"
    and x: "\<bar>x\<bar> \<le> 2 ^ 16" and y: "\<bar>y\<bar> \<le> 2 ^ 16"
  shows "div_on H (add_on H (Fin x) (Fin y)) (Fin 2) = Fin (half_sum_value H x y)"
  using half_sum_error[OF acc e x y]
  by (simp add: add_on_Fin div_on_Fin_Fin half_sum_value_def)


text \<open>
  The array of \<^verbatim>\<open>getZoomMatrix\<close> on the host, for points of the page: its entries are
  finite, and they are the entries of the formulas up to a multiple of the unit \<open>e\<close> of
  the host.
\<close>

lemma getZoomMatrix_on_page:
  assumes acc: "accurate e H" and e: "e \<le> 1 / 2 ^ 44" and pg: "on_page p"
  shows "\<exists>dq tx ty.
           getZoomMatrix_on H p = [Fin dq, Fin 0, Fin 0, Fin dq, Fin tx, Fin ty]
         \<and> \<bar>dq - getDistance (newOne p) (newTwo p) / getDistance (one p) (two p)\<bar> \<le> 4194311 * e
         \<and> \<bar>dq - getDistance (newOne p) (newTwo p) / getDistance (one p) (two p)\<bar>
               \<le> e * (16 * (getDistance (newOne p) (newTwo p) / getDistance (one p) (two p)) + 7)
         \<and> \<bar>tx - (p_x (midpoint_of (newOne p) (newTwo p))
                     - getDistance (newOne p) (newTwo p) / getDistance (one p) (two p)
                       * p_x (midpoint_of (one p) (two p)))\<bar> \<le> 343600136207 * e
         \<and> \<bar>ty - (p_y (midpoint_of (newOne p) (newTwo p))
                     - getDistance (newOne p) (newTwo p) / getDistance (one p) (two p)
                       * p_y (midpoint_of (one p) (two p)))\<bar> \<le> 343600136207 * e"
proof -
  define d where "d = getDistance (newOne p) (newTwo p) / getDistance (one p) (two p)"
  from pg have c: "\<bar>p_x (one p)\<bar> \<le> 2 ^ 16" "\<bar>p_y (one p)\<bar> \<le> 2 ^ 16"
      "\<bar>p_x (two p)\<bar> \<le> 2 ^ 16" "\<bar>p_y (two p)\<bar> \<le> 2 ^ 16"
      "\<bar>p_x (newOne p)\<bar> \<le> 2 ^ 16" "\<bar>p_y (newOne p)\<bar> \<le> 2 ^ 16"
      "\<bar>p_x (newTwo p)\<bar> \<le> 2 ^ 16" "\<bar>p_y (newTwo p)\<bar> \<le> 2 ^ 16"
    by (simp_all add: on_page_def)
  from quotient_on_page[OF acc e pg] obtain dq where
    dq: "quotient_on H p = Fin dq" and dq_err: "\<bar>dq - d\<bar> \<le> 4194311 * e"
    and dq_rel: "\<bar>dq - d\<bar> \<le> e * (16 * d + 7)" and dq_size: "\<bar>dq\<bar> \<le> 262145"
    unfolding d_def by blast
  define mx my cx cy where "mx = half_sum_value H (p_x (one p)) (p_x (two p))"
    and "my = half_sum_value H (p_y (one p)) (p_y (two p))"
    and "cx = half_sum_value H (p_x (newOne p)) (p_x (newTwo p))"
    and "cy = half_sum_value H (p_y (newOne p)) (p_y (newTwo p))"
  define tx ty where "tx = rnd H (cx - rnd H (dq * mx))" and "ty = rnd H (cy - rnd H (dq * my))"
  note mxe = half_sum_error[OF acc e c(1) c(3), folded half_sum_value_def, folded mx_def]
  note mye = half_sum_error[OF acc e c(2) c(4), folded half_sum_value_def, folded my_def]
  note cxe = half_sum_error[OF acc e c(5) c(7), folded half_sum_value_def, folded cx_def]
  note cye = half_sum_error[OF acc e c(6) c(8), folded half_sum_value_def, folded cy_def]
  have mid: "\<bar>(p_x (one p) + p_x (two p)) / 2\<bar> \<le> 65536" "\<bar>(p_y (one p) + p_y (two p)) / 2\<bar> \<le> 65536"
    using c by simp_all
  note txe = zoom_translation_error[OF acc e dq_err dq_size mxe(1) mid(1) mxe(2) cxe(1) cxe(2),
      folded tx_def]
  note tye = zoom_translation_error[OF acc e dq_err dq_size mye(1) mid(2) mye(2) cye(1) cye(2),
      folded ty_def]
  have halves:
    "div_on H (add_on H (Fin (p_x (one p))) (Fin (p_x (two p)))) (Fin 2) = Fin mx"
    "div_on H (add_on H (Fin (p_y (one p))) (Fin (p_y (two p)))) (Fin 2) = Fin my"
    "div_on H (add_on H (Fin (p_x (newOne p))) (Fin (p_x (newTwo p)))) (Fin 2) = Fin cx"
    "div_on H (add_on H (Fin (p_y (newOne p))) (Fin (p_y (newTwo p)))) (Fin 2) = Fin cy"
    unfolding mx_def my_def cx_def cy_def
    by (rule half_sum_on_page[OF acc e], fact, fact)+
  have prods: "mul_on H (Fin dq) (Fin mx) = Fin (rnd H (dq * mx))"
    "mul_on H (Fin dq) (Fin my) = Fin (rnd H (dq * my))"
    using txe(2) tye(2) by (simp_all add: mul_on_Fin)
  have diffs: "sub_on H (Fin cx) (Fin (rnd H (dq * mx))) = Fin tx"
    "sub_on H (Fin cy) (Fin (rnd H (dq * my))) = Fin ty"
    using txe(3) tye(3) by (simp_all add: sub_on_Fin tx_def ty_def)
  have "getZoomMatrix_on H p = [Fin dq, Fin 0, Fin 0, Fin dq, Fin tx, Fin ty]"
    unfolding getZoomMatrix_on_def Let_def quotient_on_def[symmetric] dq halves prods diffs ..
  with dq_err dq_rel txe(1) tye(1) show ?thesis
    unfolding d_def midpoint_of_def by (simp del: times_divide_eq_left times_divide_eq_right)
qed

subsection \<open>The direction of a rounded vector\<close>

lemma cis_atan2: "cis (atan2 y x) = (if x = 0 \<and> y = 0 then 1 else sgn (Complex x y))"
proof (cases "x = 0 \<and> y = 0")
  case True
  then show ?thesis
    by (simp add: atan2_def)
next
  case False
  then have nz: "x \<noteq> 0 \<or> y \<noteq> 0"
    by blast
  have "cis (atan2 y x) = Complex (x / hypot x y) (y / hypot x y)"
    by (simp add: complex_eq_iff cos_atan2[OF nz] sin_atan2[OF nz])
  also have "\<dots> = sgn (Complex x y)"
    by (simp add: complex_eq_iff sgn_eq hypot_cmod)
  finally show ?thesis
    using False by auto
qed

lemma sin_lipschitz: "\<bar>sin x - sin y\<bar> \<le> \<bar>x - y\<bar>" for x y :: real
proof -
  have "\<bar>sin x - sin y\<bar> = 2 * \<bar>sin ((x - y) / 2)\<bar> * \<bar>cos ((x + y) / 2)\<bar>"
    by (simp add: sin_diff_sin abs_mult)
  also have "\<dots> \<le> 2 * \<bar>(x - y) / 2\<bar> * 1"
    using abs_sin_x_le_abs_x[of "(x - y) / 2"] abs_cos_le_one[of "(x + y) / 2"]
    by (intro mult_mono) simp_all
  finally show ?thesis
    by simp
qed

lemma cos_lipschitz: "\<bar>cos x - cos y\<bar> \<le> \<bar>x - y\<bar>" for x y :: real
proof -
  have "\<bar>cos x - cos y\<bar> = 2 * \<bar>sin ((x + y) / 2)\<bar> * \<bar>sin ((y - x) / 2)\<bar>"
    by (simp add: cos_diff_cos abs_mult)
  also have "\<dots> \<le> 2 * 1 * \<bar>(y - x) / 2\<bar>"
    using abs_sin_x_le_abs_x[of "(y - x) / 2"] abs_sin_le_one[of "(x + y) / 2"]
    by (intro mult_mono) simp_all
  finally show ?thesis
    by simp
qed

lemma sgn_near:
  fixes a b :: complex
  assumes "a \<noteq> 0" "b \<noteq> 0"
  shows "cmod (sgn a - sgn b) \<le> 2 * cmod (a - b) / cmod b"
proof -
  have a: "of_real (cmod a) * sgn a = a" and b: "of_real (cmod b) * sgn b = b"
    using assms by (simp_all add: sgn_eq)
  have "of_real (cmod b) * (sgn a - sgn b) = of_real (cmod b - cmod a) * sgn a + (a - b)"
    using a b by (simp add: algebra_simps)
  then have "cmod (of_real (cmod b) * (sgn a - sgn b))
               \<le> cmod (of_real (cmod b - cmod a) * sgn a) + cmod (a - b)"
    using norm_triangle_ineq[of "of_real (cmod b - cmod a) * sgn a" "a - b"] by simp
  moreover have "cmod (of_real (cmod b - cmod a) * sgn a) = \<bar>cmod b - cmod a\<bar>"
    using assms by (simp add: norm_mult norm_sgn of_real_diff[symmetric] del: of_real_diff)
  moreover have "\<bar>cmod b - cmod a\<bar> \<le> cmod (a - b)"
    using norm_triangle_ineq3[of b a] by (simp add: norm_minus_commute)
  ultimately have "cmod b * cmod (sgn a - sgn b) \<le> 2 * cmod (a - b)"
    by (simp add: norm_mult)
  then show ?thesis
    using assms by (simp add: pos_le_divide_eq mult.commute)
qed

lemma direction_near:
  assumes "b \<noteq> 0"
  shows "cmod (cis (atan2 (Im a) (Re a)) - sgn b) \<le> 2 * cmod (a - b) / cmod b"
proof (cases "a = 0")
  case True
  have "cmod (1 - sgn b) \<le> cmod 1 + cmod (sgn b)"
    by (rule norm_triangle_ineq4)
  also have "\<dots> = 2"
    using assms by (simp add: norm_sgn)
  finally show ?thesis
    using True assms by (simp add: cis_atan2)
next
  case False
  then have "\<not> (Re a = 0 \<and> Im a = 0)"
    by (simp add: complex_eq_iff)
  then have "cis (atan2 (Im a) (Re a)) = sgn a"
    by (auto simp: cis_atan2)
  with sgn_near[OF False assms] show ?thesis
    by simp
qed

lemma quotient_cis:
  assumes "v \<noteq> 0"
  shows "w / v = of_real (cmod w / cmod v) * (sgn w * cnj (sgn v))"
proof -
  have "cnj v * v = of_real (cmod v * cmod v)"
    by (simp add: complex_eq_iff cmod_def power2_eq_square[symmetric])
  then show ?thesis
    using assms by (simp add: sgn_eq field_simps)
qed


lemma cis_diff_cnj: "cis (a - b) = cis a * cnj (cis b)"
  by (simp add: complex_eq_iff cos_diff sin_diff)

lemma quotient_cis_atan2:
  assumes "v \<noteq> 0"
  shows "w / v = of_real (cmod w / cmod v)
                   * cis (atan2 (Im w) (Re w) - atan2 (Im v) (Re v))"
proof (cases "w = 0")
  case True
  then show ?thesis
    by simp
next
  case False
  from assms False have "\<not> (Re v = 0 \<and> Im v = 0)" "\<not> (Re w = 0 \<and> Im w = 0)"
    by (simp_all add: complex_eq_iff)
  then have "cis (atan2 (Im v) (Re v)) = sgn v" "cis (atan2 (Im w) (Re w)) = sgn w"
    by (auto simp: cis_atan2)
  then have "cis (atan2 (Im w) (Re w) - atan2 (Im v) (Re v)) = sgn w * cnj (sgn v)"
    unfolding cis_diff_cnj by (simp only:)
  with quotient_cis[OF assms, of w] show ?thesis
    by simp
qed

text \<open>
  The products \<^verbatim>\<open>d * c\<close> and \<^verbatim>\<open>d * s\<close> on the host, before they are rounded, against
  the products of the formulas.  Here \<open>(u, v)\<close> is \<open>two - one\<close>, \<open>(u', v')\<close> is
  \<open>newTwo - newOne\<close>, and \<open>dq\<close> is the quotient on the host.
\<close>

lemma rotation_error:
  fixes u v u' v' dq :: real
  assumes acc: "accurate e H" and e: "e \<le> 1 / 64"
    and h1: "1 \<le> hypot u v"
    and dq: "\<bar>dq - hypot u' v' / hypot u v\<bar> \<le> e * (16 * (hypot u' v' / hypot u v) + 7)"
  defines "t \<equiv> atan2 v' u' - atan2 v u"
    and "th \<equiv> rnd H (math_atan2 H (rnd H v') (rnd H u') - math_atan2 H (rnd H v) (rnd H u))"
  shows "\<bar>dq * math_cos H th - hypot u' v' / hypot u v * cos t\<bar>
           \<le> e * (116 * (hypot u' v' / hypot u v) + 55)"
    and "\<bar>dq * math_sin H th - hypot u' v' / hypot u v * sin t\<bar>
           \<le> e * (116 * (hypot u' v' / hypot u v) + 55)"
    and "\<bar>math_cos H th\<bar> \<le> 2" and "\<bar>math_sin H th\<bar> \<le> 2"
    and "\<bar>th\<bar> \<le> 9"
    and "\<bar>math_atan2 H (rnd H v') (rnd H u') - math_atan2 H (rnd H v) (rnd H u)\<bar> \<le> 9"
proof -
  note e0 = accurate_nonneg[OF acc]
  define vz wz vh wh where "vz = Complex u v" and "wz = Complex u' v'"
    and "vh = Complex (rnd H u) (rnd H v)" and "wh = Complex (rnd H u') (rnd H v')"
  define hh hh' where "hh = hypot u v" and "hh' = hypot u' v'"
  define d where "d = hh' / hh"
  have hh: "hh = cmod vz" "hh' = cmod wz"
    by (simp_all add: hh_def hh'_def vz_def wz_def hypot_cmod)
  have hh1: "1 \<le> hh"
    using h1 by (simp add: hh_def)
  have hh'0: "0 \<le> hh'"
    by (simp add: hh'_def hypot_nonneg)
  have d0: "0 \<le> d"
    using hh1 hh'0 by (simp add: d_def)
  have dhh: "d * hh = hh'"
    using hh1 by (simp add: d_def)
  have vz0: "vz \<noteq> 0"
    using hh1 hh(1) by auto
  have dqd: "\<bar>dq - d\<bar> \<le> e * (16 * d + 7)"
    using dq by (simp add: d_def hh_def hh'_def)
  \<comment> \<open>the rounded vectors\<close>
  have round2: "cmod (Complex (rnd H a) (rnd H b) - Complex a b) \<le> e * (2 * hypot a b + 2)" for a b
  proof -
    have "e * (\<bar>a\<bar> + 1) \<le> e * (hypot a b + 1)" "e * (\<bar>b\<bar> + 1) \<le> e * (hypot a b + 1)"
      using e0 hypot_ge_fst[of a b] hypot_ge_snd[of b a] by (auto intro!: mult_left_mono)
    with rnd_error[OF acc, of a] rnd_error[OF acc, of b]
    have "\<bar>rnd H a - a\<bar> + \<bar>rnd H b - b\<bar> \<le> 2 * (e * (hypot a b + 1))"
      by linarith
    with cmod_le[of "Complex (rnd H a) (rnd H b) - Complex a b"] show ?thesis
      by (simp add: algebra_simps)
  qed
  have ev: "cmod (vh - vz) \<le> e * (2 * hh + 2)"
    unfolding vh_def vz_def hh_def by (rule round2)
  have ew: "cmod (wh - wz) \<le> e * (2 * hh' + 2)"
    unfolding wh_def wz_def hh'_def by (rule round2)
  \<comment> \<open>the two angles and their difference\<close>
  define a0 a0' where "a0 = atan2 (rnd H v) (rnd H u)" and "a0' = atan2 (rnd H v') (rnd H u')"
  define ah ah' where "ah = math_atan2 H (rnd H v) (rnd H u)"
    and "ah' = math_atan2 H (rnd H v') (rnd H u')"
  define t0 where "t0 = a0' - a0"
  have th: "th = rnd H (ah' - ah)"
    by (simp add: th_def ah_def ah'_def)
  have angle: "\<bar>math_atan2 H y x - atan2 y x\<bar> \<le> 5 * e" "\<bar>atan2 y x\<bar> \<le> 4" for x y
  proof -
    show b: "\<bar>atan2 y x\<bar> \<le> 4"
      using atan2_bounds[of y x] pi_less_4 by linarith
    then have "e * (\<bar>atan2 y x\<bar> + 1) \<le> e * 5"
      using e0 by (intro mult_left_mono) simp_all
    with atan2_error[OF acc, of y x] show "\<bar>math_atan2 H y x - atan2 y x\<bar> \<le> 5 * e"
      by (simp add: mult.commute)
  qed
  have a: "\<bar>ah - a0\<bar> \<le> 5 * e" "\<bar>ah' - a0'\<bar> \<le> 5 * e" "\<bar>a0\<bar> \<le> 4" "\<bar>a0'\<bar> \<le> 4"
    unfolding ah_def ah'_def a0_def a0'_def by (rule angle)+
  then show diff9: "\<bar>math_atan2 H (rnd H v') (rnd H u') - math_atan2 H (rnd H v) (rnd H u)\<bar> \<le> 9"
    unfolding ah_def[symmetric] ah'_def[symmetric] using e e0 by linarith
  then have "e * (\<bar>ah' - ah\<bar> + 1) \<le> e * 10"
    unfolding ah_def[symmetric] ah'_def[symmetric] using e0 by (intro mult_left_mono) simp_all
  with rnd_error[OF acc, of "ah' - ah"] have "\<bar>th - (ah' - ah)\<bar> \<le> 10 * e"
    by (simp add: th mult.commute)
  with a have tht0: "\<bar>th - t0\<bar> \<le> 20 * e"
    unfolding t0_def by linarith
  with a e e0 show th9: "\<bar>th\<bar> \<le> 9"
    unfolding t0_def by linarith
  \<comment> \<open>the cosine and the sine\<close>
  define c s where "c = math_cos H th" and "s = math_sin H th"
  have "e * (\<bar>cos th\<bar> + 1) \<le> e * 2" "e * (\<bar>sin th\<bar> + 1) \<le> e * 2"
    using e0 abs_cos_le_one[of th] abs_sin_le_one[of th] by (auto intro!: mult_left_mono)
  with cos_error[OF acc, of th] sin_error[OF acc, of th]
  have "\<bar>c - cos th\<bar> \<le> 2 * e" "\<bar>s - sin th\<bar> \<le> 2 * e"
    by (simp_all add: c_def s_def mult.commute)
  with cos_lipschitz[of th t0] sin_lipschitz[of th t0] tht0
  have cs: "\<bar>c - cos t0\<bar> \<le> 22 * e" "\<bar>s - sin t0\<bar> \<le> 22 * e"
    by linarith+
  with abs_cos_le_one[of t0] abs_sin_le_one[of t0] e e0
  show "\<bar>math_cos H th\<bar> \<le> 2" "\<bar>math_sin H th\<bar> \<le> 2"
    unfolding c_def[symmetric] s_def[symmetric] by linarith+
  define cz where "cz = Complex c s"
  have cz: "cmod (cz - cis t0) \<le> 44 * e"
    using cmod_le[of "cz - cis t0"] cs by (simp add: cz_def)
  \<comment> \<open>the quotient times the direction\<close>
  have "e * (16 * d + 7) \<le> 1 / 64 * (16 * d + 7)"
    using e d0 by (intro mult_right_mono) simp_all
  also have "\<dots> \<le> d + 1"
    using d0 by simp
  finally have dq_size: "\<bar>dq\<bar> \<le> 2 * d + 1"
    using dqd d0 by linarith
  have F: "cmod (of_real dq * cz - of_real dq * cis t0) \<le> e * (88 * d + 44)"
  proof -
    have "cmod (of_real dq * cz - of_real dq * cis t0) = \<bar>dq\<bar> * cmod (cz - cis t0)"
      by (simp add: right_diff_distrib[symmetric] norm_mult del: cis.simps)
    also have "\<dots> \<le> (2 * d + 1) * (44 * e)"
      using dq_size cz by (intro mult_mono) simp_all
    finally show ?thesis
      by (simp add: algebra_simps)
  qed
  define sv sw where "sv = cis a0" and "sw = cis a0'"
  have t0_cis: "cis t0 = sw * cnj sv"
    unfolding t0_def sv_def sw_def by (rule cis_diff_cnj)
  have sv_near: "cmod (sv - sgn vz) \<le> 8 * e"
  proof -
    have "cmod (sv - sgn vz) \<le> 2 * cmod (vh - vz) / cmod vz"
      using direction_near[OF vz0, of vh] by (simp add: sv_def a0_def vh_def)
    also have "\<dots> \<le> 2 * (e * (2 * hh + 2)) / hh"
      using ev hh1 by (simp add: hh(1)[symmetric] divide_right_mono)
    also have "\<dots> \<le> 8 * e"
    proof -
      have "e * (2 * hh + 2) \<le> e * (4 * hh)"
        using e0 hh1 by (intro mult_left_mono) simp_all
      then show ?thesis
        using hh1 by (simp add: pos_divide_le_eq algebra_simps)
    qed
    finally show ?thesis .
  qed
  have sw_near: "d * cmod (sw - sgn wz) \<le> e * (4 * d + 4)"
  proof (cases "wz = 0")
    case True
    then have "d = 0"
      by (simp add: d_def hh(2))
    with e0 show ?thesis
      by simp
  next
    case False
    then have hh'pos: "0 < hh'"
      by (simp add: hh(2))
    have "cmod (sw - sgn wz) \<le> 2 * cmod (wh - wz) / cmod wz"
      using direction_near[OF False, of wh] by (simp add: sw_def a0'_def wh_def)
    also have "\<dots> \<le> 2 * (e * (2 * hh' + 2)) / hh'"
      using ew hh'pos by (simp add: hh(2)[symmetric] divide_right_mono)
    finally have "d * cmod (sw - sgn wz) \<le> d * (2 * (e * (2 * hh' + 2)) / hh')"
      using d0 by (intro mult_left_mono)
    also have "\<dots> = 2 * (e * (2 * hh' + 2)) / hh"
      using hh'pos hh1 by (simp add: d_def)
    also have "\<dots> = e * (4 * d + 4 / hh)"
      using hh1 by (simp add: d_def field_simps)
    also have "\<dots> \<le> e * (4 * d + 4)"
      using e0 hh1 by (intro mult_left_mono) (simp_all add: divide_le_eq)
    finally show ?thesis .
  qed
  have G: "cmod (of_real dq * (sw * cnj sv) - of_real d * (sgn wz * cnj (sgn vz))) \<le> e * (28 * d + 11)"
  proof -
    have n: "cmod sw = 1" "cmod sv = 1" "cmod (sgn wz) \<le> 1"
      by (simp_all add: sw_def sv_def norm_sgn)
    have "of_real dq * (sw * cnj sv) - of_real d * (sgn wz * cnj (sgn vz))
            = of_real (dq - d) * (sw * cnj sv) + of_real d * ((sw - sgn wz) * cnj sv)
              + of_real d * (sgn wz * cnj (sv - sgn vz))"
      by (simp add: algebra_simps)
    also have "cmod \<dots> \<le> cmod (of_real (dq - d) * (sw * cnj sv))
                 + cmod (of_real d * ((sw - sgn wz) * cnj sv))
                 + cmod (of_real d * (sgn wz * cnj (sv - sgn vz)))"
      by (intro order_trans[OF norm_triangle_ineq] add_mono order_refl)
    also have "cmod (of_real (dq - d) * (sw * cnj sv)) = \<bar>dq - d\<bar>"
      by (simp add: norm_mult n del: of_real_diff)
    also have "cmod (of_real d * ((sw - sgn wz) * cnj sv)) = d * cmod (sw - sgn wz)"
      using d0 by (simp add: norm_mult n)
    also have "cmod (of_real d * (sgn wz * cnj (sv - sgn vz))) \<le> d * (1 * cmod (sv - sgn vz))"
    proof -
      have "cmod (of_real d * (sgn wz * cnj (sv - sgn vz)))
              = d * (cmod (sgn wz) * cmod (sv - sgn vz))"
        using d0 by (simp add: norm_mult del: complex_cnj_diff)
      also have "\<dots> \<le> d * (1 * cmod (sv - sgn vz))"
        using d0 n(3) by (intro mult_left_mono mult_right_mono) simp_all
      finally show ?thesis .
    qed
    finally have "cmod (of_real dq * (sw * cnj sv) - of_real d * (sgn wz * cnj (sgn vz)))
                    \<le> \<bar>dq - d\<bar> + d * cmod (sw - sgn wz) + d * (1 * cmod (sv - sgn vz))"
      by simp
    moreover have "d * (1 * cmod (sv - sgn vz)) \<le> d * (8 * e)"
      using d0 sv_near by (intro mult_left_mono) simp_all
    ultimately have "cmod (of_real dq * (sw * cnj sv) - of_real d * (sgn wz * cnj (sgn vz)))
                    \<le> e * (16 * d + 7) + e * (4 * d + 4) + d * (8 * e)"
      using dqd sw_near by linarith
    then show ?thesis
      by (simp add: algebra_simps)
  qed
  have kappa: "wz / vz = of_real d * (sgn wz * cnj (sgn vz))"
    unfolding d_def hh by (rule quotient_cis[OF vz0])
  have total: "cmod (of_real dq * cz - wz / vz) \<le> e * (116 * d + 55)"
  proof -
    have "cmod (of_real dq * cz - wz / vz)
            \<le> cmod (of_real dq * cz - of_real dq * cis t0) + cmod (of_real dq * cis t0 - wz / vz)"
      using norm_triangle_ineq[of "of_real dq * cz - of_real dq * cis t0"
          "of_real dq * cis t0 - wz / vz"] by simp
    with F G show ?thesis
      unfolding kappa t0_cis by (simp add: algebra_simps)
  qed
  have exact: "wz / vz = of_real d * cis t"
    using quotient_cis_atan2[OF vz0, of wz]
    by (simp add: d_def hh t_def vz_def wz_def)
  have "Re (of_real dq * cz - wz / vz) = dq * c - d * cos t"
       "Im (of_real dq * cz - wz / vz) = dq * s - d * sin t"
    unfolding exact by (simp_all add: cz_def)
  with abs_Re_le_cmod[of "of_real dq * cz - wz / vz"] abs_Im_le_cmod[of "of_real dq * cz - wz / vz"]
    total
  have "\<bar>dq * c - d * cos t\<bar> \<le> e * (116 * d + 55)" "\<bar>dq * s - d * sin t\<bar> \<le> e * (116 * d + 55)"
    by linarith+
  then show "\<bar>dq * math_cos H th - hypot u' v' / hypot u v * cos t\<bar>
           \<le> e * (116 * (hypot u' v' / hypot u v) + 55)"
    and "\<bar>dq * math_sin H th - hypot u' v' / hypot u v * sin t\<bar>
           \<le> e * (116 * (hypot u' v' / hypot u v) + 55)"
    by (simp_all add: c_def s_def d_def hh_def hh'_def)
qed


text \<open>
  A product of \<^verbatim>\<open>getMatrix\<close> with three factors, \<^verbatim>\<open>d * m * c\<close>, where \<open>K\<close> is
  the product \<open>d * c\<close> of the formulas.
\<close>

lemma rot_term_error:
  assumes acc: "accurate e H" and e: "e \<le> 1 / 2 ^ 44"
    and d: "\<bar>dq\<bar> \<le> 262145"
    and k: "\<bar>dq * c - K\<bar> \<le> 30408759 * e" "\<bar>c\<bar> \<le> 2"
    and m: "\<bar>mh - m\<bar> \<le> 131075 * e" "\<bar>m\<bar> \<le> 65536" "\<bar>mh\<bar> \<le> 65538"
  shows "\<bar>rnd H (rnd H (dq * mh) * c) - K * m\<bar> \<le> 2130311577619 * e"
    and "\<bar>rnd H (rnd H (dq * mh) * c)\<bar> \<le> 34360918023"
    and "\<bar>rnd H (dq * mh)\<bar> \<le> 17180459011"
proof -
  note e0 = accurate_nonneg[OF acc]
  have en: "e * 17592186044416 \<le> 1"
    using e by simp
  define P where "P = rnd H (dq * mh)"
  have 1: "\<bar>dq * mh\<bar> \<le> 17180459010"
    using mult_size[OF d m(3)] by simp
  have "\<bar>dq * mh - dq * mh\<bar> \<le> 0 * e"
    by simp
  from rnd_step[OF acc this 1] have 2: "\<bar>P - dq * mh\<bar> \<le> 17180459011 * e"
    by (simp add: P_def)
  from rnd_size[OF acc 1] en e0 show 3: "\<bar>rnd H (dq * mh)\<bar> \<le> 17180459011"
    by simp
  from mult_size[OF 2 k(2)] have 4: "\<bar>(P - dq * mh) * c\<bar> \<le> 34360918022 * e"
    by simp
  have 5: "\<bar>dq * c\<bar> \<le> 524290"
    using mult_size[OF d k(2)] by simp
  from mult_step[OF k(1) 5 m(1,2)] have 6: "\<bar>dq * c * mh - K * m\<bar> \<le> 2061589741574 * e"
    by simp
  have "P * c - K * m = (P - dq * mh) * c + (dq * c * mh - K * m)"
    by (simp add: algebra_simps)
  with 4 6 have 7: "\<bar>P * c - K * m\<bar> \<le> 2095950659596 * e"
    by linarith
  have 8: "\<bar>P * c\<bar> \<le> 34360918022"
    using mult_size[OF 3 k(2)] by (simp add: P_def)
  from rnd_step[OF acc 7 8] show "\<bar>rnd H (rnd H (dq * mh) * c) - K * m\<bar> \<le> 2130311577619 * e"
    by (simp add: P_def)
  from rnd_size[OF acc 8] en e0 show "\<bar>rnd H (rnd H (dq * mh) * c)\<bar> \<le> 34360918023"
    by (simp add: P_def)
qed

text \<open>
  A translation of \<^verbatim>\<open>getMatrix\<close>: \<^verbatim>\<open>cx - q1 + q2\<close> and \<^verbatim>\<open>cy - q1 - q2\<close>, the
  operations from left to right.
\<close>

lemma rot_translation_error:
  assumes acc: "accurate e H" and e: "e \<le> 1 / 2 ^ 44"
    and c: "\<bar>ch - c\<bar> \<le> 131075 * e" "\<bar>ch\<bar> \<le> 65538"
    and q1: "\<bar>q1 - r1\<bar> \<le> 2130311577619 * e" "\<bar>q1\<bar> \<le> 34360918023"
    and q2: "\<bar>q2 - r2\<bar> \<le> 2130311577619 * e" "\<bar>q2\<bar> \<le> 34360918023"
  shows "\<bar>rnd H (rnd H (ch - q1) + q2) - (c - r1 + r2)\<bar> \<le> 4363706171461 * e"
    and "\<bar>rnd H (rnd H (ch - q1) - q2) - (c - r1 - r2)\<bar> \<le> 4363706171461 * e"
    and "\<bar>rnd H (ch - q1)\<bar> \<le> 34360983562"
    and "\<bar>rnd H (rnd H (ch - q1) + q2)\<bar> \<le> 68721901586"
    and "\<bar>rnd H (rnd H (ch - q1) - q2)\<bar> \<le> 68721901586"
proof -
  note e0 = accurate_nonneg[OF acc]
  have en: "e * 17592186044416 \<le> 1"
    using e by simp
  define A where "A = rnd H (ch - q1)"
  from c(1) q1(1) have 1: "\<bar>(ch - q1) - (c - r1)\<bar> \<le> 2130311708694 * e"
    by linarith
  from c(2) q1(2) have 2: "\<bar>ch - q1\<bar> \<le> 34360983561"
    by linarith
  from rnd_step[OF acc 1 2] have 3: "\<bar>A - (c - r1)\<bar> \<le> 2164672692256 * e"
    by (simp add: A_def)
  from rnd_size[OF acc 2] en e0 show 4: "\<bar>rnd H (ch - q1)\<bar> \<le> 34360983562"
    by simp
  from 3 q2(1) have 5: "\<bar>(A + q2) - (c - r1 + r2)\<bar> \<le> 4294984269875 * e"
    "\<bar>(A - q2) - (c - r1 - r2)\<bar> \<le> 4294984269875 * e"
    by linarith+
  from 4 q2(2) have 6: "\<bar>A + q2\<bar> \<le> 68721901585" "\<bar>A - q2\<bar> \<le> 68721901585"
    unfolding A_def by linarith+
  from rnd_step[OF acc 5(1) 6(1)] show "\<bar>rnd H (rnd H (ch - q1) + q2) - (c - r1 + r2)\<bar> \<le> 4363706171461 * e"
    by (simp add: A_def)
  from rnd_step[OF acc 5(2) 6(2)] show "\<bar>rnd H (rnd H (ch - q1) - q2) - (c - r1 - r2)\<bar> \<le> 4363706171461 * e"
    by (simp add: A_def)
  from rnd_size[OF acc 6(1)] en e0 show "\<bar>rnd H (rnd H (ch - q1) + q2)\<bar> \<le> 68721901586"
    by (simp add: A_def)
  from rnd_size[OF acc 6(2)] en e0 show "\<bar>rnd H (rnd H (ch - q1) - q2)\<bar> \<le> 68721901586"
    by (simp add: A_def)
qed


text \<open>
  The array of \<^verbatim>\<open>getMatrix\<close> on the host, for points of the page: its entries are
  finite, and they are the entries of the formulas up to a multiple of the unit \<open>e\<close> of
  the host.
\<close>

lemma getMatrix_on_page:
  assumes acc: "accurate e H" and e: "e \<le> 1 / 2 ^ 44" and pg: "on_page p"
  defines "q \<equiv> getDistance (newOne p) (newTwo p) / getDistance (one p) (two p)"
    and "t \<equiv> atan2 (p_y (newTwo p) - p_y (newOne p)) (p_x (newTwo p) - p_x (newOne p))
                 - atan2 (p_y (two p) - p_y (one p)) (p_x (two p) - p_x (one p))"
  shows "\<exists>a b c d tx ty.
           getMatrix_on H p = [Fin a, Fin b, Fin c, Fin d, Fin tx, Fin ty]
         \<and> \<bar>a - q * cos t\<bar> \<le> 30933050 * e \<and> \<bar>b - q * sin t\<bar> \<le> 30933050 * e
         \<and> \<bar>c - (- (q * sin t))\<bar> \<le> 30933050 * e \<and> \<bar>d - q * cos t\<bar> \<le> 30933050 * e
         \<and> \<bar>tx - (p_x (midpoint_of (newOne p) (newTwo p))
                     - q * cos t * p_x (midpoint_of (one p) (two p))
                     + q * sin t * p_y (midpoint_of (one p) (two p)))\<bar> \<le> 4363706171461 * e
         \<and> \<bar>ty - (p_y (midpoint_of (newOne p) (newTwo p))
                     - q * cos t * p_y (midpoint_of (one p) (two p))
                     - q * sin t * p_x (midpoint_of (one p) (two p)))\<bar> \<le> 4363706171461 * e"
proof -
  note e0 = accurate_nonneg[OF acc]
  have en: "e * 17592186044416 \<le> 1"
    using e by simp
  have e64: "e \<le> 1 / 64"
    using e by simp
  from pg have c: "\<bar>p_x (one p)\<bar> \<le> 2 ^ 16" "\<bar>p_y (one p)\<bar> \<le> 2 ^ 16"
      "\<bar>p_x (two p)\<bar> \<le> 2 ^ 16" "\<bar>p_y (two p)\<bar> \<le> 2 ^ 16"
      "\<bar>p_x (newOne p)\<bar> \<le> 2 ^ 16" "\<bar>p_y (newOne p)\<bar> \<le> 2 ^ 16"
      "\<bar>p_x (newTwo p)\<bar> \<le> 2 ^ 16" "\<bar>p_y (newTwo p)\<bar> \<le> 2 ^ 16"
    and h1: "1 \<le> getDistance (one p) (two p)"
    by (simp_all add: on_page_def)
  from quotient_on_page[OF acc e pg] obtain dq where
    dq: "quotient_on H p = Fin dq" and dq_rel: "\<bar>dq - q\<bar> \<le> e * (16 * q + 7)"
    and dq_size: "\<bar>dq\<bar> \<le> 262145"
    unfolding q_def by blast
  have q: "0 \<le> q" "q \<le> 262144"
  proof -
    have n: "0 \<le> getDistance (newOne p) (newTwo p)" "getDistance (newOne p) (newTwo p) \<le> 262144"
      using getDistance_le[OF c(5,6,7,8)] by (simp_all add: getDistance_nonneg)
    with h1 show "0 \<le> q"
      by (simp add: q_def)
    have "getDistance (newOne p) (newTwo p) * 1
            \<le> getDistance (newOne p) (newTwo p) * getDistance (one p) (two p)"
      using h1 n(1) by (intro mult_left_mono)
    then have "q \<le> getDistance (newOne p) (newTwo p)"
      using h1 by (simp add: q_def divide_le_eq)
    with n(2) show "q \<le> 262144"
      by linarith
  qed
  \<comment> \<open>the angle, its cosine and its sine\<close>
  define u v u' v' where "u = p_x (two p) - p_x (one p)" and "v = p_y (two p) - p_y (one p)"
    and "u' = p_x (newTwo p) - p_x (newOne p)" and "v' = p_y (newTwo p) - p_y (newOne p)"
  define ah ah' where "ah = math_atan2 H (rnd H v) (rnd H u)"
    and "ah' = math_atan2 H (rnd H v') (rnd H u')"
  define th where "th = rnd H (ah' - ah)"
  define cs sn where "cs = math_cos H th" and "sn = math_sin H th"
  have qh: "q = hypot u' v' / hypot u v" and th: "t = atan2 v' u' - atan2 v u"
    by (simp_all add: q_def t_def getDistance_hypot u_def v_def u'_def v'_def)
  have hh1: "1 \<le> hypot u v"
    using h1 by (simp add: getDistance_hypot u_def v_def)
  note rot = rotation_error[OF acc e64 hh1 dq_rel[unfolded qh], folded qh th, folded ah_def ah'_def,
      folded th_def, folded cs_def sn_def]
  have "e * (116 * q + 55) \<le> e * 30408759"
    using e0 q by (intro mult_left_mono) simp_all
  with rot(1,2) have k: "\<bar>dq * cs - q * cos t\<bar> \<le> 30408759 * e" "\<bar>dq * sn - q * sin t\<bar> \<le> 30408759 * e"
    by (simp_all add: mult.commute)
  have sizes: "\<bar>dq * cs\<bar> \<le> 524290" "\<bar>dq * sn\<bar> \<le> 524290"
    using mult_size[OF dq_size rot(3)] mult_size[OF dq_size rot(4)] by simp_all
  define ea eb ec where "ea = rnd H (dq * cs)" and "eb = rnd H (dq * sn)"
    and "ec = rnd H (- dq * sn)"
  have ea: "\<bar>ea - q * cos t\<bar> \<le> 30933050 * e" "\<bar>ea\<bar> \<le> 2 ^ 64"
    using rnd_step[OF acc k(1) sizes(1)] rnd_size[OF acc sizes(1)] en e0 by (simp_all add: ea_def)
  have eb: "\<bar>eb - q * sin t\<bar> \<le> 30933050 * e" "\<bar>eb\<bar> \<le> 2 ^ 64"
    using rnd_step[OF acc k(2) sizes(2)] rnd_size[OF acc sizes(2)] en e0 by (simp_all add: eb_def)
  have "\<bar>- dq * sn - (- (q * sin t))\<bar> \<le> 30408759 * e" "\<bar>- dq * sn\<bar> \<le> 524290"
    using k(2) sizes(2) by simp_all
  from rnd_step[OF acc this] rnd_size[OF acc this(2)] en e0
  have ec: "\<bar>ec - (- (q * sin t))\<bar> \<le> 30933050 * e" "\<bar>ec\<bar> \<le> 2 ^ 64"
    by (simp_all add: ec_def)
  \<comment> \<open>the midpoints and the translations\<close>
  define mx my cx cy where "mx = half_sum_value H (p_x (one p)) (p_x (two p))"
    and "my = half_sum_value H (p_y (one p)) (p_y (two p))"
    and "cx = half_sum_value H (p_x (newOne p)) (p_x (newTwo p))"
    and "cy = half_sum_value H (p_y (newOne p)) (p_y (newTwo p))"
  note mxe = half_sum_error[OF acc e c(1) c(3), folded half_sum_value_def, folded mx_def]
  note mye = half_sum_error[OF acc e c(2) c(4), folded half_sum_value_def, folded my_def]
  note cxe = half_sum_error[OF acc e c(5) c(7), folded half_sum_value_def, folded cx_def]
  note cye = half_sum_error[OF acc e c(6) c(8), folded half_sum_value_def, folded cy_def]
  have mid: "\<bar>(p_x (one p) + p_x (two p)) / 2\<bar> \<le> 65536" "\<bar>(p_y (one p) + p_y (two p)) / 2\<bar> \<le> 65536"
    using c by simp_all
  note xc = rot_term_error[OF acc e dq_size k(1) rot(3) mxe(1) mid(1) mxe(2)]
  note ys = rot_term_error[OF acc e dq_size k(2) rot(4) mye(1) mid(2) mye(2)]
  note yc = rot_term_error[OF acc e dq_size k(1) rot(3) mye(1) mid(2) mye(2)]
  note xs = rot_term_error[OF acc e dq_size k(2) rot(4) mxe(1) mid(1) mxe(2)]
  define tx ty where "tx = rnd H (rnd H (cx - rnd H (rnd H (dq * mx) * cs)) + rnd H (rnd H (dq * my) * sn))"
    and "ty = rnd H (rnd H (cy - rnd H (rnd H (dq * my) * cs)) - rnd H (rnd H (dq * mx) * sn))"
  note txe = rot_translation_error[OF acc e cxe(1,2) xc(1,2) ys(1,2), folded tx_def]
  note tye = rot_translation_error[OF acc e cye(1,2) yc(1,2) xs(1,2), folded ty_def]
  \<comment> \<open>the operations of the host\<close>
  have d4: "\<bar>u\<bar> \<le> 131072" "\<bar>v\<bar> \<le> 131072" "\<bar>u'\<bar> \<le> 131072" "\<bar>v'\<bar> \<le> 131072"
    using c by (simp_all add: u_def v_def u'_def v'_def)
  have subs: "sub_on H (Fin (p_x (two p))) (Fin (p_x (one p))) = Fin (rnd H u)"
    "sub_on H (Fin (p_y (two p))) (Fin (p_y (one p))) = Fin (rnd H v)"
    "sub_on H (Fin (p_x (newTwo p))) (Fin (p_x (newOne p))) = Fin (rnd H u')"
    "sub_on H (Fin (p_y (newTwo p))) (Fin (p_y (newOne p))) = Fin (rnd H v')"
    using rnd_size[OF acc d4(1)] rnd_size[OF acc d4(2)] rnd_size[OF acc d4(3)]
      rnd_size[OF acc d4(4)] en e0
    by (simp_all add: sub_on_Fin u_def v_def u'_def v'_def)
  have atans: "atan2_on H (Fin (rnd H v)) (Fin (rnd H u)) = Fin ah"
    "atan2_on H (Fin (rnd H v')) (Fin (rnd H u')) = Fin ah'"
    by (simp_all add: atan2_on_def ah_def ah'_def)
  have turn: "sub_on H (Fin ah') (Fin ah) = Fin th"
    using rot(5) by (simp add: sub_on_Fin th_def)
  have trig: "cos_on H (Fin th) = Fin cs" "sin_on H (Fin th) = Fin sn"
    by (simp_all add: cos_on_def sin_on_def cs_def sn_def)
  have halves:
    "div_on H (add_on H (Fin (p_x (one p))) (Fin (p_x (two p)))) (Fin 2) = Fin mx"
    "div_on H (add_on H (Fin (p_y (one p))) (Fin (p_y (two p)))) (Fin 2) = Fin my"
    "div_on H (add_on H (Fin (p_x (newOne p))) (Fin (p_x (newTwo p)))) (Fin 2) = Fin cx"
    "div_on H (add_on H (Fin (p_y (newOne p))) (Fin (p_y (newTwo p)))) (Fin 2) = Fin cy"
    unfolding mx_def my_def cx_def cy_def
    by (rule half_sum_on_page[OF acc e], fact, fact)+
  have linear: "mul_on H (Fin dq) (Fin cs) = Fin ea" "mul_on H (Fin dq) (Fin sn) = Fin eb"
    "mul_on H (n_neg (Fin dq)) (Fin sn) = Fin ec"
    using ea(2) eb(2) ec(2) by (simp_all add: mul_on_Fin ea_def eb_def ec_def)
  have prods: "mul_on H (Fin dq) (Fin mx) = Fin (rnd H (dq * mx))"
    "mul_on H (Fin dq) (Fin my) = Fin (rnd H (dq * my))"
    using xc(3) yc(3) by (simp_all add: mul_on_Fin)
  have terms: "mul_on H (Fin (rnd H (dq * mx))) (Fin cs) = Fin (rnd H (rnd H (dq * mx) * cs))"
    "mul_on H (Fin (rnd H (dq * my))) (Fin sn) = Fin (rnd H (rnd H (dq * my) * sn))"
    "mul_on H (Fin (rnd H (dq * my))) (Fin cs) = Fin (rnd H (rnd H (dq * my) * cs))"
    "mul_on H (Fin (rnd H (dq * mx))) (Fin sn) = Fin (rnd H (rnd H (dq * mx) * sn))"
    using xc(2) ys(2) yc(2) xs(2) by (simp_all add: mul_on_Fin)
  have firsts: "sub_on H (Fin cx) (Fin (rnd H (rnd H (dq * mx) * cs)))
                  = Fin (rnd H (cx - rnd H (rnd H (dq * mx) * cs)))"
    "sub_on H (Fin cy) (Fin (rnd H (rnd H (dq * my) * cs)))
                  = Fin (rnd H (cy - rnd H (rnd H (dq * my) * cs)))"
    using txe(3) tye(3) by (simp_all add: sub_on_Fin)
  have seconds: "add_on H (Fin (rnd H (cx - rnd H (rnd H (dq * mx) * cs))))
                   (Fin (rnd H (rnd H (dq * my) * sn))) = Fin tx"
    "sub_on H (Fin (rnd H (cy - rnd H (rnd H (dq * my) * cs))))
                   (Fin (rnd H (rnd H (dq * mx) * sn))) = Fin ty"
    using txe(4) tye(5) by (simp_all add: add_on_Fin sub_on_Fin tx_def ty_def)
  have "getMatrix_on H p = [Fin ea, Fin eb, Fin ec, Fin ea, Fin tx, Fin ty]"
    unfolding getMatrix_on_def Let_def quotient_on_def[symmetric] dq halves subs atans turn trig
      linear prods terms firsts seconds ..
  with ea(1) eb(1) ec(1) txe(1) tye(2) show ?thesis
    unfolding midpoint_of_def by (simp del: times_divide_eq_left times_divide_eq_right)
qed

subsection \<open>The transforms on a host\<close>

lemma transformPoint_near:
  assumes l: "\<bar>m_a m - m_a n\<bar> \<le> 30933050 * e" "\<bar>m_b m - m_b n\<bar> \<le> 30933050 * e"
      "\<bar>m_c m - m_c n\<bar> \<le> 30933050 * e" "\<bar>m_d m - m_d n\<bar> \<le> 30933050 * e"
    and t: "\<bar>m_e m - m_e n\<bar> \<le> 4363706171461 * e" "\<bar>m_f m - m_f n\<bar> \<le> 4363706171461 * e"
    and z: "\<bar>p_x z\<bar> \<le> 2 ^ 16" "\<bar>p_y z\<bar> \<le> 2 ^ 16"
  shows "near (2 ^ 43 * e) (transformPoint m z) (transformPoint n z)"
proof -
  have e0: "0 \<le> e"
    using l(1) by linarith
  have z': "\<bar>p_x z\<bar> \<le> 65536" "\<bar>p_y z\<bar> \<le> 65536"
    using z by simp_all
  have x: "p_x (transformPoint m z) - p_x (transformPoint n z)
             = (m_a m - m_a n) * p_x z + (m_c m - m_c n) * p_y z + (m_e m - m_e n)"
    and y: "p_y (transformPoint m z) - p_y (transformPoint n z)
             = (m_b m - m_b n) * p_x z + (m_d m - m_d n) * p_y z + (m_f m - m_f n)"
    by (simp_all add: transformPoint_def algebra_simps)
  have "\<bar>p_x (transformPoint m z) - p_x (transformPoint n z)\<bar> \<le> 8418162901061 * e"
    unfolding x using mult_size[OF l(1) z'(1)] mult_size[OF l(3) z'(2)] t(1) by linarith
  moreover have "\<bar>p_y (transformPoint m z) - p_y (transformPoint n z)\<bar> \<le> 8418162901061 * e"
    unfolding y using mult_size[OF l(2) z'(1)] mult_size[OF l(4) z'(2)] t(2) by linarith
  ultimately show ?thesis
    using e0 by (simp add: near_def)
qed

text \<open>
  The array of \<^verbatim>\<open>getMatrix\<close> on the host against the matrix of the formulas.
\<close>

lemma getMatrix_on_near_formulas:
  assumes acc: "accurate e H" and e: "e \<le> 1 / 2 ^ 44" and pg: "on_page p"
  shows "\<exists>m n. getMatrix_on H p = map Fin (entries m) \<and> getMatrix p = Some n
           \<and> \<bar>m_a m - m_a n\<bar> \<le> 30933050 * e \<and> \<bar>m_b m - m_b n\<bar> \<le> 30933050 * e
           \<and> \<bar>m_c m - m_c n\<bar> \<le> 30933050 * e \<and> \<bar>m_d m - m_d n\<bar> \<le> 30933050 * e
           \<and> \<bar>m_e m - m_e n\<bar> \<le> 4363706171461 * e \<and> \<bar>m_f m - m_f n\<bar> \<le> 4363706171461 * e"
proof -
  define q where "q = getDistance (newOne p) (newTwo p) / getDistance (one p) (two p)"
  define t where "t = atan2 (p_y (newTwo p) - p_y (newOne p)) (p_x (newTwo p) - p_x (newOne p))
                        - atan2 (p_y (two p) - p_y (one p)) (p_x (two p) - p_x (one p))"
  define K L where "K = q * cos t" and "L = q * sin t"
  define n where "n = DOMMatrix K L (- L) K
      (p_x (midpoint_of (newOne p) (newTwo p)) - K * p_x (midpoint_of (one p) (two p))
         + L * p_y (midpoint_of (one p) (two p)))
      (p_y (midpoint_of (newOne p) (newTwo p)) - K * p_y (midpoint_of (one p) (two p))
         - L * p_x (midpoint_of (one p) (two p)))"
  have pos: "0 < getDistance (one p) (two p)"
    using pg by (simp add: on_page_def)
  have n: "getMatrix p = Some n"
    unfolding getMatrix_Some[OF pos] Let_def n_def K_def L_def q_def t_def ..
  from getMatrix_on_page[OF acc e pg, folded q_def t_def, folded K_def L_def]
  obtain a b c d tx ty where
    m: "getMatrix_on H p = [Fin a, Fin b, Fin c, Fin d, Fin tx, Fin ty]"
    and l: "\<bar>a - K\<bar> \<le> 30933050 * e" "\<bar>b - L\<bar> \<le> 30933050 * e" "\<bar>c - (- L)\<bar> \<le> 30933050 * e"
      "\<bar>d - K\<bar> \<le> 30933050 * e"
    and tr: "\<bar>tx - (p_x (midpoint_of (newOne p) (newTwo p)) - K * p_x (midpoint_of (one p) (two p))
                     + L * p_y (midpoint_of (one p) (two p)))\<bar> \<le> 4363706171461 * e"
      "\<bar>ty - (p_y (midpoint_of (newOne p) (newTwo p)) - K * p_y (midpoint_of (one p) (two p))
                     - L * p_x (midpoint_of (one p) (two p)))\<bar> \<le> 4363706171461 * e"
    by blast
  have "getMatrix_on H p = map Fin (entries (DOMMatrix a b c d tx ty))"
    by (simp add: m entries_def)
  moreover have "\<bar>m_a (DOMMatrix a b c d tx ty) - m_a n\<bar> \<le> 30933050 * e"
    "\<bar>m_b (DOMMatrix a b c d tx ty) - m_b n\<bar> \<le> 30933050 * e"
    "\<bar>m_c (DOMMatrix a b c d tx ty) - m_c n\<bar> \<le> 30933050 * e"
    "\<bar>m_d (DOMMatrix a b c d tx ty) - m_d n\<bar> \<le> 30933050 * e"
    "\<bar>m_e (DOMMatrix a b c d tx ty) - m_e n\<bar> \<le> 4363706171461 * e"
    "\<bar>m_f (DOMMatrix a b c d tx ty) - m_f n\<bar> \<le> 4363706171461 * e"
    using l tr by (simp_all add: n_def)
  ultimately show ?thesis
    using n by blast
qed


lemma midpoint_on_page:
  assumes "\<bar>p_x a\<bar> \<le> 2 ^ 16" "\<bar>p_y a\<bar> \<le> 2 ^ 16" "\<bar>p_x b\<bar> \<le> 2 ^ 16" "\<bar>p_y b\<bar> \<le> 2 ^ 16"
  shows "\<bar>p_x (midpoint_of a b)\<bar> \<le> 2 ^ 16" "\<bar>p_y (midpoint_of a b)\<bar> \<le> 2 ^ 16"
  using assms by (simp_all add: midpoint_of_def)

lemma round_to_53_error: "\<bar>round_to_53 r - r\<bar> \<le> 1 / 2 ^ 53 * \<bar>r\<bar>"
proof (cases "r = 0")
  case True
  then show ?thesis
    by (simp add: round_to_53_def)
next
  case False
  define k where "k = of_int \<lfloor>log 2 \<bar>r\<bar>\<rfloor> - (52::real)"
  define s where "s = 2 powr k"
  have s0: "0 < s"
    by (simp add: s_def)
  have "2 powr (of_int \<lfloor>log 2 \<bar>r\<bar>\<rfloor>) \<le> 2 powr (log 2 \<bar>r\<bar>)"
    by (intro powr_mono) simp_all
  also have "\<dots> = \<bar>r\<bar>"
    using False by simp
  finally have "s \<le> \<bar>r\<bar> / 2 ^ 52"
    by (simp add: s_def k_def powr_diff)
  moreover have "\<bar>of_int (round (r / s)) * s - r\<bar> \<le> s / 2"
  proof -
    have "of_int (round (r / s)) * s - r = (of_int (round (r / s)) - r / s) * s"
      using s0 by (simp add: algebra_simps)
    then have "\<bar>of_int (round (r / s)) * s - r\<bar> = \<bar>of_int (round (r / s)) - r / s\<bar> * s"
      using s0 by (simp add: abs_mult)
    also have "\<dots> \<le> 1 / 2 * s"
      using of_int_round_abs_le[of "r / s"] s0 by (intro mult_right_mono) simp_all
    finally show ?thesis
      by simp
  qed
  ultimately have "\<bar>of_int (round (r / s)) * s - r\<bar> \<le> \<bar>r\<bar> / 2 ^ 52 / 2"
    by (meson divide_right_mono order_trans zero_le_numeral)
  then show ?thesis
    using False by (simp add: round_to_53_def s_def k_def)
qed

lemma accurate_rounding_host: "accurate (1 / 2 ^ 53) rounding_host"
proof -
  have "\<bar>round_to_53 r - r\<bar> \<le> 1 / 2 ^ 53 * (\<bar>r\<bar> + 1)" for r
    using round_to_53_error[of r] by (simp add: algebra_simps)
  from this[of "hypot _ _"] this[of "atan2 _ _"] this[of "cos _"] this[of "sin _"] this
  show ?thesis
    unfolding accurate_def rounding_host_def by (simp add: hypot_nonneg)
qed

text \<open>
  C1, as the code has it.  On a host that is accurate to the unit \<open>e\<close>, at most
  \<^verbatim>\<open>2^-44\<close>, and for points of the page (coordinates of at most \<^verbatim>\<open>2^16\<close> in
  absolute value, start points at least \<open>1\<close> apart), \<^verbatim>\<open>getZoomMatrix\<close> returns an array
  \<open>[d, 0, 0, d, tx, ty]\<close> of finite numbers; \<open>d\<close> is the quotient of the two distances
  up to \<^verbatim>\<open>2^23 e\<close>; the images of \<open>one\<close> and \<open>two\<close> under that matrix have the
  midpoint of \<open>newOne\<close> and \<open>newTwo\<close> up to \<^verbatim>\<open>2^40 e\<close> in each coordinate, and
  their distance is that of \<open>newOne\<close> and \<open>newTwo\<close> up to \<^verbatim>\<open>2^23 e\<close>.
\<close>

theorem getZoomMatrix_nearly_correct:
  assumes acc: "accurate e H" and e: "e \<le> 1 / 2 ^ 44" and pg: "on_page p"
  shows "\<exists>d tx ty.
           getZoomMatrix_on H p = [Fin d, Fin 0, Fin 0, Fin d, Fin tx, Fin ty]
         \<and> \<bar>d - getDistance (newOne p) (newTwo p) / getDistance (one p) (two p)\<bar> \<le> 2 ^ 23 * e
         \<and> near (2 ^ 40 * e)
               (midpoint_of (transformPoint (DOMMatrix d 0 0 d tx ty) (one p))
                            (transformPoint (DOMMatrix d 0 0 d tx ty) (two p)))
               (midpoint_of (newOne p) (newTwo p))
         \<and> \<bar>getDistance (transformPoint (DOMMatrix d 0 0 d tx ty) (one p))
                         (transformPoint (DOMMatrix d 0 0 d tx ty) (two p))
              - getDistance (newOne p) (newTwo p)\<bar> \<le> 2 ^ 23 * e"
proof -
  note e0 = accurate_nonneg[OF acc]
  define h h' where "h = getDistance (one p) (two p)" and "h' = getDistance (newOne p) (newTwo p)"
  define q where "q = h' / h"
  define mx my cx cy where "mx = p_x (midpoint_of (one p) (two p))"
    and "my = p_y (midpoint_of (one p) (two p))"
    and "cx = p_x (midpoint_of (newOne p) (newTwo p))"
    and "cy = p_y (midpoint_of (newOne p) (newTwo p))"
  from pg have c: "\<bar>p_x (one p)\<bar> \<le> 2 ^ 16" "\<bar>p_y (one p)\<bar> \<le> 2 ^ 16"
      "\<bar>p_x (two p)\<bar> \<le> 2 ^ 16" "\<bar>p_y (two p)\<bar> \<le> 2 ^ 16"
      "\<bar>p_x (newOne p)\<bar> \<le> 2 ^ 16" "\<bar>p_y (newOne p)\<bar> \<le> 2 ^ 16"
      "\<bar>p_x (newTwo p)\<bar> \<le> 2 ^ 16" "\<bar>p_y (newTwo p)\<bar> \<le> 2 ^ 16"
    and h1: "1 \<le> h"
    by (simp_all add: on_page_def h_def)
  have hb: "0 \<le> h" "h \<le> 262144" "0 \<le> h'" "h' \<le> 262144"
    using getDistance_le[OF c(1,2,3,4)] getDistance_le[OF c(5,6,7,8)]
    by (simp_all add: h_def h'_def getDistance_nonneg)
  have q0: "0 \<le> q" and qh: "q * h = h'"
    using h1 hb by (simp_all add: q_def)
  have m: "\<bar>mx\<bar> \<le> 65536" "\<bar>my\<bar> \<le> 65536"
    using midpoint_on_page[OF c(1,2,3,4)] by (simp_all add: mx_def my_def)
  from getZoomMatrix_on_page[OF acc e pg, folded h_def h'_def, folded q_def,
      folded mx_def my_def cx_def cy_def]
  obtain d tx ty where
    z: "getZoomMatrix_on H p = [Fin d, Fin 0, Fin 0, Fin d, Fin tx, Fin ty]"
    and d: "\<bar>d - q\<bar> \<le> 4194311 * e" and rel: "\<bar>d - q\<bar> \<le> e * (16 * q + 7)"
    and t: "\<bar>tx - (cx - q * mx)\<bar> \<le> 343600136207 * e" "\<bar>ty - (cy - q * my)\<bar> \<le> 343600136207 * e"
    by blast
  let ?m = "DOMMatrix d 0 0 d tx ty"
  have 1: "\<bar>d - q\<bar> \<le> 2 ^ 23 * e"
    using d e0 by simp
  have "\<bar>(d * mx + tx) - cx\<bar> \<le> 618478501903 * e" "\<bar>(d * my + ty) - cy\<bar> \<le> 618478501903 * e"
  proof -
    have "(d * mx + tx) - cx = (d - q) * mx + (tx - (cx - q * mx))"
         "(d * my + ty) - cy = (d - q) * my + (ty - (cy - q * my))"
      by (simp_all add: algebra_simps)
    with mult_size[OF d m(1)] mult_size[OF d m(2)] t
    show "\<bar>(d * mx + tx) - cx\<bar> \<le> 618478501903 * e" "\<bar>(d * my + ty) - cy\<bar> \<le> 618478501903 * e"
      by linarith+
  qed
  then have "near (2 ^ 40 * e) (transformPoint ?m (midpoint_of (one p) (two p)))
               (midpoint_of (newOne p) (newTwo p))"
    using e0 by (simp add: near_def transformPoint_def mx_def my_def cx_def cy_def)
  then have 2: "near (2 ^ 40 * e)
                  (midpoint_of (transformPoint ?m (one p)) (transformPoint ?m (two p)))
                  (midpoint_of (newOne p) (newTwo p))"
    by (simp only: transformPoint_midpoint)
  have "\<bar>\<bar>d\<bar> * h - h'\<bar> \<le> 2 ^ 23 * e"
  proof -
    have "\<bar>\<bar>d\<bar> - q\<bar> \<le> e * (16 * q + 7)"
      using rel q0 by linarith
    from mult_size[OF this, of h h] hb have "\<bar>(\<bar>d\<bar> - q) * h\<bar> \<le> e * (16 * q + 7) * h"
      by simp
    moreover have "(\<bar>d\<bar> - q) * h = \<bar>d\<bar> * h - h'"
      unfolding qh[symmetric] by (simp add: algebra_simps)
    moreover have "e * (16 * q + 7) * h = e * (16 * h' + 7 * h)"
      by (simp add: algebra_simps qh[symmetric])
    moreover have "e * (16 * h' + 7 * h) \<le> e * 6029312"
      using e0 hb by (intro mult_left_mono) simp_all
    ultimately show ?thesis
      using e0 by simp
  qed
  then have 3: "\<bar>getDistance (transformPoint ?m (one p)) (transformPoint ?m (two p))
                  - getDistance (newOne p) (newTwo p)\<bar> \<le> 2 ^ 23 * e"
    by (simp only: getDistance_scaled h_def h'_def)
  from z 1 2 3 show ?thesis
    unfolding q_def h_def h'_def by blast
qed

theorem getZoomMatrix_nearly_correct_witness:
  "accurate (1 / 2 ^ 53) rounding_host \<and> (1 / 2 ^ 53 :: real) \<le> 1 / 2 ^ 44
   \<and> on_page \<lparr>one = \<lparr>p_x = 1, p_y = 2\<rparr>, two = \<lparr>p_x = 4, p_y = 2\<rparr>,
                newOne = \<lparr>p_x = 0, p_y = 0\<rparr>, newTwo = \<lparr>p_x = 6, p_y = 0\<rparr>\<rparr>
   \<and> (\<exists>d tx ty.
         getZoomMatrix_on rounding_host
           \<lparr>one = \<lparr>p_x = 1, p_y = 2\<rparr>, two = \<lparr>p_x = 4, p_y = 2\<rparr>,
            newOne = \<lparr>p_x = 0, p_y = 0\<rparr>, newTwo = \<lparr>p_x = 6, p_y = 0\<rparr>\<rparr>
           = [Fin d, Fin 0, Fin 0, Fin d, Fin tx, Fin ty]
       \<and> \<bar>d - 2\<bar> \<le> 1 / 2 ^ 30
       \<and> near (1 / 2 ^ 13)
             (midpoint_of (transformPoint (DOMMatrix d 0 0 d tx ty) \<lparr>p_x = 1, p_y = 2\<rparr>)
                          (transformPoint (DOMMatrix d 0 0 d tx ty) \<lparr>p_x = 4, p_y = 2\<rparr>))
             \<lparr>p_x = 3, p_y = 0\<rparr>
       \<and> \<bar>getDistance (transformPoint (DOMMatrix d 0 0 d tx ty) \<lparr>p_x = 1, p_y = 2\<rparr>)
                       (transformPoint (DOMMatrix d 0 0 d tx ty) \<lparr>p_x = 4, p_y = 2\<rparr>) - 6\<bar>
            \<le> 1 / 2 ^ 30)"
proof -
  let ?p = "\<lparr>one = \<lparr>p_x = 1, p_y = 2\<rparr>, two = \<lparr>p_x = 4, p_y = 2\<rparr>,
             newOne = \<lparr>p_x = 0, p_y = 0\<rparr>, newTwo = \<lparr>p_x = 6, p_y = (0::real)\<rparr>\<rparr>"
  have e: "(1 / 2 ^ 53 :: real) \<le> 1 / 2 ^ 44"
    by simp
  have pg: "on_page ?p"
    by (simp add: on_page_def getDistance_def)
  have v: "getDistance (newOne ?p) (newTwo ?p) / getDistance (one ?p) (two ?p) = 2"
    "getDistance (newOne ?p) (newTwo ?p) = 6" "midpoint_of (newOne ?p) (newTwo ?p) = \<lparr>p_x = 3, p_y = 0\<rparr>"
    "(2 ^ 23 * (1 / 2 ^ 53) :: real) = 1 / 2 ^ 30" "(2 ^ 40 * (1 / 2 ^ 53) :: real) = 1 / 2 ^ 13"
    by (simp_all add: getDistance_def midpoint_of_def)
  from getZoomMatrix_nearly_correct[OF accurate_rounding_host e pg] accurate_rounding_host e pg
  show ?thesis
    unfolding v by (simp add: getDistance_def)
qed


text \<open>
  C9, as the code has it.  On a host that is accurate to the unit \<open>e\<close>, at most
  \<^verbatim>\<open>2^-44\<close>, and for points of the page, the entries of the array of \<^verbatim>\<open>getMatrix\<close>
  are finite, and the matrix takes \<open>one\<close> to \<open>newOne\<close> and \<open>two\<close> to
  \<open>newTwo\<close> up to \<^verbatim>\<open>2^43 e\<close> in each coordinate.
\<close>

theorem getMatrix_maps_points_nearly:
  assumes acc: "accurate e H" and e: "e \<le> 1 / 2 ^ 44" and pg: "on_page p"
  shows "\<exists>m. getMatrix_on H p = map Fin (entries m)
           \<and> near (2 ^ 43 * e) (transformPoint m (one p)) (newOne p)
           \<and> near (2 ^ 43 * e) (transformPoint m (two p)) (newTwo p)"
proof -
  from pg have c: "\<bar>p_x (one p)\<bar> \<le> 2 ^ 16" "\<bar>p_y (one p)\<bar> \<le> 2 ^ 16"
      "\<bar>p_x (two p)\<bar> \<le> 2 ^ 16" "\<bar>p_y (two p)\<bar> \<le> 2 ^ 16"
    and pos: "0 < getDistance (one p) (two p)"
    by (simp_all add: on_page_def)
  from getMatrix_on_near_formulas[OF acc e pg] obtain m n where
    m: "getMatrix_on H p = map Fin (entries m)" and n: "getMatrix p = Some n"
    and l: "\<bar>m_a m - m_a n\<bar> \<le> 30933050 * e" "\<bar>m_b m - m_b n\<bar> \<le> 30933050 * e"
      "\<bar>m_c m - m_c n\<bar> \<le> 30933050 * e" "\<bar>m_d m - m_d n\<bar> \<le> 30933050 * e"
    and t: "\<bar>m_e m - m_e n\<bar> \<le> 4363706171461 * e" "\<bar>m_f m - m_f n\<bar> \<le> 4363706171461 * e"
    by blast
  from getMatrix_formulas_map_points[OF pos] n
  have "transformPoint n (one p) = newOne p" "transformPoint n (two p) = newTwo p"
    by auto
  with transformPoint_near[OF l t c(1,2)] transformPoint_near[OF l t c(3,4)] m show ?thesis
    by auto
qed

theorem getMatrix_maps_points_nearly_witness:
  "accurate (1 / 2 ^ 53) rounding_host \<and> (1 / 2 ^ 53 :: real) \<le> 1 / 2 ^ 44
   \<and> on_page \<lparr>one = \<lparr>p_x = 0, p_y = 0\<rparr>, two = \<lparr>p_x = 2, p_y = 0\<rparr>,
                newOne = \<lparr>p_x = 1, p_y = 1\<rparr>, newTwo = \<lparr>p_x = 1, p_y = 3\<rparr>\<rparr>
   \<and> (\<exists>m. getMatrix_on rounding_host
              \<lparr>one = \<lparr>p_x = 0, p_y = 0\<rparr>, two = \<lparr>p_x = 2, p_y = 0\<rparr>,
               newOne = \<lparr>p_x = 1, p_y = 1\<rparr>, newTwo = \<lparr>p_x = 1, p_y = 3\<rparr>\<rparr>
              = map Fin (entries m)
          \<and> near (1 / 2 ^ 10) (transformPoint m \<lparr>p_x = 0, p_y = 0\<rparr>) \<lparr>p_x = 1, p_y = 1\<rparr>
          \<and> near (1 / 2 ^ 10) (transformPoint m \<lparr>p_x = 2, p_y = 0\<rparr>) \<lparr>p_x = 1, p_y = 3\<rparr>)"
proof -
  let ?p = "\<lparr>one = \<lparr>p_x = 0, p_y = 0\<rparr>, two = \<lparr>p_x = 2, p_y = 0\<rparr>,
             newOne = \<lparr>p_x = 1, p_y = 1\<rparr>, newTwo = \<lparr>p_x = 1, p_y = (3::real)\<rparr>\<rparr>"
  have e: "(1 / 2 ^ 53 :: real) \<le> 1 / 2 ^ 44"
    by simp
  have pg: "on_page ?p"
    by (simp add: on_page_def getDistance_def)
  from getMatrix_maps_points_nearly[OF accurate_rounding_host e pg] accurate_rounding_host e pg
  show ?thesis
    by simp
qed

text \<open>
  C2, as the code has it.  On a host that is accurate to the unit \<open>e\<close>, at most
  \<^verbatim>\<open>2^-44\<close>, and for points of the page, the entries of the array of \<^verbatim>\<open>getMatrix\<close>
  are finite; its linear part is \<open>[d cos t, d sin t, - d sin t, d cos t]\<close> up to
  \<^verbatim>\<open>2^25 e\<close> in each entry, with \<open>d\<close> the quotient of the distances and \<open>t\<close> the
  difference of the two \<^verbatim>\<open>atan2\<close> angles; and the matrix takes the midpoint of
  \<open>one\<close> and \<open>two\<close> to the midpoint of \<open>newOne\<close> and \<open>newTwo\<close> up to
  \<^verbatim>\<open>2^43 e\<close> in each coordinate.
\<close>

theorem getMatrix_nearly_correct:
  assumes acc: "accurate e H" and e: "e \<le> 1 / 2 ^ 44" and pg: "on_page p"
  shows "let d = getDistance (newOne p) (newTwo p) / getDistance (one p) (two p);
             t = atan2 (p_y (newTwo p) - p_y (newOne p)) (p_x (newTwo p) - p_x (newOne p))
                 - atan2 (p_y (two p) - p_y (one p)) (p_x (two p) - p_x (one p))
         in \<exists>m. getMatrix_on H p = map Fin (entries m)
              \<and> \<bar>m_a m - d * cos t\<bar> \<le> 2 ^ 25 * e \<and> \<bar>m_b m - d * sin t\<bar> \<le> 2 ^ 25 * e
              \<and> \<bar>m_c m - (- d * sin t)\<bar> \<le> 2 ^ 25 * e \<and> \<bar>m_d m - d * cos t\<bar> \<le> 2 ^ 25 * e
              \<and> near (2 ^ 43 * e) (transformPoint m (midpoint_of (one p) (two p)))
                    (midpoint_of (newOne p) (newTwo p))"
proof -
  note e0 = accurate_nonneg[OF acc]
  define d where "d = getDistance (newOne p) (newTwo p) / getDistance (one p) (two p)"
  define t where "t = atan2 (p_y (newTwo p) - p_y (newOne p)) (p_x (newTwo p) - p_x (newOne p))
                        - atan2 (p_y (two p) - p_y (one p)) (p_x (two p) - p_x (one p))"
  from pg have c: "\<bar>p_x (one p)\<bar> \<le> 2 ^ 16" "\<bar>p_y (one p)\<bar> \<le> 2 ^ 16"
      "\<bar>p_x (two p)\<bar> \<le> 2 ^ 16" "\<bar>p_y (two p)\<bar> \<le> 2 ^ 16"
    and pos: "0 < getDistance (one p) (two p)"
    by (simp_all add: on_page_def)
  from getMatrix_on_near_formulas[OF acc e pg] obtain m n where
    m: "getMatrix_on H p = map Fin (entries m)" and n: "getMatrix p = Some n"
    and l: "\<bar>m_a m - m_a n\<bar> \<le> 30933050 * e" "\<bar>m_b m - m_b n\<bar> \<le> 30933050 * e"
      "\<bar>m_c m - m_c n\<bar> \<le> 30933050 * e" "\<bar>m_d m - m_d n\<bar> \<le> 30933050 * e"
    and tr: "\<bar>m_e m - m_e n\<bar> \<le> 4363706171461 * e" "\<bar>m_f m - m_f n\<bar> \<le> 4363706171461 * e"
    by blast
  from getMatrix_formulas[OF pos, unfolded Let_def, folded d_def t_def] n
  have lin: "m_a n = d * cos t" "m_b n = d * sin t" "m_c n = - d * sin t" "m_d n = d * cos t"
    and mid: "transformPoint n (midpoint_of (one p) (two p)) = midpoint_of (newOne p) (newTwo p)"
    by auto
  from l e0 have "\<bar>m_a m - d * cos t\<bar> \<le> 2 ^ 25 * e" "\<bar>m_b m - d * sin t\<bar> \<le> 2 ^ 25 * e"
    "\<bar>m_c m - (- d * sin t)\<bar> \<le> 2 ^ 25 * e" "\<bar>m_d m - d * cos t\<bar> \<le> 2 ^ 25 * e"
    unfolding lin by simp_all
  moreover from transformPoint_near[OF l tr midpoint_on_page[OF c]]
  have "near (2 ^ 43 * e) (transformPoint m (midpoint_of (one p) (two p)))
          (midpoint_of (newOne p) (newTwo p))"
    unfolding mid .
  ultimately show ?thesis
    unfolding Let_def d_def[symmetric] t_def[symmetric] using m by blast
qed

theorem getMatrix_nearly_correct_witness:
  "accurate (1 / 2 ^ 53) rounding_host \<and> (1 / 2 ^ 53 :: real) \<le> 1 / 2 ^ 44
   \<and> on_page \<lparr>one = \<lparr>p_x = 0, p_y = 0\<rparr>, two = \<lparr>p_x = 1, p_y = 0\<rparr>,
                newOne = \<lparr>p_x = 0, p_y = 0\<rparr>, newTwo = \<lparr>p_x = 0, p_y = 1\<rparr>\<rparr>
   \<and> (\<exists>m. getMatrix_on rounding_host
              \<lparr>one = \<lparr>p_x = 0, p_y = 0\<rparr>, two = \<lparr>p_x = 1, p_y = 0\<rparr>,
               newOne = \<lparr>p_x = 0, p_y = 0\<rparr>, newTwo = \<lparr>p_x = 0, p_y = 1\<rparr>\<rparr>
              = map Fin (entries m)
          \<and> \<bar>m_a m - 0\<bar> \<le> 1 / 2 ^ 28 \<and> \<bar>m_b m - 1\<bar> \<le> 1 / 2 ^ 28
          \<and> \<bar>m_c m - (- 1)\<bar> \<le> 1 / 2 ^ 28 \<and> \<bar>m_d m - 0\<bar> \<le> 1 / 2 ^ 28
          \<and> near (1 / 2 ^ 10) (transformPoint m \<lparr>p_x = 1 / 2, p_y = 0\<rparr>) \<lparr>p_x = 0, p_y = 1 / 2\<rparr>)"
proof -
  let ?p = "\<lparr>one = \<lparr>p_x = 0, p_y = 0\<rparr>, two = \<lparr>p_x = 1, p_y = 0\<rparr>,
             newOne = \<lparr>p_x = 0, p_y = 0\<rparr>, newTwo = \<lparr>p_x = 0, p_y = (1::real)\<rparr>\<rparr>"
  have e: "(1 / 2 ^ 53 :: real) \<le> 1 / 2 ^ 44"
    by simp
  have pg: "on_page ?p"
    by (simp add: on_page_def getDistance_def)
  from getMatrix_nearly_correct[OF accurate_rounding_host e pg] accurate_rounding_host e pg
  show ?thesis
    by (simp add: Let_def getDistance_def atan2_def midpoint_of_def hypot_def)
qed

lemma hypot_axis_snd [simp]: "hypot 0 v = \<bar>v\<bar>"
  by (simp add: hypot_def)

text \<open>
  C1, as the specification words it, for every four points with a positive distance of
  the start points: with \<^verbatim>\<open>two = (0, 2^-700)\<close> and \<^verbatim>\<open>newTwo = (0, 2^700)\<close> the
  quotient of the distances is \<^verbatim>\<open>2^1400\<close>, which is out of range.  The array has
  \<^verbatim>\<open>Infinity\<close> for \<open>d\<close> and no number for \<open>tx\<close>, and there are no images of
  \<open>one\<close> and \<open>two\<close> to speak of.
\<close>

theorem getZoomMatrix_nearly_correct_counterexample:
  "0 < getDistance \<lparr>p_x = 0, p_y = 0\<rparr> \<lparr>p_x = 0, p_y = 1 / 2 ^ 700\<rparr>
   \<and> getZoomMatrix_fp \<lparr>one = \<lparr>p_x = 0, p_y = 0\<rparr>, two = \<lparr>p_x = 0, p_y = 1 / 2 ^ 700\<rparr>,
                        newOne = \<lparr>p_x = 0, p_y = 0\<rparr>, newTwo = \<lparr>p_x = 0, p_y = 2 ^ 700\<rparr>\<rparr>
       = [PosInf, Fin 0, Fin 0, PosInf, NaN, NegInf]"
  by (simp add: getDistance_def getDistance_fp_def getZoomMatrix_fp_def n_sub_def fl_def
        overflow_threshold_def inf_of_sign_def)

text \<open>
  C2, as the specification words it: with \<^verbatim>\<open>one = (2^-600, 0)\<close>,
  \<^verbatim>\<open>newOne = (2^600, 0)\<close> and \<^verbatim>\<open>two = newTwo = (0, 0)\<close> both angles are \<open>\<pi>\<close>,
  the quotient of the distances overflows, and the linear part is
  \<^verbatim>\<open>[Infinity, NaN, NaN, Infinity]\<close>.
\<close>

theorem getMatrix_nearly_correct_counterexample:
  "0 < getDistance \<lparr>p_x = 1 / 2 ^ 600, p_y = 0\<rparr> \<lparr>p_x = 0, p_y = 0\<rparr>
   \<and> getMatrix_fp \<lparr>one = \<lparr>p_x = 1 / 2 ^ 600, p_y = 0\<rparr>, two = \<lparr>p_x = 0, p_y = 0\<rparr>,
                    newOne = \<lparr>p_x = 2 ^ 600, p_y = 0\<rparr>, newTwo = \<lparr>p_x = 0, p_y = 0\<rparr>\<rparr>
       = [PosInf, NaN, NaN, PosInf, NaN, NaN]"
  by (simp add: getDistance_def getDistance_fp_def getMatrix_fp_def n_sub_def fl_def
        overflow_threshold_def inf_of_sign_def atan2_def)

text \<open>
  C9, as the specification words it, for every four finite points with a positive
  distance of the start points: with \<^verbatim>\<open>two = (0, -2^-600)\<close> and
  \<^verbatim>\<open>newTwo = (0, -2^600)\<close> both angles are \<open>-\<pi>/2\<close>, the quotient of the distances
  is \<^verbatim>\<open>2^1200\<close>, which is out of range, and no entry of the array is a finite
  number: the matrix takes \<open>two\<close> nowhere.
\<close>

theorem getMatrix_maps_points_nearly_counterexample:
  "0 < getDistance \<lparr>p_x = 0, p_y = 0\<rparr> \<lparr>p_x = 0, p_y = - (1 / 2 ^ 600)\<rparr>
   \<and> getMatrix_fp \<lparr>one = \<lparr>p_x = 0, p_y = 0\<rparr>, two = \<lparr>p_x = 0, p_y = - (1 / 2 ^ 600)\<rparr>,
                    newOne = \<lparr>p_x = 0, p_y = 0\<rparr>, newTwo = \<lparr>p_x = 0, p_y = - (2 ^ 600)\<rparr>\<rparr>
       = [PosInf, NaN, NaN, PosInf, NaN, NaN]"
  by (simp add: getDistance_def getDistance_fp_def getMatrix_fp_def n_sub_def fl_def
        overflow_threshold_def inf_of_sign_def atan2_def)

end
